(* ===== verification/Studio_Prelude.thy ===== *)
theory Studio_Prelude
  imports Main "HOL-Library.Word" "HOL-Library.Monad_Syntax"
begin

text \<open>
  Shared ground of the development: the machine types of the 32-bit targets the
  firmware is built for (\<^verbatim>\<open>native\<close> i686 and Xtensa ESP32), C memory and the few
  functions of the C library the sources call (\<^verbatim>\<open>memcpy\<close>, \<^verbatim>\<open>strlen\<close>, \<^verbatim>\<open>atoi\<close>,
  \<^verbatim>\<open>strtoul\<close>, the integer conversions of \<^verbatim>\<open>printf\<close>), the generic lemmas on lists
  and options the components use, and the interface of a step function that keeps an
  invariant.

  An operation that the C standard leaves undefined (a copy that leaves its buffer, a
  null pointer read) or that stops the program (\<^verbatim>\<open>assert\<close>, a Rust panic) is the value
  \<^const>\<open>None\<close> of an option; every operation that can do so has an option result.
\<close>

unbundle bit_operations_syntax

section \<open>Machine types\<close>

type_synonym byte = "8 word"
type_synonym u8 = "8 word"
type_synonym u16 = "16 word"
type_synonym u32 = "32 word"
type_synonym bytes = "byte list"

text \<open>The endpoint of RIOT's sock layer, which all the examples use.\<close>

datatype af = AF_UNSPEC | AF_INET | AF_INET6

record sock_ep =
  family :: af
  addr :: bytes
  netif :: u16
  port :: u16

named_theorems c_lib \<open>evaluation of the C library functions\<close>
named_theorems mem_simps \<open>reading and writing arrays\<close>

section \<open>Arrays and C strings\<close>

text \<open>
  An array is a list of its cells. \<open>mem_write off xs buf\<close> is the effect of
  \<^verbatim>\<open>memcpy(buf + off, xs, n)\<close> on the array \<open>buf\<close>; outside the array it is undefined.
\<close>

definition mem_write :: "nat \<Rightarrow> 'a list \<Rightarrow> 'a list \<Rightarrow> 'a list option" where
  "mem_write off xs buf =
     (if off + length xs \<le> length buf
      then Some (take off buf @ xs @ drop (off + length xs) buf) else None)"

lemma mem_write_eq_Some [mem_simps]:
  "mem_write off xs buf = Some buf' \<longleftrightarrow>
     off + length xs \<le> length buf \<and> buf' = take off buf @ xs @ drop (off + length xs) buf"
  by (auto simp: mem_write_def)

lemma mem_write_None [mem_simps]:
  "mem_write off xs buf = None \<longleftrightarrow> length buf < off + length xs"
  by (auto simp: mem_write_def)

lemma mem_write_length: "mem_write off xs buf = Some buf' \<Longrightarrow> length buf' = length buf"
  by (auto simp: mem_simps)

lemma mem_write_read:
  assumes "mem_write off xs buf = Some buf'"
  shows "take (off + length xs) buf' = take off buf @ xs"
proof -
  from assms have "buf' = (take off buf @ xs) @ drop (off + length xs) buf"
    and len: "off + length xs \<le> length buf"
    by (simp_all add: mem_simps)
  moreover from len have "length (take off buf @ xs) = off + length xs" by simp
  ultimately show ?thesis by (metis append_eq_conv_conj)
qed

lemma mem_write_exists: "off + length xs \<le> length buf \<Longrightarrow> \<exists>buf'. mem_write off xs buf = Some buf'"
  by (simp add: mem_write_def)

abbreviation NUL :: char where "NUL \<equiv> CHR 0x00"
abbreviation nl :: string where "nl \<equiv> [CHR 0x0A]"

text \<open>The string a character array holds: everything before the first NUL.\<close>

definition cstr :: "char list \<Rightarrow> string" where
  "cstr buf = takeWhile (\<lambda>c. c \<noteq> NUL) buf"

definition nul_terminated :: "char list \<Rightarrow> bool" where
  "nul_terminated buf \<longleftrightarrow> NUL \<in> set buf"

lemma cstr_append_NUL: "NUL \<notin> set s \<Longrightarrow> cstr (s @ NUL # rest) = s"
  by (induction s) (auto simp: cstr_def)

lemma cstr_replicate_NUL [simp]: "cstr (replicate n NUL) = []"
  by (cases n) (simp_all add: cstr_def)

lemma NUL_notin_cstr: "NUL \<notin> set (cstr buf)"
  by (auto simp: cstr_def dest: set_takeWhileD)

lemma length_cstr_le: "length (cstr buf) \<le> length buf"
  by (simp add: cstr_def length_takeWhile_le)

lemma length_cstr_less: "nul_terminated buf \<Longrightarrow> length (cstr buf) < length buf"
proof -
  assume "nul_terminated buf"
  then obtain xs ys where "buf = xs @ NUL # ys" "NUL \<notin> set xs"
    unfolding nul_terminated_def by (metis in_set_conv_decomp_first)
  then show ?thesis by (simp add: cstr_append_NUL)
qed

text \<open>A \<^verbatim>\<open>char\<close> array seen as bytes and back.\<close>

definition bytes_of :: "string \<Rightarrow> bytes" where
  "bytes_of s = map of_char s"

definition string_of :: "bytes \<Rightarrow> string" where
  "string_of bs = map (\<lambda>b. char_of (unat b)) bs"

lemma length_bytes_of [simp]: "length (bytes_of s) = length s"
  by (simp add: bytes_of_def)

lemma length_string_of [simp]: "length (string_of bs) = length bs"
  by (simp add: string_of_def)

lemma unat_of_char: "unat (of_char c :: byte) = of_char c"
proof -
  have "(of_char c :: nat) < 256" by simp
  moreover have "(of_char c :: byte) = word_of_nat (of_char c)" by (simp add: of_nat_of_char)
  ultimately show ?thesis by (simp add: unat_of_nat)
qed

lemma string_of_bytes_of [simp]: "string_of (bytes_of s) = s"
  by (simp add: string_of_def bytes_of_def o_def unat_of_char)

lemma bytes_of_eq_Nil [simp]: "bytes_of s = [] \<longleftrightarrow> s = []"
  by (simp add: bytes_of_def)

section \<open>Numbers and strings\<close>

text \<open>The decimal conversions of \<^verbatim>\<open>printf\<close>: \<^verbatim>\<open>%u\<close>, \<^verbatim>\<open>%02u\<close> and \<^verbatim>\<open>%d\<close>.\<close>

definition digit_char :: "nat \<Rightarrow> char" where
  "digit_char d = char_of (48 + d)"

fun dec :: "nat \<Rightarrow> string" where
  "dec n = (if n < 10 then [digit_char n] else dec (n div 10) @ [digit_char (n mod 10)])"

declare dec.simps [simp del]

definition dec02 :: "nat \<Rightarrow> string" where
  "dec02 n = (if n < 10 then CHR ''0'' # dec n else dec n)"

definition dec_int :: "int \<Rightarrow> string" where
  "dec_int i = (if i < 0 then CHR ''-'' # dec (nat (- i)) else dec (nat i))"

text \<open>
  \<^verbatim>\<open>strtol\<close> and \<^verbatim>\<open>strtoul\<close> in base ten: white space is skipped, one sign is taken, the
  longest run of digits is read. Both are 32 bits wide on the targets and saturate;
  \<^verbatim>\<open>atoi\<close> is \<^verbatim>\<open>strtol\<close> cast to \<^verbatim>\<open>int\<close>.
\<close>

definition is_space :: "char \<Rightarrow> bool" where
  "is_space c \<longleftrightarrow> c \<in> {CHR '' '', CHR 0x09, CHR 0x0A, CHR 0x0B, CHR 0x0C, CHR 0x0D}"

definition is_digit :: "char \<Rightarrow> bool" where
  "is_digit c \<longleftrightarrow> 48 \<le> (of_char c :: nat) \<and> (of_char c :: nat) \<le> 57"

fun read_digits :: "nat \<Rightarrow> string \<Rightarrow> nat" where
  "read_digits acc [] = acc"
| "read_digits acc (c # cs) =
     (if is_digit c then read_digits (10 * acc + (of_char c - 48)) cs else acc)"

fun read_sign :: "string \<Rightarrow> bool \<times> string" where
  "read_sign (c # cs) =
     (if c = CHR ''-'' then (True, cs) else if c = CHR ''+'' then (False, cs) else (False, c # cs))"
| "read_sign [] = (False, [])"

definition strtoul :: "string \<Rightarrow> u32" where
  "strtoul s = (let (neg, t) = read_sign (dropWhile is_space s); n = read_digits 0 t in
     if 2 ^ 32 \<le> n then - 1 else if neg then - word_of_nat n else word_of_nat n)"

definition atoi :: "string \<Rightarrow> int" where
  "atoi s = (let (neg, t) = read_sign (dropWhile is_space s); n = int (read_digits 0 t) in
     if neg then max (- (2 ^ 31)) (- n) else min (2 ^ 31 - 1) n)"

lemmas [c_lib] = strtoul_def atoi_def is_space_def is_digit_def cstr_def Let_def

lemma of_char_digit_char: "d < 10 \<Longrightarrow> (of_char (digit_char d) :: nat) = 48 + d"
  by (simp add: digit_char_def)

lemma is_digit_digit_char: "d < 10 \<Longrightarrow> is_digit (digit_char d)"
  by (simp add: is_digit_def of_char_digit_char)

lemma dec_digits: "c \<in> set (dec n) \<Longrightarrow> is_digit c"
proof (induction n rule: dec.induct)
  case (1 n)
  then show ?case
    by (cases "n < 10") (auto simp: dec.simps [of n] is_digit_digit_char)
qed

lemma dec_not_Nil [simp]: "dec n \<noteq> []"
  by (subst dec.simps) simp

lemma read_digits_append:
  "\<forall>c \<in> set xs. is_digit c \<Longrightarrow> read_digits acc (xs @ ys) = read_digits (read_digits acc xs) ys"
  by (induction xs arbitrary: acc) auto

lemma read_digits_dec: "read_digits 0 (dec n) = n"
proof (induction n rule: dec.induct)
  case (1 n)
  show ?case
  proof (cases "n < 10")
    case True
    then show ?thesis
      by (simp add: dec.simps [of n] is_digit_digit_char of_char_digit_char)
  next
    case False
    with 1 have "read_digits 0 (dec (n div 10)) = n div 10" by simp
    with False show ?thesis
      by (simp add: dec.simps [of n] read_digits_append dec_digits is_digit_digit_char
          of_char_digit_char)
  qed
qed

lemma is_digit_not_space: "is_digit c \<Longrightarrow> \<not> is_space c"
  by (auto simp: is_digit_def is_space_def)

lemma is_digit_not_sign: "is_digit c \<Longrightarrow> c \<noteq> CHR ''-'' \<and> c \<noteq> CHR ''+''"
  by (auto simp: is_digit_def)

lemma read_number_dec:
  "read_sign (dropWhile is_space (dec n)) = (False, dec n)"
proof -
  obtain c cs where d: "dec n = c # cs" by (cases "dec n") auto
  then have "is_digit c" using dec_digits [of c n] by simp
  with d show ?thesis by (simp add: is_digit_not_space is_digit_not_sign)
qed

lemma strtoul_dec: "n < 2 ^ 32 \<Longrightarrow> strtoul (dec n) = word_of_nat n"
  by (simp add: strtoul_def read_number_dec read_digits_dec)

lemma atoi_dec: "n < 2 ^ 31 \<Longrightarrow> atoi (dec n) = int n"
  by (simp add: atoi_def read_number_dec read_digits_dec)

lemma atoi_range: "- (2 ^ 31) \<le> atoi s \<and> atoi s < 2 ^ 31"
  by (auto simp: atoi_def Let_def split: prod.splits)

lemma length_dec_le: "n < 10 ^ k \<Longrightarrow> 0 < k \<Longrightarrow> length (dec n) \<le> k"
proof (induction n arbitrary: k rule: dec.induct)
  case (1 n)
  show ?case
  proof (cases "n < 10")
    case True
    with 1 show ?thesis by (simp add: dec.simps [of n])
  next
    case False
    with "1.prems" have "k \<noteq> 1" by auto
    with "1.prems" obtain j where k: "k = Suc j" and j: "0 < j" by (cases k) auto
    with "1.prems" have "n div 10 < 10 ^ j" by (simp add: less_mult_imp_div_less mult.commute)
    with "1.IH" False j have "length (dec (n div 10)) \<le> j" by simp
    with False k show ?thesis by (simp add: dec.simps [of n])
  qed
qed

lemma NUL_notin_dec: "NUL \<notin> set (dec n)"
  using dec_digits [of NUL n] by (auto simp: is_digit_def)

text \<open>Sums of a result and a length that stay in range.\<close>

lemma sint_small_sum:
  assumes "0 \<le> n" and "n + int k < 2 ^ 31"
  shows "sint (word_of_int n + word_of_nat k :: u32) = n + int k"
proof -
  define m where "m = n + int k"
  have "(word_of_int n + word_of_nat k :: u32) = word_of_int m"
    by (simp add: m_def)
  moreover have "sint (word_of_int m :: u32) = m"
    using assms by (simp add: m_def sint_sbintrunc' signed_take_bit_int_eq_self del: wi_hom_add of_int_add)
  ultimately show ?thesis by (simp add: m_def)
qed

lemma unat_small_sum:
  assumes "0 \<le> n" and "n + int k < 2 ^ 32"
  shows "unat (word_of_int n + word_of_nat k :: u32) = nat n + k"
proof -
  define m where "m = nat n + k"
  have "(word_of_int n + word_of_nat k :: u32) = word_of_nat m"
    using assms(1) by (simp add: m_def)
  moreover have "unat (word_of_nat m :: u32) = m"
    using assms by (simp add: m_def unat_of_nat take_bit_nat_eq_self del: of_nat_add)
  ultimately show ?thesis by (simp add: m_def)
qed

section \<open>Runs of a step function\<close>

text \<open>
  A component is driven by a sequence of calls from its environment: shell commands,
  packets, polls. \<open>run_steps\<close> is that sequence, stopped by the first call that does
  not return.
\<close>

fun run_steps :: "('e \<Rightarrow> 's \<Rightarrow> 's option) \<Rightarrow> 'e list \<Rightarrow> 's \<Rightarrow> 's option" where
  "run_steps step [] s = Some s"
| "run_steps step (e # es) s = (case step e s of None \<Rightarrow> None | Some s' \<Rightarrow> run_steps step es s')"

lemma run_steps_append:
  "run_steps step (es @ fs) s =
     (case run_steps step es s of None \<Rightarrow> None | Some t \<Rightarrow> run_steps step fs t)"
  by (induction es arbitrary: s) (auto split: option.splits)

text \<open>The contract of a step function that keeps an invariant, and what every run then has.\<close>

locale invariant_steps =
  fixes step :: "'e \<Rightarrow> 's \<Rightarrow> 's option"
    and inv :: "'s \<Rightarrow> bool"
  assumes inv_step: "inv s \<Longrightarrow> step e s = Some s' \<Longrightarrow> inv s'"
begin

lemma inv_run: "inv s \<Longrightarrow> run_steps step es s = Some s' \<Longrightarrow> inv s'"
proof (induction es arbitrary: s)
  case Nil
  then show ?case by simp
next
  case (Cons e es)
  then show ?case by (auto split: option.splits dest: inv_step)
qed

end

text \<open>A step function that moreover always returns under its invariant.\<close>

locale total_steps = invariant_steps +
  assumes step_returns: "inv s \<Longrightarrow> \<exists>s'. step e s = Some s'"
begin

lemma run_returns: "inv s \<Longrightarrow> \<exists>s'. run_steps step es s = Some s' \<and> inv s'"
proof (induction es arbitrary: s)
  case Nil
  then show ?case by simp
next
  case (Cons e es)
  from Cons.prems obtain t where t: "step e s = Some t" using step_returns by blast
  with Cons.prems have "inv t" by (blast intro: inv_step)
  then obtain s' where "run_steps step es t = Some s'" and "inv s'" using Cons.IH by blast
  with t show ?case by auto
qed

end

text \<open>
  A step relation that implements a more abstract one: a step is a step of the abstract system or
  changes nothing it can see, and so is every run.
\<close>

locale simulation =
  fixes cstep :: "'s \<Rightarrow> 's \<Rightarrow> bool"
    and astep :: "'t \<Rightarrow> 't \<Rightarrow> bool"
    and abs :: "'s \<Rightarrow> 't"
  assumes simulates: "cstep s t \<Longrightarrow> abs s = abs t \<or> astep (abs s) (abs t)"
begin

lemma run_simulates: "cstep\<^sup>*\<^sup>* s t \<Longrightarrow> astep\<^sup>*\<^sup>* (abs s) (abs t)"
proof (induction rule: rtranclp_induct)
  case base
  show ?case by simp
next
  case (step t u)
  then show ?case using simulates [of t u] by auto
qed

end

end
