(* ===== verification/Xstream.thy ===== *)
theory Xstream
  imports Studio_Prelude
begin

text \<open>
  The stream between the C callbacks and the asynchronous tasks, \<^verbatim>\<open>src/xbd/stream.rs\<close> of
  \<^verbatim>\<open>examples/xbd-net\<close>: a queue of capacity \<^verbatim>\<open>N - 1\<close> and a waker. First the operations as
  functions, against the contract of a bounded first-in first-out queue; then \<^verbatim>\<open>add\<close> and
  \<^verbatim>\<open>poll_next\<close> cut into their atomic steps, as a producer and a consumer that may interleave,
  to show that no wake-up is lost.
\<close>

section \<open>Operations\<close>

datatype 'a poll = Ready 'a | Pending

text \<open>\<^verbatim>\<open>add\<close> panics on a full queue; \<^verbatim>\<open>Queue<T, N>\<close> holds \<^verbatim>\<open>N - 1\<close> items.\<close>

definition xs_add :: "nat \<Rightarrow> 'a \<Rightarrow> 'a list \<Rightarrow> 'a list option" where
  "xs_add N item q = (if length q < N - 1 then Some (q @ [item]) else None)"

definition xs_empty :: "'a list \<Rightarrow> 'a list" where
  "xs_empty q = []"

definition xs_len :: "'a list \<Rightarrow> nat" where
  "xs_len q = length q"

definition xs_poll_next :: "'a list \<Rightarrow> 'a poll \<times> 'a list" where
  "xs_poll_next q = (case q of [] \<Rightarrow> (Pending, []) | item # r \<Rightarrow> (Ready item, r))"

text \<open>
  The contract the blockwise code relies on: a queue with an abstraction to a list, bounded,
  first in first out.
\<close>

locale bounded_fifo =
  fixes add :: "'a \<Rightarrow> 'q \<Rightarrow> 'q option"
    and poll :: "'q \<Rightarrow> 'a poll \<times> 'q"
    and clear :: "'q \<Rightarrow> 'q"
    and len :: "'q \<Rightarrow> nat"
    and items :: "'q \<Rightarrow> 'a list"
    and cap :: nat
  assumes add_items: "add x q = Some q' \<Longrightarrow> items q' = items q @ [x]"
    and add_defined: "add x q \<noteq> None \<longleftrightarrow> length (items q) < cap"
    and poll_items: "poll q = (Ready x, q') \<Longrightarrow> items q = x # items q'"
    and poll_pending: "poll q = (Pending, q') \<Longrightarrow> items q = [] \<and> items q' = []"
    and clear_items: "items (clear q) = []"
    and len_items: "len q = length (items q)"
begin

text \<open>A queue that was found empty takes an item, and gives exactly that item back.\<close>

lemma add_poll:
  assumes "len q = 0" and "0 < cap"
  shows "\<exists>q' q''. add x q = Some q' \<and> poll q' = (Ready x, q'') \<and> items q'' = []"
proof -
  from assms obtain q' where a: "add x q = Some q'" using add_defined [of x q] len_items by force
  then have i: "items q' = [x]" using add_items assms(1) len_items by force
  obtain r q'' where p: "poll q' = (r, q'')" by fastforce
  show ?thesis
  proof (cases r)
    case (Ready y)
    with p i have "y = x" "items q'' = []" using poll_items by auto
    with a p Ready show ?thesis by blast
  next
    case Pending
    with p i show ?thesis using poll_pending by force
  qed
qed

text \<open>A cleared queue always takes an item.\<close>

lemma clear_add: "0 < cap \<Longrightarrow> \<exists>q'. add x (clear q) = Some q' \<and> items q' = [x]"
proof -
  assume "0 < cap"
  then obtain q' where "add x (clear q) = Some q'" using add_defined [of x "clear q"] clear_items by force
  with add_items [OF this] show ?thesis by (simp add: clear_items)
qed

end

interpretation xstream: bounded_fifo "xs_add N" xs_poll_next xs_empty xs_len "\<lambda>q. q" "N - 1" for N
  by unfold_locales
     (auto simp: xs_add_def xs_poll_next_def xs_empty_def xs_len_def split: if_splits list.splits)

section \<open>Producer and consumer\<close>

text \<open>
  \<^verbatim>\<open>add\<close> is an enqueue followed by \<^verbatim>\<open>waker.wake()\<close>. \<^verbatim>\<open>poll_next\<close> is a dequeue, and if there
  was nothing, \<^verbatim>\<open>waker.register\<close>, a second dequeue, and \<^verbatim>\<open>waker.take()\<close> or \<^verbatim>\<open>Pending\<close>. A task
  whose poll was pending is polled again once it has been woken.
\<close>

datatype producer = PIdle | PWake
datatype consumer = CPoll | CRegister | CRecheck | CParked

record 'a xsys =
  queue :: "'a list"
  waker :: bool
  woken :: bool
  prod_pc :: producer
  cons_pc :: consumer
  sent :: "'a list"
  received :: "'a list"

definition xsys_init :: "'a xsys" where
  "xsys_init = \<lparr>queue = [], waker = False, woken = False, prod_pc = PIdle, cons_pc = CPoll, sent = [], received = []\<rparr>"

inductive xstep :: "nat \<Rightarrow> 'a xsys \<Rightarrow> 'a xsys \<Rightarrow> bool" for N where
  enqueue: "prod_pc s = PIdle \<Longrightarrow> xs_add N x (queue s) = Some q \<Longrightarrow>
     xstep N s (s\<lparr>queue := q, prod_pc := PWake, sent := sent s @ [x]\<rparr>)"
| wake: "prod_pc s = PWake \<Longrightarrow>
     xstep N s (s\<lparr>woken := woken s \<or> waker s, waker := False, prod_pc := PIdle\<rparr>)"
| poll_ready: "cons_pc s = CPoll \<Longrightarrow> queue s = x # q \<Longrightarrow>
     xstep N s (s\<lparr>queue := q, received := received s @ [x]\<rparr>)"
| poll_empty: "cons_pc s = CPoll \<Longrightarrow> queue s = [] \<Longrightarrow> xstep N s (s\<lparr>cons_pc := CRegister\<rparr>)"
| register: "cons_pc s = CRegister \<Longrightarrow> xstep N s (s\<lparr>waker := True, cons_pc := CRecheck\<rparr>)"
| recheck_ready: "cons_pc s = CRecheck \<Longrightarrow> queue s = x # q \<Longrightarrow>
     xstep N s (s\<lparr>queue := q, waker := False, cons_pc := CPoll, received := received s @ [x]\<rparr>)"
| recheck_pending: "cons_pc s = CRecheck \<Longrightarrow> queue s = [] \<Longrightarrow> xstep N s (s\<lparr>cons_pc := CParked\<rparr>)"
| repoll: "cons_pc s = CParked \<Longrightarrow> woken s \<Longrightarrow> xstep N s (s\<lparr>woken := False, cons_pc := CPoll\<rparr>)"

inductive xreach :: "nat \<Rightarrow> 'a xsys \<Rightarrow> bool" for N where
  start: "xreach N xsys_init"
| step: "xreach N s \<Longrightarrow> xstep N s t \<Longrightarrow> xreach N t"

inductive_cases xstepE: "xstep N s t"

definition xsys_ok :: "nat \<Rightarrow> 'a xsys \<Rightarrow> bool" where
  "xsys_ok N s \<longleftrightarrow> received s @ queue s = sent s \<and> length (queue s) \<le> N - 1 \<and>
     (cons_pc s \<in> {CRecheck, CParked} \<longrightarrow> waker s \<or> woken s) \<and>
     (cons_pc s = CParked \<and> queue s \<noteq> [] \<longrightarrow> woken s \<or> prod_pc s = PWake)"

lemma xsys_ok_init: "xsys_ok N xsys_init"
  by (simp add: xsys_ok_def xsys_init_def)

lemma xsys_ok_step: "xstep N s t \<Longrightarrow> xsys_ok N s \<Longrightarrow> xsys_ok N t"
  by (erule xstepE) (auto simp: xsys_ok_def xs_add_def split: if_splits)

lemma xsys_ok_reach: "xreach N s \<Longrightarrow> xsys_ok N s"
  by (induction rule: xreach.induct) (auto intro: xsys_ok_init xsys_ok_step)

section \<open>Properties\<close>

text \<open>
  C10: No wake-up of a stream is lost. However the steps of \<^verbatim>\<open>add\<close> in a callback and of
  \<^verbatim>\<open>poll_next\<close> in the executor interleave, a task that is parked on a stream with an item in it
  has been woken, or the callback is just about to wake it; and the items arrive in the order
  they were sent, none lost and none twice.
\<close>

theorem xstream_no_lost_wakeup:
  assumes "xreach N s"
  shows "(cons_pc s = CParked \<and> queue s \<noteq> [] \<longrightarrow> woken s \<or> (prod_pc s = PWake \<and> waker s)) \<and>
     received s @ queue s = sent s"
  using xsys_ok_reach [OF assms] by (auto simp: xsys_ok_def)

text \<open>A run in which the item is added between the first look at the queue and the registration.\<close>

lemma xreach_race: "\<exists>s. xreach 2 s \<and> received s = [7 :: nat] \<and> queue s = [] \<and> cons_pc s = CPoll"
proof -
  let ?s1 = "xsys_init\<lparr>cons_pc := CRegister\<rparr> :: nat xsys"
  let ?s2 = "?s1\<lparr>queue := [7], prod_pc := PWake, sent := [7]\<rparr>"
  let ?s3 = "?s2\<lparr>waker := True, cons_pc := CRecheck\<rparr>"
  have "xreach 2 ?s1" by (rule xreach.step [OF xreach.start]) (rule poll_empty, simp_all add: xsys_init_def)
  moreover have "xstep 2 ?s1 (?s1\<lparr>queue := [7], prod_pc := PWake, sent := sent ?s1 @ [7]\<rparr>)"
    by (rule enqueue) (simp_all add: xsys_init_def xs_add_def)
  ultimately have "xreach 2 ?s2" by (auto intro: xreach.step simp: xsys_init_def)
  moreover have "xstep 2 ?s2 ?s3" by (rule register) simp
  ultimately have "xreach 2 ?s3" by (rule xreach.step)
  moreover have "xstep 2 ?s3 (?s3\<lparr>queue := [], waker := False, cons_pc := CPoll, received := received ?s3 @ [7]\<rparr>)"
    by (rule recheck_ready) simp_all
  ultimately have "xreach 2 (?s3\<lparr>queue := [], waker := False, cons_pc := CPoll, received := received ?s3 @ [7]\<rparr>)"
    by (rule xreach.step)
  then show ?thesis by (intro exI conjI) (assumption, simp_all add: xsys_init_def)
qed

theorem xstream_no_lost_wakeup_witness:
  "\<exists>s. xreach 2 s \<and> received s = [7 :: nat] \<and> received s @ queue s = sent s"
proof -
  from xreach_race obtain s :: "nat xsys" where s: "xreach 2 s" "received s = [7]" by blast
  with xstream_no_lost_wakeup [OF s(1)] show ?thesis by blast
qed

section \<open>Refinement\<close>

text \<open>
  The abstract stream: one atomic bounded queue, with no waker and no program counters. A state is
  the items sent, the items in the queue and the items received.
\<close>

type_synonym 'a fifo = "'a list \<times> 'a list \<times> 'a list"

inductive fifo_step :: "nat \<Rightarrow> 'a fifo \<Rightarrow> 'a fifo \<Rightarrow> bool" for N where
  put: "length q < N - 1 \<Longrightarrow> fifo_step N (snt, q, rcv) (snt @ [x], q @ [x], rcv)"
| get: "fifo_step N (snt, x # q, rcv) (snt, q, rcv @ [x])"

definition fifo_abs :: "'a xsys \<Rightarrow> 'a fifo" where
  "fifo_abs s = (sent s, queue s, received s)"

lemma xstep_simulates:
  assumes "xstep N s t"
  shows "fifo_abs s = fifo_abs t \<or> fifo_step N (fifo_abs s) (fifo_abs t)"
  using assms
proof cases
  case (enqueue x q)
  then show ?thesis by (auto simp: fifo_abs_def xs_add_def intro: put split: if_splits)
qed (auto simp: fifo_abs_def intro: get)

interpretation fifo: simulation "xstep N" "fifo_step N" fifo_abs for N
  by unfold_locales (rule xstep_simulates)

lemma fifo_abs_init [simp]: "fifo_abs xsys_init = ([], [], [])"
  by (simp add: fifo_abs_def xsys_init_def)

lemma xreach_steps: "xreach N s \<Longrightarrow> (xstep N)\<^sup>*\<^sup>* xsys_init s"
  by (induction rule: xreach.induct) (auto intro: rtranclp.rtrancl_into_rtrancl)

text \<open>
  C11: The stream refines an atomic queue. Every state that the interleaved steps of \<^verbatim>\<open>add\<close> and
  \<^verbatim>\<open>poll_next\<close> reach is, with the waker and the program counters forgotten, reached by atomic puts
  and gets on a queue of capacity \<^verbatim>\<open>N - 1\<close>; and a parked consumer of a stream with an item in it
  can always go on: the pending wake-up and the next poll are enabled.
\<close>

theorem xstream_refines_fifo:
  assumes "xreach N s"
  shows "(fifo_step N)\<^sup>*\<^sup>* ([], [], []) (fifo_abs s) \<and>
     (cons_pc s = CParked \<and> queue s \<noteq> [] \<longrightarrow>
       (\<exists>t. (xstep N)\<^sup>*\<^sup>* s t \<and> received t = received s @ [hd (queue s)]))"
proof
  from fifo.run_simulates [OF xreach_steps [OF assms]] show "(fifo_step N)\<^sup>*\<^sup>* ([], [], []) (fifo_abs s)" by simp
  have go: "\<exists>t. (xstep N)\<^sup>*\<^sup>* u t \<and> received t = received u @ [hd (queue u)]"
    if "cons_pc u = CParked" "queue u \<noteq> []" "woken u" for u
  proof -
    from that obtain x q where q: "queue u = x # q" by (cases "queue u") auto
    let ?v = "u\<lparr>woken := False, cons_pc := CPoll\<rparr>"
    have "xstep N u ?v" using that by (intro repoll)
    moreover have "xstep N ?v (?v\<lparr>queue := q, received := received ?v @ [x]\<rparr>)" using q by (intro poll_ready) simp_all
    ultimately have "(xstep N)\<^sup>*\<^sup>* u (?v\<lparr>queue := q, received := received ?v @ [x]\<rparr>)" by auto
    with q show ?thesis by (intro exI conjI) auto
  qed
  show "cons_pc s = CParked \<and> queue s \<noteq> [] \<longrightarrow>
       (\<exists>t. (xstep N)\<^sup>*\<^sup>* s t \<and> received t = received s @ [hd (queue s)])"
  proof
    assume p: "cons_pc s = CParked \<and> queue s \<noteq> []"
    show "\<exists>t. (xstep N)\<^sup>*\<^sup>* s t \<and> received t = received s @ [hd (queue s)]"
    proof (cases "woken s")
      case True
      with p go show ?thesis by blast
    next
      case False
      with p xsys_ok_reach [OF assms] have w: "prod_pc s = PWake" "waker s" by (auto simp: xsys_ok_def)
      let ?u = "s\<lparr>woken := woken s \<or> waker s, waker := False, prod_pc := PIdle\<rparr>"
      have "xstep N s ?u" using w by (intro wake)
      moreover from go [of ?u] p w obtain t where "(xstep N)\<^sup>*\<^sup>* ?u t" "received t = received s @ [hd (queue s)]"
        by auto
      ultimately show ?thesis by (meson converse_rtranclp_into_rtranclp)
    qed
  qed
qed

theorem xstream_refines_fifo_witness:
  "\<exists>s. xreach 2 s \<and> received s = [7 :: nat] \<and> (fifo_step 2)\<^sup>*\<^sup>* ([], [], []) (fifo_abs s)"
proof -
  from xreach_race obtain s :: "nat xsys" where s: "xreach 2 s" "received s = [7]" by blast
  with xstream_refines_fifo [OF s(1)] show ?thesis by blast
qed

end
