(* ===== verification/Async_Shell.thy ===== *)
theory Async_Shell
  imports Xstream
begin

text \<open>
  The asynchronous shell of \<^verbatim>\<open>examples/xbd-net\<close>: the signal handler that reads the terminal
  (\<^verbatim>\<open>modules/minerva_xbd/shell.c\<close>), the line buffer, the stream of lines and the task that expands
  aliases and runs the lines (\<^verbatim>\<open>src/xbd/shell.rs\<close>), and the command table of
  \<^verbatim>\<open>modules/minerva_xbd/xbd.c\<close>. The string of the \<^verbatim>\<open>heapless\<close> crate is a parameter.
\<close>

section \<open>Strings\<close>

text \<open>
  The code points of the strings at hand are below 256, since every character comes from
  \<^verbatim>\<open>ch as char\<close> for a byte \<^verbatim>\<open>ch\<close>; a string is the list of its code points. \<^verbatim>\<open>heapless::String\<close>
  counts the bytes of the UTF-8 encoding, and \<^verbatim>\<open>as_ptr\<close> gives these bytes to C.
\<close>

definition utf8 :: "char \<Rightarrow> string" where
  "utf8 c = (let n = (of_char c :: nat) in
     if n < 128 then [c] else [char_of (192 + n div 64), char_of (128 + n mod 64)])"

definition encode_utf8 :: "string \<Rightarrow> string" where
  "encode_utf8 s = concat (map utf8 s)"

abbreviation utf8_len :: "string \<Rightarrow> nat" where
  "utf8_len s \<equiv> length (encode_utf8 s)"

text \<open>White space of \<^verbatim>\<open>str::trim\<close> among these code points.\<close>

definition is_whitespace :: "char \<Rightarrow> bool" where
  "is_whitespace c \<longleftrightarrow> (of_char c :: nat) \<in> {9, 10, 11, 12, 13, 32, 133, 160}"

definition rust_trim :: "string \<Rightarrow> string" where
  "rust_trim s = rev (dropWhile is_whitespace (rev (dropWhile is_whitespace s)))"

text \<open>\<^verbatim>\<open>str::parse::<usize>\<close>: an optional plus sign and at least one digit, and no overflow.\<close>

definition parse_usize :: "string \<Rightarrow> nat option" where
  "parse_usize s = (let d = (case s of c # cs \<Rightarrow> if c = CHR ''+'' then cs else s | [] \<Rightarrow> s) in
     if d \<noteq> [] \<and> list_all is_digit d \<and> read_digits 0 d < 2 ^ 32 then Some (read_digits 0 d) else None)"

section \<open>State\<close>

definition SHELL_BUFSIZE :: nat where "SHELL_BUFSIZE = 128"
definition SHELL_STREAM_SIZE :: nat where "SHELL_STREAM_SIZE = 2"

text \<open>
  \<open>hs_push s t\<close> is \<^verbatim>\<open>push\<close> (one character) or \<^verbatim>\<open>push_str\<close> on a \<^verbatim>\<open>heapless::String<SHELL_BUFSIZE>\<close>;
  \<^const>\<open>None\<close> is its \<^verbatim>\<open>Err\<close>. \<open>shell_default_bufsize\<close> is RIOT's \<^verbatim>\<open>SHELL_DEFAULT_BUFSIZE\<close>.
\<close>

record shell_env =
  hs_push :: "string \<Rightarrow> string \<Rightarrow> string option"
  shell_default_bufsize :: nat
  board_native :: bool

definition push_law :: "shell_env \<Rightarrow> bool" where
  "push_law env \<longleftrightarrow> (\<forall>s t. hs_push env s t =
     (if utf8_len s + utf8_len t \<le> SHELL_BUFSIZE then Some (s @ t) else None))"

datatype alias_fn = Test_heapless_req | Test_blockwise_all | Hello_world | Test_async_sleep
  | Test_async_blockwise | Test_blockwise | Undefined_alias string

datatype shell_act =
    Async_read_setup
  | Async_read_add_handler
  | Async_read_continue
  | Too_long
  | Print_aliases
  | Run_function alias_fn
  | Handle_line string
  | Shell_print string

record shell_st =
  shell_buf :: string
  shell_sd :: "string list"
  init_async_shell_done :: bool
  shell_log :: "shell_act list"

definition shell_init :: shell_st where
  "shell_init = \<lparr>shell_buf = [], shell_sd = [], init_async_shell_done = False, shell_log = []\<rparr>"

definition slog :: "shell_act list \<Rightarrow> shell_st \<Rightarrow> shell_st" where
  "slog as st = st\<lparr>shell_log := shell_log st @ as\<rparr>"

section \<open>Input\<close>

definition prompt_is_ready :: "shell_st \<Rightarrow> bool" where
  "prompt_is_ready st \<longleftrightarrow> xs_len (shell_sd st) = 0"

definition end_of_input :: "shell_env \<Rightarrow> shell_st \<Rightarrow> shell_st option" where
  "end_of_input env st =
     (case hs_push env (shell_buf st) [NUL] of
        Some line \<Rightarrow>
          do { q \<leftarrow> xs_add SHELL_STREAM_SIZE line (shell_sd st);
               Some (st\<lparr>shell_buf := [], shell_sd := q\<rparr>) }
      | None \<Rightarrow>
          do { line \<leftarrow> hs_push env [] [NUL];
               q \<leftarrow> xs_add SHELL_STREAM_SIZE line (shell_sd st);
               Some (slog [Too_long] (st\<lparr>shell_buf := line, shell_sd := q\<rparr>)) })"

definition xbd_async_shell_on_char :: "shell_env \<Rightarrow> char \<Rightarrow> shell_st \<Rightarrow> shell_st option" where
  "xbd_async_shell_on_char env ch st =
     (if prompt_is_ready st then
        (if ch = NUL then end_of_input env st
         else if ch = CHR 0x0D \<or> ch = CHR 0x0A then Some st
         else (case hs_push env (shell_buf st) [ch] of
                 Some b \<Rightarrow> Some (st\<lparr>shell_buf := b\<rparr>)
               | None \<Rightarrow> Some st))
      else Some st)"

text \<open>
  The reads of one signal: \<open>rd n\<close> is the status and the character of the \<open>n\<close>-th \<^verbatim>\<open>real_read\<close>.
  The loop ends at the first status that is not one.
\<close>

partial_function (option) io_read_loop ::
  "shell_env \<Rightarrow> (nat \<Rightarrow> int \<times> char) \<Rightarrow> nat \<Rightarrow> shell_st \<Rightarrow> shell_st option" where
  "io_read_loop env rd n st =
     (if fst (rd n) = 1
      then Option.bind (xbd_async_shell_on_char env (snd (rd n)) st) (io_read_loop env rd (Suc n))
      else xbd_async_shell_on_char env NUL st)"

declare io_read_loop.simps [code]

definition io_signal_handler :: "shell_env \<Rightarrow> (nat \<Rightarrow> int \<times> char) \<Rightarrow> shell_st \<Rightarrow> shell_st option" where
  "io_signal_handler env rd st = map_option (slog [Async_read_continue]) (io_read_loop env rd 0 st)"

definition xbd_async_shell_init :: "shell_env \<Rightarrow> shell_st \<Rightarrow> int \<times> shell_st" where
  "xbd_async_shell_init env st =
     (if board_native env then
        (if init_async_shell_done st then (1, st)
         else (0, slog [Async_read_setup, Async_read_add_handler] (st\<lparr>init_async_shell_done := True\<rparr>)))
      else (2, slog [Shell_print (''@@ xbd_async_shell_init(): TODO - support non-native board'' @ nl)] st))"

definition xbd_async_shell_bufsize :: "shell_env \<Rightarrow> nat" where
  "xbd_async_shell_bufsize env = shell_default_bufsize env"

definition xbd_async_shell_prompt :: "string option \<Rightarrow> bool \<Rightarrow> string" where
  "xbd_async_shell_prompt tag highlight =
     (let tg = (case tag of None \<Rightarrow> [] | Some t \<Rightarrow> t) in
      if highlight then CHR 0x1B # ''[01;31m'' @ tg @ ''>'' @ CHR 0x1B # ''[00m '' else tg @ ''> '')"

section \<open>The shell task\<close>

definition shell_prompt :: "shell_st \<Rightarrow> shell_st" where
  "shell_prompt = slog [Shell_print (xbd_async_shell_prompt (Some ''(v0.0.1)'') True)]"

definition ARRAY_ALIAS_NAMED :: "(string \<times> string) list" where
  "ARRAY_ALIAS_NAMED = [(''a'', ''alias''), (''h'', ''help'')]"

definition ARRAY_ALIAS_ENUMERATED :: "string list" where
  "ARRAY_ALIAS_ENUMERATED = [''version'', ''ifconfig'', ''gcoap get [::1] /.well-known/core'',
     ''gcoap get [::1] /riot/board'', ''gcoap get [::1] /const/song.txt'']"

definition ARRAY_ALIAS_FUNCTION :: "string list" where
  "ARRAY_ALIAS_FUNCTION = [''f'', ''b'', ''f0'', ''f1'', ''f2'', ''f3'']"

definition run_function_alias :: "string \<Rightarrow> alias_fn" where
  "run_function_alias name =
     (if name = ''f'' then Test_heapless_req
      else if name = ''b'' then Test_blockwise_all
      else if name = ''f0'' then Hello_world
      else if name = ''f1'' then Test_async_sleep
      else if name = ''f2'' then Test_async_blockwise
      else if name = ''f3'' then Test_blockwise
      else Undefined_alias name)"

text \<open>\<^verbatim>\<open>expand\<close>, which panics when the alias does not fit.\<close>

definition expand_alias :: "shell_env \<Rightarrow> string \<Rightarrow> string option" where
  "expand_alias env alias = do { l \<leftarrow> hs_push env [] alias; hs_push env l [NUL] }"

text \<open>
  The result of \<^verbatim>\<open>match_alias\<close> is what it does on the way and the line afterwards, which is the
  old one where it returns \<^verbatim>\<open>false\<close>. The slice \<^verbatim>\<open>line[..line.len() - 1]\<close> is \<open>butlast\<close>, the last
  character being the terminator.
\<close>

definition match_alias :: "shell_env \<Rightarrow> string \<Rightarrow> (shell_act list \<times> bool \<times> string) option" where
  "match_alias env line =
     (if line = [] \<or> last line \<noteq> NUL then None
      else let ln = butlast line in
        if ln = ''alias'' \<or> ln = ''a'' then
          map_option (\<lambda>l. ([Print_aliases], True, l)) (expand_alias env '''')
        else (case find (\<lambda>item. fst item = ln) ARRAY_ALIAS_NAMED of
          Some item \<Rightarrow> map_option (\<lambda>l. ([], True, l)) (expand_alias env (snd item))
        | None \<Rightarrow>
            (case find (\<lambda>item. item = ln) ARRAY_ALIAS_FUNCTION of
               Some item \<Rightarrow> map_option (\<lambda>l. ([Run_function (run_function_alias item)], True, l)) (expand_alias env '''')
             | None \<Rightarrow>
                 (case parse_usize ln of
                    Some x \<Rightarrow>
                      (if x < length ARRAY_ALIAS_ENUMERATED
                       then map_option (\<lambda>l. ([], True, l)) (expand_alias env (ARRAY_ALIAS_ENUMERATED ! x))
                       else Some ([], False, line))
                  | None \<Rightarrow> Some ([], False, line)))))"

text \<open>One turn of the loop: a line, if there is one, is expanded, run, and followed by a prompt.\<close>

definition run_line :: "shell_env \<Rightarrow> string \<Rightarrow> shell_st \<Rightarrow> shell_st option" where
  "run_line env line st =
     (if line = [] \<or> last line \<noteq> NUL then None
      else if rust_trim line \<noteq> [NUL] then
        do { (acts, updated, l) \<leftarrow> match_alias env line;
             if updated \<and> (l = [] \<or> last l \<noteq> NUL) then None
             else Some (shell_prompt (slog (acts @ [Handle_line (cstr (encode_utf8 l))]) st)) }
      else Some (shell_prompt st))"

definition shell_round :: "shell_env \<Rightarrow> shell_st \<Rightarrow> shell_st option" where
  "shell_round env st =
     (case xs_poll_next (shell_sd st) of
        (Ready line, q) \<Rightarrow> run_line env line (st\<lparr>shell_sd := q\<rparr>)
      | (Pending, q) \<Rightarrow> Some (st\<lparr>shell_sd := q\<rparr>))"

text \<open>\<^verbatim>\<open>process_shell_stream\<close> up to its loop: \<^const>\<open>None\<close> is a failed assertion, \<open>Some True\<close> enters the loop.\<close>

definition process_shell_start :: "shell_env \<Rightarrow> shell_st \<Rightarrow> ((int + bool) \<times> shell_st) option" where
  "process_shell_start env st =
     (if xbd_async_shell_bufsize env \<noteq> SHELL_BUFSIZE then None
      else let (ret, st1) = xbd_async_shell_init env st in
        if ret = 0 then Some (Inr True, shell_prompt (slog [Print_aliases] st1))
        else if ret = 2 then Some (Inr False, slog [Shell_print (''@@ process_shell_stream(): TODO - support non-native board'' @ nl)] st1)
        else Some (Inl ret, st1))"

text \<open>What happens to the shell: a signal with the given characters to read, or a turn of its task.\<close>

datatype shell_ev = Input string | Poll

definition reads_of :: "string \<Rightarrow> nat \<Rightarrow> int \<times> char" where
  "reads_of cs n = (if n < length cs then (1, cs ! n) else (- 1, NUL))"

fun shell_step :: "shell_env \<Rightarrow> shell_ev \<Rightarrow> shell_st \<Rightarrow> shell_st option" where
  "shell_step env (Input cs) st = io_signal_handler env (reads_of cs) st"
| "shell_step env Poll st = shell_round env st"

section \<open>Commands\<close>

text \<open>The command table of \<^verbatim>\<open>xbd.c\<close>.\<close>

datatype xbd_handler = Gcoap_cli_cmd | Libcoap_cli_cmd

definition xbd_shell_commands :: "(string \<times> string \<times> xbd_handler) list" where
  "xbd_shell_commands =
     [(''gcoap'', ''@@ CoAP example'', Gcoap_cli_cmd),
      (''libcoap'', ''@@ Start a libcoap client'', Libcoap_cli_cmd)]"

definition xbd_shell_get_commands :: "(string \<times> string \<times> xbd_handler) list" where
  "xbd_shell_get_commands = xbd_shell_commands"

section \<open>Lemmas\<close>

lemma encode_utf8_simps [simp]:
  "encode_utf8 [] = []" "encode_utf8 (s @ t) = encode_utf8 s @ encode_utf8 t"
  "encode_utf8 (c # s) = utf8 c @ encode_utf8 s"
  by (simp_all add: encode_utf8_def)

lemma utf8_ascii: "(of_char c :: nat) < 128 \<Longrightarrow> utf8 c = [c]"
  by (simp add: utf8_def)

lemma utf8_NUL [simp]: "utf8 NUL = [NUL]"
  by (simp add: utf8_ascii)

lemma encode_ascii: "\<forall>c \<in> set s. (of_char c :: nat) < 128 \<Longrightarrow> encode_utf8 s = s"
  by (induction s) (simp_all add: utf8_ascii)

lemma push_lawD:
  "push_law env \<Longrightarrow> hs_push env s t = (if utf8_len s + utf8_len t \<le> SHELL_BUFSIZE then Some (s @ t) else None)"
  by (simp add: push_law_def)

lemma trim_NUL_last: "rust_trim (s @ [NUL]) = dropWhile is_whitespace s @ [NUL]"
proof -
  have "\<not> is_whitespace NUL" by (simp add: is_whitespace_def)
  then have "dropWhile is_whitespace (s @ [NUL]) = dropWhile is_whitespace s @ [NUL]"
    by (induction s) auto
  with \<open>\<not> is_whitespace NUL\<close> show ?thesis by (simp add: rust_trim_def)
qed

text \<open>The reads of a signal are the characters one after the other, and then the end of input.\<close>

lemma io_read_loop_reads:
  "n \<le> length cs \<Longrightarrow>
   io_read_loop env (reads_of cs) n st = run_steps (xbd_async_shell_on_char env) (drop n cs @ [NUL]) st"
proof (induction "length cs - n" arbitrary: n st)
  case 0
  then show ?case by (simp add: io_read_loop.simps [of _ _ n] reads_of_def split: option.split)
next
  case (Suc m)
  then have n: "n < length cs" by simp
  have "io_read_loop env (reads_of cs) (Suc n) t = run_steps (xbd_async_shell_on_char env) (drop (Suc n) cs @ [NUL]) t" for t
    using Suc by simp
  with n show ?case
    by (simp add: io_read_loop.simps [of _ _ n] reads_of_def Cons_nth_drop_Suc [symmetric] split: option.split
        bind_split)
qed

lemma io_signal_handler_reads:
  "io_signal_handler env (reads_of cs) st =
     map_option (slog [Async_read_continue]) (run_steps (xbd_async_shell_on_char env) (cs @ [NUL]) st)"
  by (simp add: io_signal_handler_def io_read_loop_reads)

text \<open>The characters of an input that are kept.\<close>

definition visible :: "string \<Rightarrow> string" where
  "visible cs = filter (\<lambda>c. c \<noteq> CHR 0x0D \<and> c \<noteq> CHR 0x0A) cs"

lemma visible_simps [simp]:
  "visible [] = []"
  "visible (c # cs) = (if c = CHR 0x0D \<or> c = CHR 0x0A then visible cs else c # visible cs)"
  by (simp_all add: visible_def)

lemma visible_prefix:
  "n \<le> length (visible cs) \<Longrightarrow> \<exists>us vs. cs = us @ vs \<and> length (visible us) = n"
proof (induction cs arbitrary: n)
  case Nil
  then show ?case by simp
next
  case (Cons c cs)
  show ?case
  proof (cases n)
    case 0
    then have "c # cs = [] @ (c # cs) \<and> length (visible []) = n" by simp
    then show ?thesis by blast
  next
    case (Suc m)
    let ?k = "if c = CHR 0x0D \<or> c = CHR 0x0A then n else m"
    have "?k \<le> length (visible cs)" using Cons.prems Suc by auto
    then obtain us vs where "cs = us @ vs" "length (visible us) = ?k" using Cons.IH by blast
    then have "c # cs = (c # us) @ vs \<and> length (visible (c # us)) = n" using Suc by auto
    then show ?thesis by blast
  qed
qed

lemma feed_fits:
  assumes "push_law env" and "NUL \<notin> set cs" and "shell_sd st = []"
    and "utf8_len (shell_buf st) + utf8_len (visible cs) \<le> SHELL_BUFSIZE"
  shows "run_steps (xbd_async_shell_on_char env) cs st = Some (st\<lparr>shell_buf := shell_buf st @ visible cs\<rparr>)"
  using assms
proof (induction cs arbitrary: st)
  case Nil
  then show ?case by simp
next
  case (Cons c cs)
  show ?case
  proof (cases "c = CHR 0x0D \<or> c = CHR 0x0A")
    case True
    with Cons show ?thesis by (auto simp: xbd_async_shell_on_char_def prompt_is_ready_def xs_len_def)
  next
    case False
    moreover have "c \<noteq> NUL" using Cons.prems by auto
    ultimately have "xbd_async_shell_on_char env c st = Some (st\<lparr>shell_buf := shell_buf st @ [c]\<rparr>)"
      using Cons.prems by (simp add: xbd_async_shell_on_char_def prompt_is_ready_def xs_len_def push_lawD)
    with False Cons.prems Cons.IH [of "st\<lparr>shell_buf := shell_buf st @ [c]\<rparr>"] show ?thesis by simp
  qed
qed

text \<open>Once the buffer is full everything up to the end of input is dropped.\<close>

lemma feed_full:
  assumes "push_law env" and "NUL \<notin> set cs" and "shell_sd st = []"
    and "utf8_len (shell_buf st) = SHELL_BUFSIZE"
  shows "run_steps (xbd_async_shell_on_char env) cs st = Some st"
  using assms
proof (induction cs)
  case Nil
  then show ?case by simp
next
  case (Cons c cs)
  have "utf8 c \<noteq> []" "c \<noteq> NUL" using Cons.prems by (auto simp: utf8_def Let_def)
  with Cons.prems have "xbd_async_shell_on_char env c st = Some st"
    by (simp add: xbd_async_shell_on_char_def prompt_is_ready_def xs_len_def push_lawD)
  with Cons show ?case by simp
qed

lemma end_of_input_fits:
  assumes "push_law env" and "shell_sd st = []" and "utf8_len (shell_buf st) < SHELL_BUFSIZE"
  shows "xbd_async_shell_on_char env NUL st = Some (st\<lparr>shell_buf := [], shell_sd := [shell_buf st @ [NUL]]\<rparr>)"
  using assms
  by (simp add: xbd_async_shell_on_char_def end_of_input_def prompt_is_ready_def xs_len_def push_lawD
      xs_add_def SHELL_STREAM_SIZE_def)

lemma end_of_input_full:
  assumes "push_law env" and "shell_sd st = []" and "utf8_len (shell_buf st) = SHELL_BUFSIZE"
  shows "xbd_async_shell_on_char env NUL st = Some (slog [Too_long] (st\<lparr>shell_buf := [NUL], shell_sd := [[NUL]]\<rparr>))"
  using assms
  by (simp add: xbd_async_shell_on_char_def end_of_input_def prompt_is_ready_def xs_len_def push_lawD
      xs_add_def SHELL_STREAM_SIZE_def SHELL_BUFSIZE_def)

lemma input_fits:
  assumes "push_law env" and "NUL \<notin> set cs" and "shell_sd st = []"
    and "utf8_len (shell_buf st) + utf8_len (visible cs) < SHELL_BUFSIZE"
  shows "shell_step env (Input cs) st =
     Some (slog [Async_read_continue] (st\<lparr>shell_buf := [], shell_sd := [shell_buf st @ visible cs @ [NUL]]\<rparr>))"
  using assms by (simp add: io_signal_handler_reads run_steps_append feed_fits end_of_input_fits)

lemma input_too_long:
  assumes "push_law env" and "NUL \<notin> set cs" and "shell_sd st = []" and "shell_buf st = []"
    and ascii: "\<forall>c \<in> set cs. (of_char c :: nat) < 128" and long: "SHELL_BUFSIZE \<le> length (visible cs)"
  shows "shell_step env (Input cs) st =
     Some (slog [Too_long, Async_read_continue] (st\<lparr>shell_buf := [NUL], shell_sd := [[NUL]]\<rparr>))"
proof -
  obtain us vs where cs: "cs = us @ vs" and us: "length (visible us) = SHELL_BUFSIZE"
    using long visible_prefix by blast
  have "\<forall>c \<in> set (visible us). (of_char c :: nat) < 128" using ascii cs by (auto simp: visible_def)
  then have len: "utf8_len (visible us) = SHELL_BUFSIZE" using us by (simp add: encode_ascii)
  let ?s = "st\<lparr>shell_buf := visible us\<rparr>"
  have "run_steps (xbd_async_shell_on_char env) us st = Some ?s"
    using assms(1-4) cs len by (simp add: feed_fits)
  moreover have "run_steps (xbd_async_shell_on_char env) vs ?s = Some ?s"
    using assms(1-4) cs len by (simp add: feed_full)
  moreover have "xbd_async_shell_on_char env NUL ?s =
      Some (slog [Too_long] (?s\<lparr>shell_buf := [NUL], shell_sd := [[NUL]]\<rparr>))"
    using assms(1-4) len by (subst end_of_input_full) simp_all
  ultimately show ?thesis
    by (simp add: cs io_signal_handler_reads run_steps_append slog_def)
qed

text \<open>What a line stands for: what is done on the way, and the line that is run.\<close>

definition alias_spec :: "string \<Rightarrow> shell_act list \<times> string" where
  "alias_spec s =
     (if s \<in> {''alias'', ''a''} then ([Print_aliases], '''')
      else if s = ''h'' then ([], ''help'')
      else if s \<in> set ARRAY_ALIAS_FUNCTION then ([Run_function (run_function_alias s)], '''')
      else case parse_usize s of
             Some x \<Rightarrow> if x < 5 then ([], ARRAY_ALIAS_ENUMERATED ! x) else ([], s)
           | None \<Rightarrow> ([], s))"

lemma expand_alias_fits: "push_law env \<Longrightarrow> utf8_len a < SHELL_BUFSIZE \<Longrightarrow> expand_alias env a = Some (a @ [NUL])"
  by (simp add: expand_alias_def push_lawD)

lemma enumerated_fits: "x < 5 \<Longrightarrow> utf8_len (ARRAY_ALIAS_ENUMERATED ! x) < SHELL_BUFSIZE"
proof -
  have "\<forall>a \<in> set ARRAY_ALIAS_ENUMERATED. utf8_len a < SHELL_BUFSIZE"
    by (simp add: ARRAY_ALIAS_ENUMERATED_def SHELL_BUFSIZE_def utf8_ascii)
  moreover assume "x < 5"
  then have "ARRAY_ALIAS_ENUMERATED ! x \<in> set ARRAY_ALIAS_ENUMERATED"
    by (intro nth_mem) (simp add: ARRAY_ALIAS_ENUMERATED_def)
  ultimately show ?thesis by blast
qed

lemma find_named:
  "s \<notin> {''alias'', ''a''} \<Longrightarrow>
   find (\<lambda>item. fst item = s) ARRAY_ALIAS_NAMED = (if s = ''h'' then Some (''h'', ''help'') else None)"
  by (auto simp: ARRAY_ALIAS_NAMED_def)

lemma find_member: "find (\<lambda>item. item = s) xs = (if s \<in> set xs then Some s else None)"
  by (induction xs) auto

lemma match_alias_spec:
  assumes "push_law env"
  shows "\<exists>b. match_alias env (s @ [NUL]) = Some (fst (alias_spec s), b, snd (alias_spec s) @ [NUL])"
proof -
  have fits: "expand_alias env [] = Some [NUL]" "expand_alias env ''help'' = Some (''help'' @ [NUL])"
    using assms by (simp_all add: expand_alias_fits SHELL_BUFSIZE_def utf8_ascii)
  have en: "x < 5 \<Longrightarrow> expand_alias env (ARRAY_ALIAS_ENUMERATED ! x) = Some (ARRAY_ALIAS_ENUMERATED ! x @ [NUL])" for x
    using assms by (simp add: expand_alias_fits enumerated_fits)
  have five: "length ARRAY_ALIAS_ENUMERATED = 5" by (simp add: ARRAY_ALIAS_ENUMERATED_def)
  show ?thesis
  proof (cases "s \<in> {''alias'', ''a''}")
    case True
    then show ?thesis by (auto simp: match_alias_def alias_spec_def fits Let_def)
  next
    case False
    then show ?thesis
      by (simp add: match_alias_def alias_spec_def find_named [OF False] find_member five fits en Let_def
          split: option.split) blast
  qed
qed

text \<open>The invariant: nothing is longer than the buffer, and every queued line is terminated.\<close>

definition line_ok :: "string \<Rightarrow> bool" where
  "line_ok l \<longleftrightarrow> l \<noteq> [] \<and> last l = NUL"

definition shell_ok :: "shell_st \<Rightarrow> bool" where
  "shell_ok st \<longleftrightarrow> utf8_len (shell_buf st) \<le> SHELL_BUFSIZE \<and> length (shell_sd st) \<le> 1 \<and>
     (\<forall>l \<in> set (shell_sd st). line_ok l \<and> utf8_len l \<le> SHELL_BUFSIZE)"

lemma run_line_returns:
  assumes "push_law env"
  shows "run_line env (s @ [NUL]) st =
     Some (shell_prompt (if rust_trim (s @ [NUL]) = [NUL] then st
       else slog (fst (alias_spec s) @ [Handle_line (cstr (encode_utf8 (snd (alias_spec s) @ [NUL])))]) st))"
proof -
  from match_alias_spec [OF assms] obtain b where
    "match_alias env (s @ [NUL]) = Some (fst (alias_spec s), b, snd (alias_spec s) @ [NUL])" by blast
  then show ?thesis by (simp add: run_line_def)
qed

lemma slog_sel [simp]:
  "shell_buf (slog as st) = shell_buf st" "shell_sd (slog as st) = shell_sd st"
  "shell_log (slog as st) = shell_log st @ as"
  by (simp_all add: slog_def)

lemma shell_ok_slog [simp]: "shell_ok (slog as st) = shell_ok st"
  by (simp add: shell_ok_def)

lemma shell_ok_prompt [simp]: "shell_ok (shell_prompt st) = shell_ok st"
  by (simp add: shell_prompt_def)

lemma on_char_total:
  assumes law: "push_law env" and ok: "shell_ok st"
  shows "\<exists>st'. xbd_async_shell_on_char env c st = Some st' \<and> shell_ok st'"
proof (cases "shell_sd st = []")
  case False
  then show ?thesis using ok by (simp add: xbd_async_shell_on_char_def prompt_is_ready_def xs_len_def)
next
  case sd: True
  show ?thesis
  proof (cases "c = NUL")
    case nul: True
    show ?thesis
    proof (cases "utf8_len (shell_buf st) < SHELL_BUFSIZE")
      case True
      with end_of_input_fits [OF law sd] nul show ?thesis by (simp add: shell_ok_def line_ok_def)
    next
      case False
      with ok have "utf8_len (shell_buf st) = SHELL_BUFSIZE" by (simp add: shell_ok_def)
      with end_of_input_full [OF law sd] nul show ?thesis
        by (simp add: shell_ok_def line_ok_def SHELL_BUFSIZE_def)
    qed
  next
    case False
    with law ok sd show ?thesis
      by (auto simp: xbd_async_shell_on_char_def prompt_is_ready_def xs_len_def push_lawD shell_ok_def)
  qed
qed

interpretation shell_char: total_steps "xbd_async_shell_on_char env" "\<lambda>st. push_law env \<and> shell_ok st" for env
proof unfold_locales
  fix st st' :: shell_st and c
  assume "push_law env \<and> shell_ok st" and "xbd_async_shell_on_char env c st = Some st'"
  then show "push_law env \<and> shell_ok st'" using on_char_total [of env st c] by auto
next
  fix st :: shell_st and c
  assume "push_law env \<and> shell_ok st"
  then show "\<exists>st'. xbd_async_shell_on_char env c st = Some st'" using on_char_total [of env st c] by blast
qed

lemma shell_step_total:
  assumes law: "push_law env" and ok: "shell_ok st"
  shows "\<exists>st'. shell_step env e st = Some st' \<and> shell_ok st'"
proof (cases e)
  case (Input cs)
  from shell_char.run_returns [of env st "cs @ [NUL]"] law ok obtain st' where
    "run_steps (xbd_async_shell_on_char env) (cs @ [NUL]) st = Some st'" "shell_ok st'" by blast
  with Input show ?thesis by (simp add: io_signal_handler_reads)
next
  case Poll
  show ?thesis
  proof (cases "shell_sd st")
    case Nil
    with Poll ok show ?thesis by (auto simp: shell_round_def xs_poll_next_def shell_ok_def)
  next
    case (Cons l q)
    with ok have "line_ok l" and q: "q = []" by (auto simp: shell_ok_def)
    then obtain s where l: "l = s @ [NUL]" unfolding line_ok_def by (metis append_butlast_last_id)
    have "shell_ok (st\<lparr>shell_sd := []\<rparr>)" using ok by (simp add: shell_ok_def)
    with Poll Cons l q show ?thesis by (simp add: shell_round_def xs_poll_next_def run_line_returns [OF law])
  qed
qed

interpretation shell: total_steps "shell_step env" "\<lambda>st. push_law env \<and> shell_ok st" for env
proof unfold_locales
  fix st st' :: shell_st and e
  assume "push_law env \<and> shell_ok st" and "shell_step env e st = Some st'"
  then show "push_law env \<and> shell_ok st'" using shell_step_total [of env st e] by auto
next
  fix st :: shell_st and e
  assume "push_law env \<and> shell_ok st"
  then show "\<exists>st'. shell_step env e st = Some st'" using shell_step_total [of env st e] by blast
qed

text \<open>The encoding of a line keeps its end.\<close>

lemma NUL_notin_utf8: "c \<noteq> NUL \<Longrightarrow> NUL \<notin> set (utf8 c)"
proof (cases "(of_char c :: nat) < 128")
  case True
  moreover assume "c \<noteq> NUL"
  ultimately show ?thesis by (simp add: utf8_ascii)
next
  case False
  define n where "n = (of_char c :: nat)"
  have "n < 256" by (simp add: n_def)
  then have "n div 64 < 4" by simp
  have "char_of k \<noteq> NUL" if "0 < k" and "k < 256" for k :: nat
  proof
    assume "char_of k = NUL"
    then have "of_char (char_of k :: char) = (of_char NUL :: nat)" by (rule arg_cong)
    with that show False by simp
  qed
  with \<open>n div 64 < 4\<close> have "char_of (192 + n div 64) \<noteq> NUL" "char_of (128 + n mod 64) \<noteq> NUL" by simp_all
  with False show ?thesis by (simp add: utf8_def n_def Let_def)
qed

lemma NUL_notin_encode: "NUL \<notin> set s \<Longrightarrow> NUL \<notin> set (encode_utf8 s)"
  by (induction s) (auto dest!: not_sym [THEN NUL_notin_utf8])

lemma cstr_encode: "NUL \<notin> set s \<Longrightarrow> cstr (encode_utf8 (s @ [NUL])) = encode_utf8 s"
  by (simp add: NUL_notin_encode cstr_append_NUL)

lemma NUL_notin_alias_spec: "NUL \<notin> set s \<Longrightarrow> NUL \<notin> set (snd (alias_spec s))"
proof -
  have "\<forall>a \<in> set ARRAY_ALIAS_ENUMERATED. NUL \<notin> set a" by (simp add: ARRAY_ALIAS_ENUMERATED_def)
  moreover have "ARRAY_ALIAS_ENUMERATED ! x \<in> set ARRAY_ALIAS_ENUMERATED" if "x < 5" for x
    using that by (intro nth_mem) (simp add: ARRAY_ALIAS_ENUMERATED_def)
  ultimately have "x < 5 \<Longrightarrow> NUL \<notin> set (ARRAY_ALIAS_ENUMERATED ! x)" for x by blast
  moreover assume "NUL \<notin> set s"
  ultimately show ?thesis by (auto simp: alias_spec_def split: option.split)
qed

lemma trim_blank: "rust_trim (s @ [NUL]) = [NUL] \<longleftrightarrow> list_all is_whitespace s"
  by (simp add: trim_NUL_last list_all_iff dropWhile_eq_Nil_conv)

lemma visible_NUL: "NUL \<notin> set cs \<Longrightarrow> NUL \<notin> set (visible cs)"
  by (simp add: visible_def)

section \<open>Properties\<close>

text \<open>An instance of the crate's string, for the concrete runs.\<close>

definition demo_shell :: shell_env where
  "demo_shell = \<lparr>hs_push = (\<lambda>s t. if utf8_len s + utf8_len t \<le> 128 then Some (s @ t) else None),
     shell_default_bufsize = 128, board_native = True\<rparr>"

lemma demo_shell_law: "push_law demo_shell"
  by (simp add: push_law_def demo_shell_def SHELL_BUFSIZE_def)

text \<open>A line from its characters to the command interpreter.\<close>

lemma shell_line_runs:
  assumes "push_law env" and "shell_sd st = []" and "shell_buf st = []"
    and "NUL \<notin> set cs" and "utf8_len (visible cs) < SHELL_BUFSIZE"
    and "\<not> list_all is_whitespace (visible cs)"
  shows "run_steps (shell_step env) [Input cs, Poll] st =
     Some (shell_prompt (slog ([Async_read_continue] @ fst (alias_spec (visible cs)) @
       [Handle_line (encode_utf8 (snd (alias_spec (visible cs))))]) st))"
proof -
  let ?s = "visible cs"
  let ?l = "slog [Async_read_continue] (st\<lparr>shell_buf := [], shell_sd := [?s @ [NUL]]\<rparr>)"
  have i: "shell_step env (Input cs) st = Some ?l" using input_fits [of env cs st] assms by simp
  have "cstr (encode_utf8 (snd (alias_spec ?s) @ [NUL])) = encode_utf8 (snd (alias_spec ?s))"
    using assms(4) by (intro cstr_encode NUL_notin_alias_spec visible_NUL)
  moreover have "rust_trim (?s @ [NUL]) \<noteq> [NUL]" using assms(6) by (simp add: trim_blank)
  ultimately have "shell_step env Poll ?l = Some (shell_prompt (slog (fst (alias_spec ?s) @
      [Handle_line (encode_utf8 (snd (alias_spec ?s)))]) (?l\<lparr>shell_sd := []\<rparr>)))"
    by (simp add: shell_round_def xs_poll_next_def run_line_returns [OF assms(1)] del: encode_utf8_simps)
  moreover have "slog as (?l\<lparr>shell_sd := []\<rparr>) = slog ([Async_read_continue] @ as) st" for as
    using assms(2,3) by (simp add: slog_def)
  ultimately show ?thesis using i by (simp del: shell_step.simps encode_utf8_simps)
qed

text \<open>
  C16: The asynchronous shell runs what is typed. If no line is pending and the characters of one
  signal hold no NUL, are not all blank and take at most 127 bytes, then after the next turn of
  the task the terminal is being read again, the aliases are expanded, and the command
  interpreter has been given exactly one line: the bytes of the characters without carriage
  returns and line feeds, or what their alias stands for. The buffer and the stream are empty
  again.
\<close>

theorem shell_runs_line:
  assumes "push_law env" and "shell_sd st = []" and "shell_buf st = []"
    and "NUL \<notin> set cs" and "utf8_len (visible cs) < SHELL_BUFSIZE"
    and "\<not> list_all is_whitespace (visible cs)"
  shows "run_steps (shell_step env) [Input cs, Poll] st =
     Some (shell_prompt (slog ([Async_read_continue] @ fst (alias_spec (visible cs)) @
       [Handle_line (encode_utf8 (snd (alias_spec (visible cs))))]) st))"
  using assms by (rule shell_line_runs)

theorem shell_runs_line_witness:
  "run_steps (shell_step demo_shell) [Input (''3'' @ nl), Poll] shell_init =
     Some (shell_prompt (slog [Async_read_continue, Handle_line ''gcoap get [::1] /riot/board''] shell_init))"
proof -
  have a: "alias_spec ''3'' = ([], ''gcoap get [::1] /riot/board'')"
    by (simp add: alias_spec_def ARRAY_ALIAS_FUNCTION_def ARRAY_ALIAS_ENUMERATED_def parse_usize_def is_digit_def)
  have e: "encode_utf8 ''gcoap get [::1] /riot/board'' = ''gcoap get [::1] /riot/board''"
    by (intro encode_ascii) simp
  have v: "visible (''3'' @ nl) = ''3''" by (simp add: visible_def)
  have p: "shell_sd shell_init = []" "shell_buf shell_init = []" "NUL \<notin> set (''3'' @ nl)"
    "utf8_len (visible (''3'' @ nl)) < SHELL_BUFSIZE" "\<not> list_all is_whitespace (visible (''3'' @ nl))"
    by (simp_all add: shell_init_def SHELL_BUFSIZE_def utf8_ascii is_whitespace_def)
  from shell_runs_line [OF demo_shell_law p, unfolded v a e fst_conv snd_conv] show ?thesis
    by (simp only: append.simps)
qed

text \<open>
  C22: Nothing that is typed stops the asynchronous shell. In every sequence of signals, with any
  characters in any number, and turns of its task, no push is unwrapped on a full string, no line
  is added to a full stream and no assertion on the terminator fails; the buffer and every line
  stay within 128 bytes and at most one line is pending.
\<close>

theorem shell_never_panics:
  assumes "push_law env"
  shows "\<exists>st. run_steps (shell_step env) es shell_init = Some st \<and> shell_ok st"
proof -
  have "shell_ok shell_init" by (simp add: shell_ok_def shell_init_def)
  with assms shell.run_returns [of env shell_init es] show ?thesis by blast
qed

theorem shell_never_panics_witness:
  "\<exists>st. run_steps (shell_step demo_shell) [Input ''help'', Input ''me'', Poll] shell_init = Some st \<and> shell_ok st"
  by (rule shell_never_panics [OF demo_shell_law])

text \<open>
  C39: A line that is too long takes the next one with it. After a line of 128 or more ASCII
  characters the buffer is left with its terminator in front, so that the next line, however
  short, reaches the command interpreter as the empty string.
\<close>

theorem overlong_line_swallows_next:
  assumes "push_law env" and "shell_sd st = []" and "shell_buf st = []"
    and "NUL \<notin> set cs" and "\<forall>c \<in> set cs. (of_char c :: nat) < 128"
    and "SHELL_BUFSIZE \<le> length (visible cs)"
    and "NUL \<notin> set ds" and "utf8_len (visible ds) < SHELL_BUFSIZE - 1"
  shows "\<exists>st'. run_steps (shell_step env) [Input cs, Poll, Input ds, Poll] st = Some st' \<and>
     filter (\<lambda>a. case a of Handle_line _ \<Rightarrow> True | _ \<Rightarrow> False) (shell_log st') =
       filter (\<lambda>a. case a of Handle_line _ \<Rightarrow> True | _ \<Rightarrow> False) (shell_log st) @ [Handle_line []]"
proof -
  let ?d = "NUL # visible ds"
  let ?s1 = "slog [Too_long, Async_read_continue] (st\<lparr>shell_buf := [NUL], shell_sd := [[NUL]]\<rparr>)"
  let ?s2 = "shell_prompt (?s1\<lparr>shell_sd := []\<rparr>)"
  let ?s3 = "slog [Async_read_continue] (?s2\<lparr>shell_buf := [], shell_sd := [?d @ [NUL]]\<rparr>)"
  have 1: "shell_step env (Input cs) st = Some ?s1" using assms by (intro input_too_long) simp_all
  have 2: "shell_step env Poll ?s1 = Some ?s2"
    using run_line_returns [OF assms(1), of "[]" "?s1\<lparr>shell_sd := []\<rparr>"]
    by (simp add: shell_round_def xs_poll_next_def trim_blank [of "[]", simplified])
  have 3: "shell_step env (Input ds) ?s2 = Some ?s3"
    using input_fits [OF assms(1,7), of ?s2] assms(8) by (simp add: shell_prompt_def)
  have "alias_spec ?d = ([], ?d)"
    by (simp add: alias_spec_def ARRAY_ALIAS_FUNCTION_def parse_usize_def is_digit_def)
  moreover have "rust_trim (?d @ [NUL]) \<noteq> [NUL]"
    using trim_blank [of ?d] by (simp add: is_whitespace_def)
  moreover have "cstr (encode_utf8 (?d @ [NUL])) = []" by (simp add: cstr_def)
  ultimately have 4: "shell_step env Poll ?s3 = Some (shell_prompt (slog [Handle_line []] (?s3\<lparr>shell_sd := []\<rparr>)))"
    using run_line_returns [OF assms(1), of ?d "?s3\<lparr>shell_sd := []\<rparr>"]
    by (simp add: shell_round_def xs_poll_next_def)
  show ?thesis
    using 1 2 3 4 by (simp add: shell_prompt_def del: shell_step.simps)
qed

theorem overlong_line_swallows_next_witness:
  "\<exists>st'. run_steps (shell_step demo_shell) [Input (replicate 128 CHR ''x''), Poll, Input ''help'', Poll] shell_init = Some st' \<and>
     filter (\<lambda>a. case a of Handle_line _ \<Rightarrow> True | _ \<Rightarrow> False) (shell_log st') = [Handle_line []]"
proof -
  have v: "visible (replicate 128 CHR ''x'') = replicate 128 CHR ''x''" by (simp add: visible_def)
  have p: "shell_sd shell_init = []" "shell_buf shell_init = []" "NUL \<notin> set (replicate 128 CHR ''x'')"
    "\<forall>c \<in> set (replicate 128 CHR ''x''). (of_char c :: nat) < 128"
    "SHELL_BUFSIZE \<le> length (visible (replicate 128 CHR ''x''))"
    "NUL \<notin> set ''help''" "utf8_len (visible ''help'') < SHELL_BUFSIZE - 1"
    unfolding v by (simp_all add: shell_init_def SHELL_BUFSIZE_def utf8_ascii)
  have l: "shell_log shell_init = []" by (simp add: shell_init_def)
  from overlong_line_swallows_next [OF demo_shell_law p] show ?thesis
    by (simp only: l filter.simps append.simps)
qed

end
