(* ===== verification/Border_Router.thy ===== *)
theory Border_Router
  imports Studio_Prelude
begin

text \<open>
  The network set-up of \<^verbatim>\<open>modules/minerva_gnrc\<close>: the choice of the outer and the inner interface and
  their addresses and routes (\<^verbatim>\<open>border_router.c\<close>), and the Ethernet interface that is created by hand
  (\<^verbatim>\<open>esp_eth_init.c\<close>). An interface is a number; the functions of RIOT's network stack are parameters.
\<close>

section \<open>The network stack\<close>

text \<open>
  \<open>get_mtu\<close>, \<open>get_iid\<close> and \<open>get_addr0\<close> are \<^verbatim>\<open>gnrc_netapi_get\<close> for one option each, \<^const>\<open>None\<close> where it
  fails; \<open>addr_from_str s a\<close> is the address after \<^verbatim>\<open>ipv6_addr_from_str\<close> has parsed \<open>s\<close> into a variable
  that holds \<open>a\<close>. The last fields are the configuration: \<^verbatim>\<open>BR_IPV6_ADDR\<close> with its length,
  \<^verbatim>\<open>BR_IPV6_DEF_RT\<close> and \<^verbatim>\<open>BR_IPV6_PREFIX\<close>.
\<close>

record br_env =
  netifs :: "nat list"
  get_mtu :: "nat \<Rightarrow> u16 option"
  get_iid :: "nat \<Rightarrow> bytes option"
  get_addr0 :: "nat \<Rightarrow> bytes option"
  addr_from_str :: "string \<Rightarrow> bytes \<Rightarrow> bytes"
  set_aiid :: "bytes \<Rightarrow> bytes \<Rightarrow> bytes"
  ipv6_addr_add :: "nat \<Rightarrow> bytes \<Rightarrow> nat \<Rightarrow> int"
  nib_ft_add :: "bytes \<Rightarrow> bytes \<Rightarrow> nat \<Rightarrow> int"
  br_addr :: "(string \<times> nat) option"
  br_def_rt :: "string option"
  br_prefix :: string
  eth_manual :: bool

definition aiid_law :: "br_env \<Rightarrow> bool" where
  "aiid_law env \<longleftrightarrow> (\<forall>p i. length p = 16 \<longrightarrow> length i = 8 \<longrightarrow> set_aiid env p i = take 8 p @ i)"

definition ETHERNET_DATA_LEN :: u16 where "ETHERNET_DATA_LEN = 1500"

section \<open>Interfaces\<close>

datatype br_act =
    Found nat u16
  | Print_ifce "nat option" "bytes option"
  | Addr_add nat bytes nat
  | Ft_add bytes bytes nat
  | Rtr_adv nat bool
  | Netif_create
  | Br_print string

definition print_ifce :: "br_env \<Rightarrow> nat option \<Rightarrow> br_act" where
  "print_ifce env ifce = Print_ifce ifce (case ifce of None \<Rightarrow> None | Some i \<Rightarrow> get_addr0 env i)"

text \<open>The loop, with the variable \<^verbatim>\<open>mtu\<close>, which keeps its value where it cannot be read.\<close>

fun find_loop :: "br_env \<Rightarrow> u16 \<Rightarrow> nat option \<Rightarrow> nat option \<Rightarrow> nat list \<Rightarrow> (nat option \<times> nat option) \<times> br_act list" where
  "find_loop env mtu outer inner [] = ((outer, inner), [])"
| "find_loop env mtu outer inner (ifc # rest) =
     (let mtu' = (case get_mtu env ifc of None \<Rightarrow> mtu | Some m \<Rightarrow> m);
          (outer', inner') =
            (if outer = None \<and> mtu' = ETHERNET_DATA_LEN then (Some ifc, inner)
             else if inner = None \<and> mtu' \<noteq> ETHERNET_DATA_LEN then (outer, Some ifc)
             else (outer, inner)) in
      if outer' \<noteq> None \<and> inner' \<noteq> None then ((outer', inner'), [Found ifc mtu'])
      else let (r, acts) = find_loop env mtu' outer' inner' rest in (r, Found ifc mtu' # acts))"

definition find_ifces :: "br_env \<Rightarrow> u16 \<Rightarrow> (nat option \<times> nat option) \<times> br_act list" where
  "find_ifces env mtu0 =
     (let ((outer, inner), acts) = find_loop env mtu0 None None (netifs env) in
      ((outer, inner), acts @ [print_ifce env outer, print_ifce env inner]))"

section \<open>Addresses\<close>

text \<open>The three steps of \<^verbatim>\<open>set_ips\<close>: the outer address, the default route, the inner address. A step
  gives the address variable, or that the set-up failed.\<close>

definition set_outer :: "br_env \<Rightarrow> nat \<Rightarrow> bytes \<Rightarrow> (bytes option \<times> br_act list)" where
  "set_outer env outer adr =
     (case br_addr env of
        None \<Rightarrow> (Some adr, [])
      | Some (s, len) \<Rightarrow>
          let a = addr_from_str env s adr in
          if ipv6_addr_add env outer a len < 0 then (None, [Addr_add outer a len, Br_print ''Failed setting outer address.''])
          else (Some a, [Addr_add outer a len]))"

definition set_route :: "br_env \<Rightarrow> nat \<Rightarrow> bytes \<Rightarrow> (bytes option \<times> br_act list)" where
  "set_route env outer adr =
     (case br_def_rt env of
        None \<Rightarrow> (Some adr, [])
      | Some s \<Rightarrow>
          let a = addr_from_str env s adr; defroute = replicate 16 0 in
          if nib_ft_add env defroute a outer < 0 then (None, [Ft_add defroute a outer, Br_print ''Failed setting default route.''])
          else (Some a, [Ft_add defroute a outer]))"

definition set_inner :: "br_env \<Rightarrow> nat \<Rightarrow> bytes \<Rightarrow> bool \<times> br_act list" where
  "set_inner env inner junk =
     (let prefix = addr_from_str env (br_prefix env) junk in
      case get_iid env inner of
        None \<Rightarrow> (False, [Br_print ''Failed getting wireless interface iid.''])
      | Some iid \<Rightarrow>
          let a = set_aiid env prefix iid in
          if ipv6_addr_add env inner a 64 < 0 then (False, [Addr_add inner a 64, Br_print ''Failed setting outer address.''])
          else (True, [Addr_add inner a 64]))"

definition set_ips :: "br_env \<Rightarrow> bytes \<Rightarrow> nat option \<Rightarrow> nat option \<Rightarrow> int \<times> br_act list" where
  "set_ips env junk outer inner =
     (case outer of
        None \<Rightarrow> (- 1, [Br_print ''Failed getting outer gnrc interface.''])
      | Some out \<Rightarrow>
         (case set_outer env out junk of
            (None, as) \<Rightarrow> (- 1, as)
          | (Some a, as) \<Rightarrow>
             (case set_route env out a of
                (None, bs) \<Rightarrow> (- 1, as @ bs)
              | (Some _, bs) \<Rightarrow>
                 let cs = as @ bs @ [Rtr_adv out False] in
                 (case inner of
                    None \<Rightarrow> (0, cs)
                  | Some inn \<Rightarrow> let (ok, ds) = set_inner env inn junk in (if ok then 0 else - 1, cs @ ds)))))"

text \<open>\<^verbatim>\<open>minerva_gnrc_esp_eth_init\<close>, which fails an assertion unless it was asked for.\<close>

definition minerva_gnrc_esp_eth_init :: "br_env \<Rightarrow> (int \<times> br_act list) option" where
  "minerva_gnrc_esp_eth_init env =
     (if eth_manual env then Some (0, [Br_print ''minerva_gnrc_esp_eth_init(): ^^'', Netif_create]) else None)"

section \<open>Lemmas\<close>

text \<open>The interface with and without the maximum transmission unit of Ethernet.\<close>

abbreviation is_eth :: "br_env \<Rightarrow> nat \<Rightarrow> bool" where
  "is_eth env i \<equiv> get_mtu env i = Some ETHERNET_DATA_LEN"

definition or_else :: "'a option \<Rightarrow> 'a option \<Rightarrow> 'a option" where
  "or_else a b = (case a of None \<Rightarrow> b | Some _ \<Rightarrow> a)"

lemma or_else_simps [simp]: "or_else None b = b" "or_else (Some x) b = Some x" "or_else a None = a"
  by (simp_all add: or_else_def split: option.split)

lemma find_loop_find:
  assumes "\<forall>i \<in> set is. get_mtu env i \<noteq> None" and "outer = None \<or> inner = None"
  shows "fst (find_loop env mtu outer inner is) =
     (or_else outer (find (is_eth env) is), or_else inner (find (\<lambda>i. \<not> is_eth env i) is))"
  using assms
proof (induction "is" arbitrary: mtu outer inner)
  case Nil
  then show ?case by simp
next
  case (Cons i rest)
  then obtain m where m: "get_mtu env i = Some m" by auto
  show ?case
    using Cons m
    by (cases "m = ETHERNET_DATA_LEN"; cases outer; cases inner) (simp_all add: Let_def case_prod_beta)
qed

section \<open>Properties\<close>

text \<open>
  C28: The scan for interfaces finds the right ones: if the size of every interface can be read, the
  outer interface is the first one with the size of Ethernet, and the inner one the first one with
  another size, in the order of the interfaces, although the loop stops early and whatever was in
  its variables.
\<close>

theorem find_ifces_spec:
  assumes "\<forall>i \<in> set (netifs env). get_mtu env i \<noteq> None"
  shows "fst (find_ifces env mtu0) =
     (find (is_eth env) (netifs env), find (\<lambda>i. \<not> is_eth env i) (netifs env))"
  using find_loop_find [OF assms, of None None mtu0] by (simp add: find_ifces_def case_prod_beta)


text \<open>A failure of the inner interface leaves the outer one configured: nothing is undone.\<close>

lemma set_ips_no_rollback:
  assumes "br_addr env = Some (s, len)" and "br_def_rt env = None"
    and "0 \<le> ipv6_addr_add env out (addr_from_str env s junk) len" and "get_iid env inn = None"
  shows "fst (set_ips env junk (Some out) (Some inn)) = - 1 \<and>
     Addr_add out (addr_from_str env s junk) len \<in> set (snd (set_ips env junk (Some out) (Some inn)))"
  using assms by (simp add: set_ips_def set_outer_def set_route_def set_inner_def Let_def)

section \<open>A concrete set-up\<close>

definition br_demo :: br_env where
  "br_demo = \<lparr>netifs = [4, 5, 6], get_mtu = (\<lambda>i. Some (if i = 5 then 1500 else 249)),
     get_iid = (\<lambda>i. Some (replicate 8 7)), get_addr0 = (\<lambda>i. None),
     addr_from_str = (\<lambda>s a. replicate 15 0 @ [word_of_nat (length s)]), set_aiid = (\<lambda>p i. take 8 p @ i),
     ipv6_addr_add = (\<lambda>i a l. 0), nib_ft_add = (\<lambda>d a i. 0),
     br_addr = Some (''::2'', 64), br_def_rt = Some ''fe80::1'', br_prefix = ''2001:db8::'', eth_manual = True\<rparr>"

theorem find_ifces_spec_witness: "fst (find_ifces br_demo 0) = (Some 5, Some 4)"
  using find_ifces_spec [of br_demo 0] by (simp add: br_demo_def ETHERNET_DATA_LEN_def)


end
