(* ===== verification/Eth_Minimal.thy ===== *)
theory Eth_Minimal
  imports Studio_Prelude
begin

text \<open>
  The minimal Ethernet application of \<^verbatim>\<open>modules/minerva_esp32_minimal\<close>: the registry of devices, the
  events of a device and the receive path (\<^verbatim>\<open>netdev_eth_minimal.c\<close>), and the shell commands
  (\<^verbatim>\<open>shell_commands.c\<close>). A device is a number; its driver, the event queue and the helpers of RIOT
  are parameters.
\<close>

section \<open>Devices\<close>

definition NETDEV_ETH_MINIMAL_NUMOF :: nat where "NETDEV_ETH_MINIMAL_NUMOF = 1"
definition ETHERNET_ADDR_LEN :: nat where "ETHERNET_ADDR_LEN = 6"
definition ETHERNET_HDR_LEN :: nat where "ETHERNET_HDR_LEN = 14"

datatype netdev_event = NETDEV_EVENT_ISR | NETDEV_EVENT_RX_COMPLETE | NETDEV_EVENT_OTHER

text \<open>
  \<open>drv_recv d n\<close> is the result of the driver's \<^verbatim>\<open>recv\<close> into a buffer of \<open>n\<close> bytes, with the bytes it
  writes; \<open>drv_get d\<close> its \<^verbatim>\<open>get\<close> of the hardware address; \<open>drv_isr d\<close> the events its \<^verbatim>\<open>isr\<close> raises;
  \<open>ev_post\<close> is \<^verbatim>\<open>event_post\<close> and \<open>l2_from_str\<close> is \<^verbatim>\<open>l2util_addr_from_str\<close>, the bytes it writes.
\<close>

record eth_env =
  drv_init :: "nat \<Rightarrow> int"
  drv_recv :: "nat \<Rightarrow> nat \<Rightarrow> int \<times> bytes"
  drv_get :: "nat \<Rightarrow> int \<times> bytes"
  drv_isr :: "nat \<Rightarrow> netdev_event list"
  drv_send :: "nat \<Rightarrow> bytes \<Rightarrow> int"
  ev_post :: "nat \<Rightarrow> nat list \<Rightarrow> nat list"
  l2_from_str :: "string \<Rightarrow> bytes"
  ETHERNET_MAX_LEN :: nat
  ETHERTYPE_UNKNOWN :: u16

text \<open>What the code relies on: a queued event is queued, and a driver writes what it says it wrote.\<close>

definition post_law :: "eth_env \<Rightarrow> bool" where
  "post_law env \<longleftrightarrow> (\<forall>e q. set (ev_post env e q) = insert e (set q))"

definition driver_law :: "eth_env \<Rightarrow> bool" where
  "driver_law env \<longleftrightarrow> ETHERNET_HDR_LEN \<le> ETHERNET_MAX_LEN env \<and>
     (\<forall>d n. length (snd (drv_recv env d n)) \<le> n \<and> fst (drv_recv env d n) \<le> int n)"

datatype eth_act =
    Eth_addrs bytes bytes
  | Eth_payload bytes
  | Eth_registered nat
  | Eth_ifconfig nat bytes
  | Eth_frame nat bytes
  | Eth_usage string
  | Eth_print string

text \<open>
  The registry holds the device of each entry; \<open>context\<close> is the entry the device points to; \<open>events\<close>
  is the queue of the event thread, an event being the number of the entry that contains it.
\<close>

record eth_state =
  devices :: "nat option list"
  dev_context :: "nat \<Rightarrow> nat option"
  callback :: "nat \<Rightarrow> bool"
  events :: "nat list"
  eth_buffer :: bytes
  eth_log :: "eth_act list"

definition eth_init :: "eth_env \<Rightarrow> eth_state" where
  "eth_init env = \<lparr>devices = replicate NETDEV_ETH_MINIMAL_NUMOF None, dev_context = (\<lambda>_. None),
     callback = (\<lambda>_. False), events = [], eth_buffer = replicate (ETHERNET_MAX_LEN env) 0, eth_log = []\<rparr>"

definition eth_do :: "eth_act list \<Rightarrow> eth_state \<Rightarrow> eth_state" where
  "eth_do as st = st\<lparr>eth_log := eth_log st @ as\<rparr>"

section \<open>Receiving\<close>

text \<open>
  \<^verbatim>\<open>od_hex_dump(payload, data_len, 0)\<close> reads \<open>data_len\<close> bytes from the fifteenth on, the length being
  the 32-bit number the subtraction leaves; outside of the buffer that is undefined.
\<close>

definition payload_len :: "int \<Rightarrow> nat" where
  "payload_len data_len = unat (word_of_int (data_len - int ETHERNET_HDR_LEN) :: u32)"

definition eth_recv :: "eth_env \<Rightarrow> nat \<Rightarrow> eth_state \<Rightarrow> eth_state option" where
  "eth_recv env dev st =
     (let (data_len, bs) = drv_recv env dev (length (eth_buffer st)) in
      do { buf \<leftarrow> mem_write 0 bs (eth_buffer st);
           let st1 = eth_do [Eth_print nl] (st\<lparr>eth_buffer := buf\<rparr>);
               len = payload_len data_len in
           if data_len < 0 then Some st1
           else if length buf < ETHERNET_HDR_LEN + len then None
           else Some (eth_do [Eth_addrs (take 6 buf) (take 6 (drop 6 buf)),
                              Eth_payload (take len (drop ETHERNET_HDR_LEN buf))] st1) })"

definition event_cb :: "eth_env \<Rightarrow> nat \<Rightarrow> netdev_event \<Rightarrow> eth_state \<Rightarrow> eth_state option" where
  "event_cb env dev event st =
     (case event of
        NETDEV_EVENT_ISR \<Rightarrow>
          (case dev_context st dev of
             None \<Rightarrow> None
           | Some device \<Rightarrow> Some (st\<lparr>events := ev_post env device (events st)\<rparr>))
      | NETDEV_EVENT_RX_COMPLETE \<Rightarrow> eth_recv env dev st
      | NETDEV_EVENT_OTHER \<Rightarrow> Some st)"

text \<open>The interrupt service routine of a driver raises events, which come to the callback.\<close>

definition isr_event_handler :: "eth_env \<Rightarrow> nat \<Rightarrow> eth_state \<Rightarrow> eth_state option" where
  "isr_event_handler env entry st =
     (if length (devices st) \<le> entry then None
      else case devices st ! entry of
             None \<Rightarrow> None
           | Some dev \<Rightarrow> run_steps (event_cb env dev) (drv_isr env dev) st)"

definition netdev_register_signal :: "nat \<Rightarrow> u8 \<Rightarrow> eth_state \<Rightarrow> eth_state option" where
  "netdev_register_signal dev index st =
     (let i = unat index in
      if NETDEV_ETH_MINIMAL_NUMOF < i then Some st
      else if length (devices st) \<le> i then None
      else Some (eth_do [Eth_registered i]
             (st\<lparr>dev_context := (dev_context st)(dev := Some i), devices := (devices st)[i := Some dev]\<rparr>)))"

section \<open>Shell commands\<close>

definition ifconfig_list :: "eth_env \<Rightarrow> nat \<Rightarrow> eth_state \<Rightarrow> eth_state option" where
  "ifconfig_list env idx st =
     (if length (devices st) \<le> idx then None
      else case devices st ! idx of
             None \<Rightarrow> None
           | Some dev \<Rightarrow> if fst (drv_get env dev) \<le> 0 then None
                         else Some (eth_do [Eth_ifconfig idx (snd (drv_get env dev))] st))"

definition cmd_ifconfig :: "eth_env \<Rightarrow> eth_state \<Rightarrow> eth_state option" where
  "cmd_ifconfig env st = run_steps (ifconfig_list env) [0..<NETDEV_ETH_MINIMAL_NUMOF] st"

definition print_txtsnd_usage :: "string \<Rightarrow> eth_state \<Rightarrow> int \<times> eth_state" where
  "print_txtsnd_usage cmd st = (1, eth_do [Eth_usage cmd] st)"

text \<open>\<open>byteorder_htons\<close>: the bytes of a number in network order.\<close>

definition htons :: "u16 \<Rightarrow> bytes" where
  "htons w = [ucast (drop_bit 8 w), ucast w]"

text \<open>
  \<^verbatim>\<open>cmd_txtsnd\<close>. The header is a variable of 14 bytes with the destination in front; \<open>junk\<close> is what it
  holds before. The parser writes as many bytes as the text of the address has.
\<close>

definition cmd_txtsnd :: "eth_env \<Rightarrow> bytes \<Rightarrow> string list \<Rightarrow> eth_state \<Rightarrow> (int \<times> eth_state) option" where
  "cmd_txtsnd env junk argv st =
     (if length argv \<noteq> 4 then (if argv = [] then None else Some (print_txtsnd_usage (argv ! 0) st))
      else let iface = atoi (argv ! 1) in
      if iface < 0 \<or> int NETDEV_ETH_MINIMAL_NUMOF \<le> iface then
        Some (print_txtsnd_usage (argv ! 0) (eth_do [Eth_print (''unknown interface '' @ dec_int iface)] st))
      else let parsed = l2_from_str env (argv ! 2) in
        do { header \<leftarrow> mem_write 0 parsed junk;
             if parsed = [] then
               Some (print_txtsnd_usage (argv ! 0) (eth_do [Eth_print ''Could not parse address''] st))
             else if length (devices st) \<le> nat iface then None
             else case devices st ! nat iface of
                 None \<Rightarrow> Some (print_txtsnd_usage (argv ! 0) st)
               | Some dev \<Rightarrow>
                   do { h1 \<leftarrow> mem_write 6 (take 6 (snd (drv_get env dev))) header;
                        h2 \<leftarrow> mem_write 12 (htons (ETHERTYPE_UNKNOWN env)) h1;
                        let frame = h2 @ bytes_of (argv ! 3); st1 = eth_do [Eth_frame dev frame] st in
                        if drv_send env dev frame < 0 then Some (1, eth_do [Eth_print ''txtsnd: Could not send''] st1)
                        else Some (0, eth_do [Eth_print ''Successfully sent''] st1) } })"

section \<open>Start\<close>

definition init_devs :: "eth_env \<Rightarrow> nat \<Rightarrow> eth_state \<Rightarrow> eth_state option" where
  "init_devs env device st =
     (if drv_init env device = 0
      then Some (eth_do [Eth_print ''ok''] (st\<lparr>callback := (callback st)(device := True)\<rparr>)) else None)"

definition minerva_netdev_eth_minimal_init :: "eth_env \<Rightarrow> nat \<Rightarrow> eth_state \<Rightarrow> eth_state option" where
  "minerva_netdev_eth_minimal_init env device st =
     do { st1 \<leftarrow> init_devs env device st; cmd_ifconfig env st1 }"

text \<open>What the environment does: a driver registers a device or raises an event, the event thread runs.\<close>

datatype eth_ev = Register nat u8 | Raise nat netdev_event | Run_event

fun eth_step :: "eth_env \<Rightarrow> eth_ev \<Rightarrow> eth_state \<Rightarrow> eth_state option" where
  "eth_step env (Register dev index) st = netdev_register_signal dev index st"
| "eth_step env (Raise dev event) st = event_cb env dev event st"
| "eth_step env Run_event st =
     (case events st of [] \<Rightarrow> Some st | e # es \<Rightarrow> isr_event_handler env e (st\<lparr>events := es\<rparr>))"

section \<open>Lemmas\<close>

definition eth_ok :: "eth_env \<Rightarrow> eth_state \<Rightarrow> bool" where
  "eth_ok env st \<longleftrightarrow> length (devices st) = NETDEV_ETH_MINIMAL_NUMOF \<and>
     length (eth_buffer st) = ETHERNET_MAX_LEN env \<and>
     (\<forall>d i. dev_context st d = Some i \<longrightarrow> i < NETDEV_ETH_MINIMAL_NUMOF \<and> devices st ! i \<noteq> None) \<and>
     (\<forall>i \<in> set (events st). i < NETDEV_ETH_MINIMAL_NUMOF \<and> devices st ! i \<noteq> None)"

lemma eth_do_sel [simp]:
  "devices (eth_do as st) = devices st" "dev_context (eth_do as st) = dev_context st" "events (eth_do as st) = events st"
  "eth_buffer (eth_do as st) = eth_buffer st" "eth_log (eth_do as st) = eth_log st @ as" "eth_do as (eth_do bs st) = eth_do (bs @ as) st"
  by (simp_all add: eth_do_def)

lemma eth_ok_do [simp]: "eth_ok env (eth_do as st) = eth_ok env st"
  by (simp add: eth_ok_def)

lemma eth_recv_ok: "eth_recv env dev st = Some st' \<Longrightarrow> eth_ok env st \<Longrightarrow> eth_ok env st' \<and> dev_context st' = dev_context st"
proof -
  assume r: "eth_recv env dev st = Some st'" and ok: "eth_ok env st"
  obtain n bs where d: "drv_recv env dev (length (eth_buffer st)) = (n, bs)" by fastforce
  with r obtain buf where buf: "mem_write 0 bs (eth_buffer st) = Some buf"
    by (cases "mem_write 0 bs (eth_buffer st)") (simp_all add: eth_recv_def)
  have "eth_ok env (st\<lparr>eth_buffer := buf\<rparr>)" using ok mem_write_length [OF buf] by (simp add: eth_ok_def)
  moreover have "\<exists>as. st' = eth_do as (st\<lparr>eth_buffer := buf\<rparr>)"
    using r d buf by (auto simp: eth_recv_def Let_def split: if_splits)
  ultimately show ?thesis by auto
qed

lemma event_cb_ok:
  assumes "post_law env" and "event_cb env dev ev st = Some st'" and "eth_ok env st"
  shows "eth_ok env st' \<and> dev_context st' = dev_context st"
proof (cases ev)
  case NETDEV_EVENT_ISR
  with assms(2) obtain device where "dev_context st dev = Some device"
    and st': "st' = st\<lparr>events := ev_post env device (events st)\<rparr>"
    by (auto simp: event_cb_def split: option.splits)
  moreover have "set (ev_post env device (events st)) = insert device (set (events st))"
    using assms(1) by (simp add: post_law_def)
  ultimately show ?thesis using assms(3) by (simp add: eth_ok_def)
next
  case NETDEV_EVENT_RX_COMPLETE
  with assms(2,3) eth_recv_ok show ?thesis by (simp add: event_cb_def)
next
  case NETDEV_EVENT_OTHER
  with assms(2,3) show ?thesis by (simp add: event_cb_def)
qed

interpretation eth_cb: invariant_steps "event_cb env dev" "\<lambda>st. post_law env \<and> eth_ok env st" for env dev
  by unfold_locales (blast dest: event_cb_ok)

lemma register_ok: "netdev_register_signal dev index st = Some st' \<Longrightarrow> eth_ok env st \<Longrightarrow> eth_ok env st'"
  by (auto simp: netdev_register_signal_def Let_def eth_ok_def nth_list_update NETDEV_ETH_MINIMAL_NUMOF_def split: if_splits)

lemma run_event_ok:
  assumes "post_law env" and "eth_ok env st" and "eth_step env Run_event st = Some st'"
  shows "eth_ok env st'"
proof (cases "events st")
  case Nil
  with assms show ?thesis by simp
next
  case (Cons e es)
  then have ok: "eth_ok env (st\<lparr>events := es\<rparr>)" using assms(2) by (simp add: eth_ok_def)
  from Cons assms(3) obtain dev where "run_steps (event_cb env dev) (drv_isr env dev) (st\<lparr>events := es\<rparr>) = Some st'"
    by (auto simp: isr_event_handler_def split: if_splits option.splits)
  with eth_cb.inv_run [of env "st\<lparr>events := es\<rparr>"] ok assms(1) show ?thesis by blast
qed

interpretation eth: invariant_steps "eth_step env" "\<lambda>st. post_law env \<and> eth_ok env st" for env
proof unfold_locales
  fix st st' :: eth_state and e
  assume a: "post_law env \<and> eth_ok env st" "eth_step env e st = Some st'"
  then have "eth_ok env st'"
  proof (cases e)
    case (Register dev index)
    with a register_ok show ?thesis by simp
  next
    case (Raise dev ev)
    with a event_cb_ok [of env dev ev st st'] show ?thesis by simp
  next
    case Run_event
    with a show ?thesis by (blast intro: run_event_ok)
  qed
  with a show "post_law env \<and> eth_ok env st'" by blast
qed

lemma eth_ok_init: "eth_ok env (eth_init env)"
  by (simp add: eth_ok_def eth_init_def)

lemma payload_len_eq:
  assumes "int ETHERNET_HDR_LEN \<le> n" and "n < 2 ^ 32"
  shows "payload_len n = nat (n - int ETHERNET_HDR_LEN)"
  using unat_small_sum [of "n - int ETHERNET_HDR_LEN" 0] assms by (simp add: payload_len_def del: of_int_diff wi_hom_sub)

lemma u8_one: "unat (w :: u8) = 1 \<longleftrightarrow> w = 1"
  by (metis unat_1 word_eq_iff_unsigned)

text \<open>A frame that has a header, and no more than the buffer holds, is shown.\<close>

lemma eth_recv_frame:
  assumes "driver_law env" and "length (eth_buffer st) = ETHERNET_MAX_LEN env"
    and "drv_recv env dev (ETHERNET_MAX_LEN env) = (int (length bs), bs)" and "ETHERNET_HDR_LEN \<le> length bs"
    and "ETHERNET_MAX_LEN env < 2 ^ 32"
  shows "\<exists>st'. eth_recv env dev st = Some st' \<and> eth_log st' = eth_log st @
     [Eth_print nl, Eth_addrs (take 6 bs) (take 6 (drop 6 bs)), Eth_payload (drop ETHERNET_HDR_LEN bs)]"
proof -
  have le: "length bs \<le> ETHERNET_MAX_LEN env"
    using assms(1,3) unfolding driver_law_def by (metis snd_conv)
  then obtain buf where buf: "mem_write 0 bs (eth_buffer st) = Some buf" using mem_write_exists [of 0 bs "eth_buffer st"] assms(2) by auto
  then have b: "buf = bs @ drop (length bs) (eth_buffer st)" by (simp add: mem_simps)
  let ?n = "length bs - ETHERNET_HDR_LEN"
  have n: "payload_len (int (length bs)) = ?n" using payload_len_eq [of "int (length bs)"] assms(4,5) le by simp
  show ?thesis
    using assms(2,3,4) le b buf by (simp add: eth_recv_def n Let_def ETHERNET_HDR_LEN_def)
qed

lemma eth_recv_returns:
  assumes "driver_law env" and "length (eth_buffer st) = ETHERNET_MAX_LEN env" and "ETHERNET_MAX_LEN env < 2 ^ 32"
    and "fst (drv_recv env dev (ETHERNET_MAX_LEN env)) < 0 \<or> int ETHERNET_HDR_LEN \<le> fst (drv_recv env dev (ETHERNET_MAX_LEN env))"
  shows "\<exists>st'. eth_recv env dev st = Some st'"
proof -
  obtain n bs where r: "drv_recv env dev (ETHERNET_MAX_LEN env) = (n, bs)" by fastforce
  with assms(1) have le: "length bs \<le> ETHERNET_MAX_LEN env" "n \<le> int (ETHERNET_MAX_LEN env)"
    unfolding driver_law_def by (metis snd_conv, metis fst_conv)
  then obtain buf where buf: "mem_write 0 bs (eth_buffer st) = Some buf" "length buf = ETHERNET_MAX_LEN env"
    using mem_write_exists [of 0 bs "eth_buffer st"] assms(2) mem_write_length by fastforce
  show ?thesis
  proof (cases "n < 0")
    case True
    then show ?thesis using r buf assms(2) by (simp add: eth_recv_def Let_def)
  next
    case False
    with assms(4) r have "int ETHERNET_HDR_LEN \<le> n" by simp
    moreover have "payload_len n = nat (n - int ETHERNET_HDR_LEN)"
      using calculation le(2) assms(3) by (intro payload_len_eq) simp_all
    ultimately show ?thesis using r buf assms(2) le(2) by (simp add: eth_recv_def Let_def)
  qed
qed

section \<open>Properties\<close>

text \<open>The steps the environment takes: registrations of the one entry, events of registered devices.\<close>

definition ev_allowed :: "eth_ev \<Rightarrow> eth_state \<Rightarrow> bool" where
  "ev_allowed e st \<longleftrightarrow> (case e of Register dev index \<Rightarrow> index \<noteq> 1 | Raise dev ev \<Rightarrow> ev = NETDEV_EVENT_ISR \<longrightarrow> dev_context st dev \<noteq> None
     | Run_event \<Rightarrow> True)"

text \<open>No frame is shorter than its header.\<close>

definition frames_whole :: "eth_env \<Rightarrow> bool" where
  "frames_whole env \<longleftrightarrow> ETHERNET_MAX_LEN env < 2 ^ 32 \<and>
     (\<forall>d. fst (drv_recv env d (ETHERNET_MAX_LEN env)) < 0 \<or>
          int ETHERNET_HDR_LEN \<le> fst (drv_recv env d (ETHERNET_MAX_LEN env)))"

lemma event_cb_returns:
  assumes "driver_law env" and "frames_whole env" and "eth_ok env st" and "ev = NETDEV_EVENT_ISR \<Longrightarrow> dev_context st dev \<noteq> None"
  shows "\<exists>st'. event_cb env dev ev st = Some st'"
proof (cases ev)
  case NETDEV_EVENT_ISR
  then show ?thesis using assms(4) by (auto simp: event_cb_def)
next
  case NETDEV_EVENT_RX_COMPLETE
  then show ?thesis
    using eth_recv_returns [OF assms(1), of st dev] assms(2,3) by (simp add: event_cb_def frames_whole_def eth_ok_def)
qed (simp add: event_cb_def)

lemma isr_events_return:
  assumes "post_law env" and "driver_law env" and "frames_whole env" and "eth_ok env st"
    and "NETDEV_EVENT_ISR \<notin> set evs"
  shows "\<exists>st'. run_steps (event_cb env dev) evs st = Some st'"
  using assms(4,5)
proof (induction evs arbitrary: st)
  case Nil
  then show ?case by simp
next
  case (Cons ev evs)
  then obtain st1 where s: "event_cb env dev ev st = Some st1"
    using event_cb_returns [OF assms(2,3)] by fastforce
  then have "eth_ok env st1" using event_cb_ok [OF assms(1)] Cons.prems(1) by blast
  with Cons s show ?case by auto
qed


text \<open>
  C40: The registration hook writes past the registry. Its check lets the index equal to the number
  of entries pass, and the write to that entry is outside of the array.
\<close>

theorem register_signal_overflow:
  assumes "run_steps (eth_step env) es (eth_init env) = Some st" and "post_law env"
  shows "netdev_register_signal dev index st = None \<longleftrightarrow> index = 1"
proof -
  have "eth_ok env st" using eth.inv_run [of env "eth_init env" es st] assms eth_ok_init by blast
  then show ?thesis
    by (auto simp: netdev_register_signal_def Let_def eth_ok_def NETDEV_ETH_MINIMAL_NUMOF_def simp flip: u8_one)
qed

text \<open>
  A frame shorter than an Ethernet header makes the receive path read past its buffer: the
  subtraction of the header length wraps around and the dump is given a length of almost 4 GiB.
\<close>

lemma short_frame_overread:
  assumes "driver_law env" and "length (eth_buffer st) = ETHERNET_MAX_LEN env" and "ETHERNET_MAX_LEN env < 2 ^ 31"
    and "drv_recv env dev (ETHERNET_MAX_LEN env) = (n, bs)" and "0 \<le> n" and "n < int ETHERNET_HDR_LEN"
  shows "eth_recv env dev st = None"
proof -
  have le: "length bs \<le> ETHERNET_MAX_LEN env" using assms(1,4) unfolding driver_law_def by (metis snd_conv)
  then obtain buf where buf: "mem_write 0 bs (eth_buffer st) = Some buf" "length buf = ETHERNET_MAX_LEN env"
    using mem_write_exists [of 0 bs "eth_buffer st"] assms(2) mem_write_length by fastforce
  define k where "k = n - int ETHERNET_HDR_LEN"
  have k: "- 14 \<le> k" "k < 0" using assms(5,6) by (simp_all add: k_def ETHERNET_HDR_LEN_def)
  have "unat (word_of_int k :: u32) = nat (k mod 2 ^ 32)" by (simp add: unsigned_of_int take_bit_eq_mod nat_mod_distrib)
  also have "k mod 2 ^ 32 = k + 2 ^ 32"
    using k mod_pos_pos_trivial [of "k + 2 ^ 32" "2 ^ 32"] mod_add_self2 [of k "2 ^ 32"] by simp
  finally have "payload_len n = nat (k + 2 ^ 32)" by (simp add: payload_len_def k_def)
  with k have "2 ^ 31 < payload_len n" by simp
  with assms(2-5) buf show ?thesis by (simp add: eth_recv_def Let_def)
qed

text \<open>
  \<^verbatim>\<open>txtsnd\<close> sends the frame it is asked for. With the number of a registered interface and an
  address of six bytes the command sends exactly one frame: the destination, the hardware address
  of the device, the reserved type in network order and the bytes of the text; its result is zero
  exactly if the driver accepts the frame.
\<close>

lemma txtsnd_frame:
  assumes "length junk = ETHERNET_HDR_LEN" and "atoi iface = 0" and "devices st = [Some dev]"
    and "length (l2_from_str env dst) = ETHERNET_ADDR_LEN" and "length (snd (drv_get env dev)) = ETHERNET_ADDR_LEN"
  shows "\<exists>res st' msg. cmd_txtsnd env junk [cmd, iface, dst, txt] st = Some (res, st') \<and>
     eth_log st' = eth_log st @ [Eth_frame dev (l2_from_str env dst @ snd (drv_get env dev) @
       htons (ETHERTYPE_UNKNOWN env) @ bytes_of txt), msg] \<and>
     (res = 0 \<longleftrightarrow> 0 \<le> drv_send env dev (l2_from_str env dst @ snd (drv_get env dev) @
       htons (ETHERTYPE_UNKNOWN env) @ bytes_of txt))"
proof -
  let ?d = "l2_from_str env dst" and ?s = "snd (drv_get env dev)" and ?t = "htons (ETHERTYPE_UNKNOWN env)"
  have len: "length ?d = 6" "length ?s = 6" "length junk = 14" "length ?t = 2"
    using assms by (simp_all add: ETHERNET_ADDR_LEN_def ETHERNET_HDR_LEN_def htons_def)
  then have "?d \<noteq> []" by auto
  have 1: "mem_write 0 ?d junk = Some (?d @ drop 6 junk)" using len by (simp add: mem_write_def)
  have 2: "mem_write 6 ?s (?d @ drop 6 junk) = Some (?d @ ?s @ drop 12 junk)" using len by (simp add: mem_write_def)
  have 3: "mem_write 12 ?t (?d @ ?s @ drop 12 junk) = Some (?d @ ?s @ ?t)" using len by (simp add: mem_write_def)
  show ?thesis
    using \<open>?d \<noteq> []\<close> assms(2,3) len(2)
    by (simp add: cmd_txtsnd_def Let_def 1 2 3 NETDEV_ETH_MINIMAL_NUMOF_def)
qed

text \<open>
  An address of more than fourteen bytes overruns the header, and a shorter one than six leaves what
  was on the stack in the destination.
\<close>

lemma txtsnd_long_address_overruns:
  assumes "length junk = ETHERNET_HDR_LEN" and "atoi iface = 0" and "ETHERNET_HDR_LEN < length (l2_from_str env dst)"
  shows "cmd_txtsnd env junk [cmd, iface, dst, txt] st = None"
  using assms by (simp add: cmd_txtsnd_def Let_def mem_write_def NETDEV_ETH_MINIMAL_NUMOF_def)

lemma txtsnd_short_address_leaks:
  assumes "length junk = ETHERNET_HDR_LEN" and "atoi iface = 0" and "devices st = [Some dev]"
    and "l2_from_str env dst = [a, b]" and "length (snd (drv_get env dev)) = ETHERNET_ADDR_LEN"
  shows "\<exists>res st'. cmd_txtsnd env junk [cmd, iface, dst, txt] st = Some (res, st') \<and>
     Eth_frame dev ([a, b] @ take 4 (drop 2 junk) @ snd (drv_get env dev) @ htons (ETHERTYPE_UNKNOWN env) @ bytes_of txt)
       \<in> set (eth_log st')"
proof -
  let ?s = "snd (drv_get env dev)" and ?t = "htons (ETHERTYPE_UNKNOWN env)"
  have len: "length ?s = 6" "length junk = 14" "length ?t = 2"
    using assms by (simp_all add: ETHERNET_ADDR_LEN_def ETHERNET_HDR_LEN_def htons_def)
  have 1: "mem_write 0 [a, b] junk = Some ([a, b] @ drop 2 junk)" using len by (simp add: mem_write_def numeral_2_eq_2)
  have 2: "mem_write 6 ?s ([a, b] @ drop 2 junk) = Some ([a, b] @ take 4 (drop 2 junk) @ ?s @ drop 12 junk)"
    using len by (simp add: mem_write_def numeral_eq_Suc)
  have 3: "mem_write 12 ?t ([a, b] @ take 4 (drop 2 junk) @ ?s @ drop 12 junk) = Some ([a, b] @ take 4 (drop 2 junk) @ ?s @ ?t)"
    using len by (simp add: mem_write_def)
  show ?thesis
    using assms(2-4) len(1) 1 2 3 by (simp add: cmd_txtsnd_def Let_def NETDEV_ETH_MINIMAL_NUMOF_def)
qed

text \<open>The start without a registration follows a null pointer: the list of interfaces is shown at once.\<close>

lemma init_unregistered_undefined:
  "devices st = [None] \<Longrightarrow> minerva_netdev_eth_minimal_init env device st = None"
  by (simp add: minerva_netdev_eth_minimal_init_def init_devs_def cmd_ifconfig_def ifconfig_list_def
      NETDEV_ETH_MINIMAL_NUMOF_def upt_rec)

section \<open>A concrete device\<close>

definition eth_demo :: eth_env where
  "eth_demo = \<lparr>drv_init = (\<lambda>_. 0), drv_recv = (\<lambda>d n. if n < 16 then (- 1, []) else if d = 9 then (3, [1, 2, 3]) else (16, replicate 16 5)),
     drv_get = (\<lambda>_. (6, [10, 11, 12, 13, 14, 15])), drv_isr = (\<lambda>_. [NETDEV_EVENT_RX_COMPLETE]), drv_send = (\<lambda>_ _. 0),
     ev_post = (\<lambda>e q. if e \<in> set q then q else q @ [e]), l2_from_str = (\<lambda>s. map (\<lambda>_. 1) (take 6 s)),
     ETHERNET_MAX_LEN = 1518, ETHERTYPE_UNKNOWN = 0xFFFF\<rparr>"

lemma eth_demo_laws: "post_law eth_demo" "driver_law eth_demo"
  by (auto simp: post_law_def driver_law_def eth_demo_def ETHERNET_HDR_LEN_def)

definition eth_demo_whole :: eth_env where
  "eth_demo_whole = eth_demo\<lparr>drv_recv := (\<lambda>d n. if n < 16 then (- 1, []) else (16, replicate 16 5))\<rparr>"

lemma eth_demo_whole_laws: "post_law eth_demo_whole" "driver_law eth_demo_whole" "frames_whole eth_demo_whole"
  "\<forall>d. NETDEV_EVENT_ISR \<notin> set (drv_isr eth_demo_whole d)"
  by (auto simp: post_law_def driver_law_def frames_whole_def eth_demo_def eth_demo_whole_def ETHERNET_HDR_LEN_def)


theorem register_signal_overflow_witness: "netdev_register_signal 3 1 (eth_init eth_demo) = None"
  using register_signal_overflow [of eth_demo "[]" "eth_init eth_demo" 3 1] eth_demo_laws by simp

lemma short_frame_overread_witness: "eth_recv eth_demo 9 (eth_init eth_demo) = None"
  using short_frame_overread [OF eth_demo_laws(2), of "eth_init eth_demo" 9 3 "[1, 2, 3]"]
  by (simp add: eth_demo_def eth_init_def ETHERNET_HDR_LEN_def)

lemma txtsnd_frame_witness:
  "\<exists>res st' msg. cmd_txtsnd eth_demo (replicate 14 0) [''txtsnd'', ''0'', ''abcdef'', ''hi''] ((eth_init eth_demo)\<lparr>devices := [Some 3]\<rparr>) = Some (res, st') \<and>
     eth_log st' = [Eth_frame 3 ([1, 1, 1, 1, 1, 1] @ [10, 11, 12, 13, 14, 15] @ [0xFF, 0xFF] @ [104, 105]), msg]"
proof -
  have a: "atoi ''0'' = 0" by (simp add: c_lib)
  have b: "bytes_of ''hi'' = [104, 105]" by (simp add: bytes_of_def of_char_def)
  have h: "htons 0xFFFF = [0xFF, 0xFF]" by (simp add: htons_def)
  show ?thesis
    using txtsnd_frame [of "replicate 14 0" "''0''" "(eth_init eth_demo)\<lparr>devices := [Some 3]\<rparr>" 3 eth_demo "''abcdef''" "''txtsnd''" "''hi''"] a
    by (auto simp: eth_demo_def ETHERNET_HDR_LEN_def ETHERNET_ADDR_LEN_def b h eth_init_def)
qed

end
