(* ===== verification/Xbd_Events.thy ===== *)
theory Xbd_Events
  imports Xstream "HOL-Library.Multiset"
begin

text \<open>
  Timers and socket events of \<^verbatim>\<open>examples/xbd-net\<close>: the C functions that sleep and set a timer
  (\<^verbatim>\<open>modules/minerva_xbd/xbd.c\<close>), the Rust code that hands a callback to C and gets it back
  (\<^verbatim>\<open>src/xbd/mod.rs\<close>, \<^verbatim>\<open>callback.rs\<close>, \<^verbatim>\<open>timeout.rs\<close>), and the events of the CoAP sockets on their way to
  the server task (\<^verbatim>\<open>server.rs\<close>). Ownership of what is allocated on the way is explicit.
\<close>

section \<open>Sleeping\<close>

record xbd_io =
  blink :: bool
  tty :: string
  slept :: "u32 list"

definition xbd_usleep :: "u32 \<Rightarrow> xbd_io \<Rightarrow> xbd_io" where
  "xbd_usleep delay s = s\<lparr>tty := tty s @ ''.'', slept := slept s @ [delay]\<rparr>"

definition xbd_ztimer_msleep :: "u32 \<Rightarrow> bool \<Rightarrow> xbd_io \<Rightarrow> xbd_io" where
  "xbd_ztimer_msleep delay debug s =
     (let s1 = (if debug
                then let b = \<not> blink s in
                  s\<lparr>blink := b, tty := tty s @ [if b then CHR ''#'' else CHR '' '', CHR 0x08]\<rparr>
                else s)
      in s1\<lparr>slept := slept s1 @ [delay]\<rparr>)"

section \<open>Timers\<close>

text \<open>
  Every kind of object lives in a heap of its own, which maps the addresses in use: the timers that C
  allocates, the boxes of the closures, of the pairs that are the arguments of the timers, and of
  the pointers to the timers. \<open>armed\<close> are the timers that run, \<open>api_sd\<close> is the stream of the
  arguments of those that fired, and \<open>called\<close> the closures that were called, in order.
\<close>

record ztimer =
  tm_arg :: nat
  tm_delay :: u32

record timers =
  c_timers :: "nat \<rightharpoonup> ztimer"
  closures :: "nat \<rightharpoonup> nat"
  arg_boxes :: "nat \<rightharpoonup> nat \<times> nat"
  pp_boxes :: "nat \<rightharpoonup> nat option"
  fresh :: nat
  armed :: "nat list"
  api_sd :: "nat list"
  called :: "nat list"

definition timers_init :: timers where
  "timers_init = \<lparr>c_timers = Map.empty, closures = Map.empty, arg_boxes = Map.empty, pp_boxes = Map.empty,
     fresh = 0, armed = [], api_sd = [], called = []\<rparr>"

definition API_STREAM_SIZE :: nat where "API_STREAM_SIZE = 64"

text \<open>
  The C function: \<open>alloc\<close> says whether \<^verbatim>\<open>calloc\<close> finds memory, whose result the code does not check;
  the timer is written through \<^verbatim>\<open>timeout_pp\<close> before it is set.
\<close>

definition xbd_ztimer_set :: "bool \<Rightarrow> u32 \<Rightarrow> nat \<Rightarrow> nat \<Rightarrow> timers \<Rightarrow> timers option" where
  "xbd_ztimer_set alloc delay arg_ptr timeout_pp s =
     (if \<not> alloc \<or> pp_boxes s timeout_pp = None then None
      else let timeout = fresh s in
        Some (s\<lparr>c_timers := (c_timers s)(timeout \<mapsto> \<lparr>tm_arg = arg_ptr, tm_delay = delay\<rparr>),
                pp_boxes := (pp_boxes s)(timeout_pp \<mapsto> Some timeout), armed := armed s @ [timeout]\<rparr>))"

text \<open>The Rust side boxes the closure, the pointer and the pair of them; one number is fresh in every heap.\<close>

definition set_timeout :: "bool \<Rightarrow> u32 \<Rightarrow> nat \<Rightarrow> timers \<Rightarrow> timers option" where
  "set_timeout alloc msec cb s =
     (let n = fresh s;
          s1 = s\<lparr>pp_boxes := (pp_boxes s)(n \<mapsto> None), closures := (closures s)(n \<mapsto> cb),
                 arg_boxes := (arg_boxes s)(n \<mapsto> (n, n))\<rparr> in
      do { s2 \<leftarrow> xbd_ztimer_set alloc msec n n s1; Some (s2\<lparr>fresh := Suc n\<rparr>) })"

text \<open>A timer that expires calls \<^verbatim>\<open>add_xbd_timeout_callback\<close> with its argument.\<close>

definition add_xbd_timeout_callback :: "nat \<Rightarrow> timers \<Rightarrow> timers option" where
  "add_xbd_timeout_callback arg_ptr s =
     do { q \<leftarrow> xs_add API_STREAM_SIZE arg_ptr (api_sd s); Some (s\<lparr>api_sd := q\<rparr>) }"

definition fire :: "nat \<Rightarrow> timers \<Rightarrow> timers option" where
  "fire t s =
     (if t \<notin> set (armed s) then Some s
      else do { tm \<leftarrow> c_timers s t;
                add_xbd_timeout_callback (tm_arg tm) (s\<lparr>armed := remove1 t (armed s)\<rparr>) })"

text \<open>
  One turn of \<^verbatim>\<open>process_api_stream\<close>: the boxes are taken back, the timer is freed, the closure called.
  To take back a box that is not there, or to free memory that is not allocated, is undefined.
\<close>

definition process_api :: "timers \<Rightarrow> timers option" where
  "process_api s =
     (case xs_poll_next (api_sd s) of
        (Pending, q) \<Rightarrow> Some (s\<lparr>api_sd := q\<rparr>)
      | (Ready arg_ptr, q) \<Rightarrow>
          do { (cb_ptr, pp) \<leftarrow> arg_boxes s arg_ptr;
               timeout \<leftarrow> pp_boxes s pp;
               t \<leftarrow> timeout;
               _ \<leftarrow> c_timers s t;
               cb \<leftarrow> closures s cb_ptr;
               Some (s\<lparr>api_sd := q, arg_boxes := (arg_boxes s)(arg_ptr := None), pp_boxes := (pp_boxes s)(pp := None),
                       c_timers := (c_timers s)(t := None), closures := (closures s)(cb_ptr := None),
                       called := called s @ [cb]\<rparr>) })"

datatype timer_ev = Set_timeout u32 nat | Fire nat | Process

fun timer_step :: "timer_ev \<Rightarrow> timers \<Rightarrow> timers option" where
  "timer_step (Set_timeout msec cb) s = set_timeout True msec cb s"
| "timer_step (Fire t) s = fire t s"
| "timer_step Process s = process_api s"

text \<open>\<^verbatim>\<open>Timeout\<close>: the first poll takes the waker and sets the timer, every later one is ready.\<close>

record timeout_fut =
  to_msec :: u32
  to_cb :: "nat option"
  to_waker :: bool

definition timeout_poll :: "bool \<Rightarrow> nat \<Rightarrow> timeout_fut \<Rightarrow> timers \<Rightarrow> (unit poll \<times> nat option \<times> timeout_fut \<times> timers) option" where
  "timeout_poll alloc wake f s =
     (if to_waker f then
        do { s' \<leftarrow> set_timeout alloc (to_msec f) wake s; Some (Pending, None, f\<lparr>to_waker := False\<rparr>, s') }
      else Some (Ready (), to_cb f, f\<lparr>to_cb := None\<rparr>, s))"

section \<open>Socket events\<close>

definition SOCK_ASYNC_MSG_RECV :: u32 where "SOCK_ASYNC_MSG_RECV = 0x10"
definition SERVER_STREAM_SIZE :: nat where "SERVER_STREAM_SIZE = 64"

text \<open>An event: whether its socket is a DTLS one, the socket, the flags and the argument.\<close>

type_synonym sock_evt = "bool \<times> nat \<times> u32 \<times> nat"

record sock_events =
  server_sd :: "sock_evt list"
  handled :: "sock_evt list"

definition is_msg :: "sock_evt \<Rightarrow> bool" where
  "is_msg e \<longleftrightarrow> fst (snd (snd e)) AND SOCK_ASYNC_MSG_RECV > 0"

definition on_sock_evt :: "sock_evt \<Rightarrow> sock_events \<Rightarrow> sock_events option" where
  "on_sock_evt e s =
     (if is_msg e
      then do { q \<leftarrow> xs_add SERVER_STREAM_SIZE e (server_sd s); Some (s\<lparr>server_sd := q\<rparr>) }
      else Some (s\<lparr>handled := handled s @ [e]\<rparr>))"

definition process_gcoap_server :: "sock_events \<Rightarrow> sock_events" where
  "process_gcoap_server s =
     (case xs_poll_next (server_sd s) of
        (Pending, q) \<Rightarrow> s\<lparr>server_sd := q\<rparr>
      | (Ready e, q) \<Rightarrow> s\<lparr>server_sd := q, handled := handled s @ [e]\<rparr>)"

datatype server_ev = Sock_evt sock_evt | Serve

fun server_step :: "server_ev \<Rightarrow> sock_events \<Rightarrow> sock_events option" where
  "server_step (Sock_evt e) s = on_sock_evt e s"
| "server_step Serve s = Some (process_gcoap_server s)"

definition arrivals :: "server_ev list \<Rightarrow> sock_evt list" where
  "arrivals es = concat (map (\<lambda>e. case e of Sock_evt x \<Rightarrow> [x] | Serve \<Rightarrow> []) es)"

section \<open>Lemmas\<close>

text \<open>
  What is allocated belongs to a timer that runs or to one that fired and was not processed yet, and
  to exactly one; the boxes of a timer point to each other.
\<close>

definition heaps_ok :: "timers \<Rightarrow> nat set \<Rightarrow> bool" where
  "heaps_ok s L \<longleftrightarrow> dom (c_timers s) = L \<and> dom (closures s) = L \<and> dom (arg_boxes s) = L \<and> dom (pp_boxes s) = L \<and>
     (\<forall>n \<in> L. map_option tm_arg (c_timers s n) = Some n \<and> arg_boxes s n = Some (n, n) \<and> pp_boxes s n = Some (Some n))"

definition timers_ok :: "timers \<Rightarrow> bool" where
  "timers_ok s \<longleftrightarrow> distinct (armed s @ api_sd s) \<and> (\<forall>n \<in> set (armed s @ api_sd s). n < fresh s) \<and>
     length (api_sd s) < API_STREAM_SIZE \<and> heaps_ok s (set (armed s @ api_sd s))"

lemma timers_ok_init: "timers_ok timers_init"
  by (simp add: timers_ok_def heaps_ok_def timers_init_def API_STREAM_SIZE_def)

lemma heaps_ok_add:
  assumes "heaps_ok s L" and "n \<notin> L"
  shows "heaps_ok (s\<lparr>c_timers := (c_timers s)(n \<mapsto> \<lparr>tm_arg = n, tm_delay = d\<rparr>), closures := (closures s)(n \<mapsto> cb),
     arg_boxes := (arg_boxes s)(n \<mapsto> (n, n)), pp_boxes := (pp_boxes s)(n \<mapsto> Some n)\<rparr>) (insert n L)"
  using assms by (auto simp: heaps_ok_def)

lemma heaps_ok_remove:
  assumes "heaps_ok s L"
  shows "heaps_ok (s\<lparr>c_timers := (c_timers s)(n := None), closures := (closures s)(n := None),
     arg_boxes := (arg_boxes s)(n := None), pp_boxes := (pp_boxes s)(n := None)\<rparr>) (L - {n})"
  using assms by (auto simp: heaps_ok_def)

lemma heaps_ok_frame [simp]:
  "heaps_ok (s\<lparr>armed := a\<rparr>) L = heaps_ok s L" "heaps_ok (s\<lparr>api_sd := q\<rparr>) L = heaps_ok s L"
  "heaps_ok (s\<lparr>fresh := n\<rparr>) L = heaps_ok s L" "heaps_ok (s\<lparr>called := c\<rparr>) L = heaps_ok s L"
  by (simp_all add: heaps_ok_def)

lemma set_timeout_eq:
  "set_timeout True msec cb s =
     Some (s\<lparr>c_timers := (c_timers s)(fresh s \<mapsto> \<lparr>tm_arg = fresh s, tm_delay = msec\<rparr>), closures := (closures s)(fresh s \<mapsto> cb),
       arg_boxes := (arg_boxes s)(fresh s \<mapsto> (fresh s, fresh s)), pp_boxes := (pp_boxes s)(fresh s \<mapsto> Some (fresh s)),
       fresh := Suc (fresh s), armed := armed s @ [fresh s]\<rparr>)"
  by (simp add: set_timeout_def xbd_ztimer_set_def Let_def)

lemma set_timeout_ok:
  assumes "timers_ok s" and "set_timeout True msec cb s = Some s'"
  shows "timers_ok s'"
proof -
  let ?n = "fresh s" and ?L = "set (armed s @ api_sd s)"
  have n: "?n \<notin> ?L" using assms(1) unfolding timers_ok_def by blast
  let ?s = "s\<lparr>c_timers := (c_timers s)(?n \<mapsto> \<lparr>tm_arg = ?n, tm_delay = msec\<rparr>), closures := (closures s)(?n \<mapsto> cb),
     arg_boxes := (arg_boxes s)(?n \<mapsto> (?n, ?n)), pp_boxes := (pp_boxes s)(?n \<mapsto> Some ?n)\<rparr>"
  have h: "heaps_ok ?s (insert ?n ?L)"
    using assms(1) n by (intro heaps_ok_add) (auto simp: timers_ok_def)
  have s': "s' = ?s\<lparr>fresh := Suc ?n, armed := armed s @ [?n]\<rparr>" using assms(2) by (simp add: set_timeout_eq)
  then have "set (armed s' @ api_sd s') = insert ?n ?L" by simp
  with h s' have "heaps_ok s' (set (armed s' @ api_sd s'))" by (simp only: heaps_ok_frame)
  moreover have "distinct (armed s' @ api_sd s')" "\<forall>n \<in> set (armed s' @ api_sd s'). n < fresh s'" "length (api_sd s') < API_STREAM_SIZE"
    using assms n by (auto simp: set_timeout_eq timers_ok_def less_Suc_eq)
  ultimately show ?thesis by (simp add: timers_ok_def)
qed

text \<open>A timer that fires moves from the running ones to the stream, if there is room.\<close>

lemma fire_eq:
  assumes "timers_ok s" and "t \<in> set (armed s)"
  shows "fire t s = (if length (api_sd s) < 63
     then Some (s\<lparr>armed := remove1 t (armed s), api_sd := api_sd s @ [t]\<rparr>) else None)"
proof -
  obtain tm where "c_timers s t = Some tm" "tm_arg tm = t" 
  proof -
    have "t \<in> set (armed s @ api_sd s)" using assms(2) by simp
    with assms(1) have "map_option tm_arg (c_timers s t) = Some t" unfolding timers_ok_def heaps_ok_def by blast
    with that show ?thesis by (auto simp: map_option_eq_Some)
  qed
  with assms(2) show ?thesis by (simp add: fire_def add_xbd_timeout_callback_def xs_add_def API_STREAM_SIZE_def)
qed

lemma fire_ok:
  assumes "timers_ok s" and "fire t s = Some s'"
  shows "timers_ok s'"
proof (cases "t \<in> set (armed s)")
  case False
  with assms show ?thesis by (simp add: fire_def)
next
  case True
  with assms fire_eq [OF assms(1) True] have s': "s' = s\<lparr>armed := remove1 t (armed s), api_sd := api_sd s @ [t]\<rparr>"
    and len: "length (api_sd s) < 63" by (auto split: if_splits)
  have "distinct (armed s)" using assms(1) by (simp add: timers_ok_def)
  then have "set (remove1 t (armed s)) = set (armed s) - {t}" by (rule set_remove1_eq)
  then have live: "set (armed s' @ api_sd s') = set (armed s @ api_sd s)" using True s' by auto
  have "distinct (armed s' @ api_sd s')"
    using assms(1) True \<open>set (remove1 t (armed s)) = set (armed s) - {t}\<close> by (auto simp: s' timers_ok_def)
  with assms(1) len live s' show ?thesis by (simp add: timers_ok_def API_STREAM_SIZE_def del: set_append)
qed

text \<open>The argument that is processed has all its boxes and its timer.\<close>

lemma process_api_eq:
  assumes "timers_ok s" and "api_sd s = n # q"
  shows "\<exists>cb. closures s n = Some cb \<and> process_api s =
     Some (s\<lparr>c_timers := (c_timers s)(n := None), closures := (closures s)(n := None),
       arg_boxes := (arg_boxes s)(n := None), pp_boxes := (pp_boxes s)(n := None), api_sd := q, called := called s @ [cb]\<rparr>)"
proof -
  have n: "n \<in> set (armed s @ api_sd s)" using assms(2) by simp
  with assms(1) have h: "arg_boxes s n = Some (n, n)" "pp_boxes s n = Some (Some n)"
    "n \<in> dom (c_timers s)" "n \<in> dom (closures s)" unfolding timers_ok_def heaps_ok_def by blast+
  then obtain tm cb where "c_timers s n = Some tm" "closures s n = Some cb" by blast
  with h assms(2) show ?thesis by (simp add: process_api_def xs_poll_next_def)
qed

lemma process_api_ok:
  assumes "timers_ok s"
  shows "\<exists>s'. process_api s = Some s' \<and> timers_ok s'"
proof (cases "api_sd s")
  case Nil
  with assms show ?thesis by (simp add: process_api_def xs_poll_next_def timers_ok_def)
next
  case (Cons n q)
  let ?s = "s\<lparr>c_timers := (c_timers s)(n := None), closures := (closures s)(n := None),
     arg_boxes := (arg_boxes s)(n := None), pp_boxes := (pp_boxes s)(n := None)\<rparr>"
  from process_api_eq [OF assms Cons] obtain cb where p: "process_api s = Some (?s\<lparr>api_sd := q, called := called s @ [cb]\<rparr>)"
    by blast
  have "set (armed s @ api_sd s) - {n} = set (armed s @ q)" using assms Cons by (auto simp: timers_ok_def)
  moreover have "heaps_ok ?s (set (armed s @ api_sd s) - {n})"
    using assms by (intro heaps_ok_remove) (simp add: timers_ok_def)
  ultimately have h: "heaps_ok ?s (set (armed s @ q))" by simp
  have "timers_ok (?s\<lparr>api_sd := q, called := called s @ [cb]\<rparr>)"
    unfolding timers_ok_def heaps_ok_frame
  proof (intro conjI)
    show "heaps_ok ?s (set (armed (?s\<lparr>api_sd := q, called := called s @ [cb]\<rparr>) @ api_sd (?s\<lparr>api_sd := q, called := called s @ [cb]\<rparr>)))"
      using h by simp
  qed (use assms Cons in \<open>auto simp: timers_ok_def\<close>)
  with p show ?thesis by blast
qed

interpretation timers: invariant_steps timer_step timers_ok
proof unfold_locales
  fix s s' :: timers and e
  assume a: "timers_ok s" "timer_step e s = Some s'"
  show "timers_ok s'"
  proof (cases e)
    case (Set_timeout msec cb)
    with a show ?thesis by (auto intro: set_timeout_ok)
  next
    case (Fire t)
    with a show ?thesis by (auto intro: fire_ok)
  next
    case Process
    with a process_api_ok [OF a(1)] show ?thesis by auto
  qed
qed

text \<open>The closures that a sequence of events hands over.\<close>

fun closures_set :: "timer_ev list \<Rightarrow> nat list" where
  "closures_set [] = []"
| "closures_set (Set_timeout msec cb # es) = cb # closures_set es"
| "closures_set (_ # es) = closures_set es"

lemma closures_set_append [simp]: "closures_set (es @ fs) = closures_set es @ closures_set fs"
  by (induction es rule: closures_set.induct) simp_all

text \<open>The closures that were called together with those that are still owned.\<close>

definition owed :: "timers \<Rightarrow> nat multiset" where
  "owed s = mset (called s) + image_mset (\<lambda>n. the (closures s n)) (mset (armed s @ api_sd s))"

lemma owed_set_timeout:
  assumes "timers_ok s" and "set_timeout True msec cb s = Some s'"
  shows "owed s' = owed s + {#cb#}"
proof -
  have "fresh s \<notin> set (armed s @ api_sd s)" using assms(1) unfolding timers_ok_def by blast
  then have "image_mset (\<lambda>n. the (((closures s)(fresh s \<mapsto> cb)) n)) (mset (armed s @ api_sd s)) =
      image_mset (\<lambda>n. the (closures s n)) (mset (armed s @ api_sd s))"
    by (intro image_mset_cong) auto
  with assms(2) show ?thesis by (auto simp: owed_def set_timeout_eq)
qed

lemma owed_fire:
  assumes "timers_ok s" and "fire t s = Some s'"
  shows "owed s' = owed s"
proof (cases "t \<in> set (armed s)")
  case False
  with assms(2) show ?thesis by (simp add: fire_def)
next
  case True
  with assms fire_eq [OF assms(1) True] have s': "s' = s\<lparr>armed := remove1 t (armed s), api_sd := api_sd s @ [t]\<rparr>"
    by (auto split: if_splits)
  have "mset (armed s' @ api_sd s') = mset (armed s @ api_sd s)"
    using True by (simp add: s')
  then show ?thesis by (simp only: owed_def) (simp add: s')
qed

lemma owed_process:
  assumes "timers_ok s" and "process_api s = Some s'"
  shows "owed s' = owed s"
proof (cases "api_sd s")
  case Nil
  with assms(2) show ?thesis by (auto simp: process_api_def xs_poll_next_def owed_def)
next
  case (Cons n q)
  from process_api_eq [OF assms(1) Cons] assms(2) obtain cb where cb: "closures s n = Some cb"
    and s': "s' = s\<lparr>c_timers := (c_timers s)(n := None), closures := (closures s)(n := None),
       arg_boxes := (arg_boxes s)(n := None), pp_boxes := (pp_boxes s)(n := None), api_sd := q, called := called s @ [cb]\<rparr>"
    by auto
  have "n \<notin> set (armed s @ q)" using assms(1) Cons by (auto simp: timers_ok_def)
  then have "image_mset (\<lambda>m. the (((closures s)(n := None)) m)) (mset (armed s @ q)) =
      image_mset (\<lambda>m. the (closures s m)) (mset (armed s @ q))"
    by (intro image_mset_cong) auto
  then show ?thesis by (simp add: owed_def s' Cons cb)
qed

lemma owed_run: "run_steps timer_step es timers_init = Some s \<Longrightarrow> owed s = mset (closures_set es)"
proof (induction es arbitrary: s rule: rev_induct)
  case Nil
  then show ?case by (auto simp: owed_def timers_init_def)
next
  case (snoc e es)
  then obtain t where t: "run_steps timer_step es timers_init = Some t" and s: "timer_step e t = Some s"
    by (auto simp: run_steps_append split: option.splits)
  have ok: "timers_ok t" using timers.inv_run [OF timers_ok_init t] .
  have ih: "owed t = mset (closures_set es)" using snoc.IH t by blast
  show ?case
  proof (cases e)
    case (Set_timeout msec cb)
    with s ih owed_set_timeout [OF ok] show ?thesis by simp
  next
    case (Fire x)
    with s ih owed_fire [OF ok] show ?thesis by simp
  next
    case Process
    with s ih owed_process [OF ok] show ?thesis by simp
  qed
qed

section \<open>Properties\<close>

text \<open>
  C12: Timers own their memory. In every interleaving of timers being set, expiring and being
  processed, what is allocated is exactly what the running and the pending timers need, and the
  closures called so far together with those still owned are the closures handed over, each as
  often as it was handed over: no timer, box or closure is freed twice, lost or called twice. A
  step fails only where a 64th expired timer is added before the task has taken one.
\<close>

theorem timers_own_memory:
  assumes "run_steps timer_step es timers_init = Some s"
  shows "dom (c_timers s) = set (armed s @ api_sd s) \<and> dom (closures s) = set (armed s @ api_sd s) \<and>
     dom (arg_boxes s) = set (armed s @ api_sd s) \<and> dom (pp_boxes s) = set (armed s @ api_sd s) \<and>
     mset (called s) + image_mset (\<lambda>n. the (closures s n)) (mset (armed s @ api_sd s)) = mset (closures_set es) \<and>
     (timer_step e s = None \<longleftrightarrow> (\<exists>t. e = Fire t \<and> t \<in> set (armed s) \<and> length (api_sd s) = 63))"
proof -
  have ok: "timers_ok s" using timers.inv_run [OF timers_ok_init assms] .
  have "timer_step e s = None \<longleftrightarrow> (\<exists>t. e = Fire t \<and> t \<in> set (armed s) \<and> length (api_sd s) = 63)"
  proof (cases e)
    case (Set_timeout msec cb)
    then show ?thesis by (simp add: set_timeout_eq)
  next
    case (Fire t)
    have "length (api_sd s) < 64" using ok by (simp add: timers_ok_def API_STREAM_SIZE_def)
    with Fire fire_eq [OF ok, of t] show ?thesis
      by (cases "t \<in> set (armed s)") (auto simp: fire_def)
  next
    case Process
    with process_api_ok [OF ok] show ?thesis by auto
  qed
  with ok owed_run [OF assms] show ?thesis by (simp add: timers_ok_def heaps_ok_def owed_def)
qed

theorem timers_own_memory_witness:
  "\<exists>s. run_steps timer_step [Set_timeout 5 8, Set_timeout 7 9, Fire 1, Process, Fire 0, Process] timers_init = Some s \<and>
     called s = [9, 8] \<and> dom (c_timers s) = {} \<and> dom (closures s) = {}"
proof -
  let ?es = "[Set_timeout 5 8, Set_timeout 7 9, Fire 1, Process, Fire 0, Process]"
  have "\<exists>s. run_steps timer_step ?es timers_init = Some s \<and> called s = [9, 8] \<and> armed s = [] \<and> api_sd s = []"
    by (simp add: set_timeout_eq timers_init_def fire_def add_xbd_timeout_callback_def xs_add_def API_STREAM_SIZE_def
        process_api_def xs_poll_next_def)
  then obtain s where s: "run_steps timer_step ?es timers_init = Some s" "called s = [9, 8]" "armed s = []" "api_sd s = []" by blast
  with timers_own_memory [OF s(1), of Process] show ?thesis by auto
qed

text \<open>
  A timeout that is polled again is ready whether or not its timer has fired: the second poll looks at
  the waker it took in the first one only.
\<close>

lemma timeout_ready_before_timer:
  assumes "timeout_poll True wake \<lparr>to_msec = ms, to_cb = cb, to_waker = True\<rparr> s = Some (p, c, f, s')"
  shows "p = Pending \<and> fresh s \<in> set (armed s') \<and>
     timeout_poll True wake f s' = Some (Ready (), cb, f\<lparr>to_cb := None\<rparr>, s')"
  using assms by (auto simp: timeout_poll_def set_timeout_eq)

text \<open>
  C24: Every socket event is handled once. In every interleaving of events and turns of the server
  task, the messages received are handled in the order of their arrival, those not handled yet are
  the ones in the stream, and every other event was handled when it arrived; an event fails to be
  taken exactly if it is a message and 63 are waiting.
\<close>

theorem sock_events_handled:
  assumes "run_steps server_step es \<lparr>server_sd = [], handled = []\<rparr> = Some s"
  shows "filter is_msg (handled s) @ server_sd s = filter is_msg (arrivals es) \<and>
     filter (\<lambda>e. \<not> is_msg e) (handled s) = filter (\<lambda>e. \<not> is_msg e) (arrivals es) \<and>
     (on_sock_evt e s = None \<longleftrightarrow> is_msg e \<and> length (server_sd s) = 63)"
proof -
  have *: "filter is_msg (handled s) @ server_sd s = filter is_msg (arrivals es) \<and>
     filter (\<lambda>e. \<not> is_msg e) (handled s) = filter (\<lambda>e. \<not> is_msg e) (arrivals es) \<and>
     (\<forall>e \<in> set (server_sd s). is_msg e) \<and> length (server_sd s) \<le> 63"
    using assms
  proof (induction es arbitrary: s rule: rev_induct)
    case Nil
    then show ?case by (auto simp: arrivals_def)
  next
    case (snoc x es)
    then obtain t where "run_steps server_step es \<lparr>server_sd = [], handled = []\<rparr> = Some t" and s: "server_step x t = Some s"
      by (auto simp: run_steps_append split: option.splits)
    with snoc.IH have ih: "filter is_msg (handled t) @ server_sd t = filter is_msg (arrivals es)"
      "filter (\<lambda>e. \<not> is_msg e) (handled t) = filter (\<lambda>e. \<not> is_msg e) (arrivals es)"
      "\<forall>e \<in> set (server_sd t). is_msg e" "length (server_sd t) \<le> 63" by blast+
    show ?case
    proof (cases x)
      case (Sock_evt e)
      have "arrivals (es @ [x]) = arrivals es @ [e]" by (simp add: arrivals_def Sock_evt)
      with s ih Sock_evt show ?thesis
        by (cases "is_msg e") (auto simp: on_sock_evt_def xs_add_def SERVER_STREAM_SIZE_def split: if_splits)
    next
      case Serve
      have "arrivals (es @ [x]) = arrivals es" by (simp add: arrivals_def Serve)
      with s ih Serve show ?thesis
        by (cases "server_sd t") (auto simp: process_gcoap_server_def xs_poll_next_def)
    qed
  qed
  then show ?thesis by (auto simp: on_sock_evt_def xs_add_def SERVER_STREAM_SIZE_def split: bind_splits)
qed

text \<open>A message, then the end of the connection it came on: the end is handled first.\<close>

theorem sock_events_handled_witness:
  "\<exists>s. run_steps server_step [Sock_evt (True, 7, 0x10, 0), Sock_evt (True, 7, 2, 0), Serve] \<lparr>server_sd = [], handled = []\<rparr> = Some s \<and>
     handled s = [(True, 7, 2, 0), (True, 7, 0x10, 0)] \<and> filter is_msg (handled s) @ server_sd s = [(True, 7, 0x10, 0)]"
proof -
  let ?es = "[Sock_evt (True, 7, 0x10, 0), Sock_evt (True, 7, 2, 0), Serve]"
  have m: "is_msg (True, 7, 0x10, 0)" "\<not> is_msg (True, 7, 2, 0)"
    by (simp_all add: is_msg_def SOCK_ASYNC_MSG_RECV_def)
  have "\<exists>s. run_steps server_step ?es \<lparr>server_sd = [], handled = []\<rparr> = Some s \<and>
      handled s = [(True, 7, 2, 0), (True, 7, 0x10, 0)]"
    by (simp add: on_sock_evt_def m xs_add_def SERVER_STREAM_SIZE_def process_gcoap_server_def xs_poll_next_def)
  then obtain s where s: "run_steps server_step ?es \<lparr>server_sd = [], handled = []\<rparr> = Some s"
    "handled s = [(True, 7, 2, 0), (True, 7, 0x10, 0)]" by blast
  moreover have "filter is_msg (arrivals ?es) = [(True, 7, 0x10, 0)]" by (simp add: arrivals_def m)
  ultimately show ?thesis using sock_events_handled [OF s(1)] by (intro exI [of _ s]) simp
qed

end
