(* ===== verification/Xbd_Main.thy ===== *)
theory Xbd_Main
  imports Async_Shell Border_Router Eth_Minimal Xbd_Events
begin

text \<open>
  The main programs. For \<^verbatim>\<open>examples/xbd-net\<close>: the file server with its constant file, the choice of the
  Ethernet set-up, the table of C functions handed to Rust and its use by name (\<^verbatim>\<open>src/xbd/mod.rs\<close>), and
  the order in which \<^verbatim>\<open>main\<close> starts the parts. For the small examples: what their \<^verbatim>\<open>main\<close> prints.
\<close>

section \<open>The file server\<close>

datatype fs_method = COAP_GET | COAP_PUT | COAP_MATCH_SUBTREE

record file_resource =
  fr_path :: string
  fr_methods :: "fs_method list"
  fr_context :: string

text \<open>\<open>vfs_default\<close> is RIOT's \<^verbatim>\<open>VFS_DEFAULT_DATA\<close>.\<close>

definition file_resources :: "string \<Rightarrow> file_resource list" where
  "file_resources vfs_default =
     [\<lparr>fr_path = ''/const'', fr_methods = [COAP_GET, COAP_MATCH_SUBTREE], fr_context = ''/const''\<rparr>,
      \<lparr>fr_path = ''/vfs'', fr_methods = [COAP_GET, COAP_PUT, COAP_MATCH_SUBTREE], fr_context = vfs_default\<rparr>]"

definition song_refrain :: string where
  "song_refrain =
     ''Join us now and share the software;'' @ nl @
     ''You'' @ [CHR 0x27] @ ''ll be free, hackers, you'' @ [CHR 0x27] @ ''ll be free.'' @ nl @
     ''Join us now and share the software;'' @ nl @
     ''You'' @ [CHR 0x27] @ ''ll be free, hackers, you'' @ [CHR 0x27] @ ''ll be free.'' @ nl"

text \<open>The array, with the terminator of the string literal.\<close>

definition song :: string where
  "song =
     song_refrain @ nl @
     ''Hoarders can get piles of money,'' @ nl @
     ''That is true, hackers, that is true.'' @ nl @
     ''But they cannot help their neighbors;'' @ nl @
     ''That'' @ [CHR 0x27] @ ''s not good, hackers, that'' @ [CHR 0x27] @ ''s not good.'' @ nl @ nl @
     ''When we have enough free software'' @ nl @
     ''At our call, hackers, at our call,'' @ nl @
     ''We'' @ [CHR 0x27] @ ''ll kick out those dirty licenses'' @ nl @
     ''Ever more, hackers, ever more.'' @ nl @ nl @
     song_refrain @ [NUL]"

record constfs_file =
  cf_path :: string
  cf_size :: nat
  cf_data :: string

definition constfs_files :: "constfs_file list" where
  "constfs_files = [\<lparr>cf_path = ''/song.txt'', cf_size = length song, cf_data = song\<rparr>]"

definition const_mount :: "string \<times> constfs_file list" where
  "const_mount = (''/const'', constfs_files)"

datatype fileserver_event =
    GCOAP_FILESERVER_GET_FILE_START | GCOAP_FILESERVER_GET_FILE_END
  | GCOAP_FILESERVER_PUT_FILE_START | GCOAP_FILESERVER_PUT_FILE_END
  | GCOAP_FILESERVER_DELETE_FILE

definition fileserver_event_cb :: "fileserver_event \<Rightarrow> string \<Rightarrow> string" where
  "fileserver_event_cb event path = ''gcoap fileserver: '' @
     (case event of
        GCOAP_FILESERVER_GET_FILE_START \<Rightarrow> ''Download started: ''
      | GCOAP_FILESERVER_GET_FILE_END \<Rightarrow> ''Download finished: ''
      | GCOAP_FILESERVER_PUT_FILE_START \<Rightarrow> ''Upload started: ''
      | GCOAP_FILESERVER_PUT_FILE_END \<Rightarrow> ''Upload finished: ''
      | GCOAP_FILESERVER_DELETE_FILE \<Rightarrow> ''Delete '') @ path @ nl"

section \<open>Functions handed to Rust\<close>

datatype xbd_fn = Xbd_usleep | Xbd_ztimer_msleep | Xbd_ztimer_set | Xbd_gcoap_req_send

definition xbd_fns :: "(string \<times> xbd_fn) list" where
  "xbd_fns = [(''xbd_usleep'', Xbd_usleep), (''xbd_ztimer_msleep'', Xbd_ztimer_msleep),
     (''xbd_ztimer_set'', Xbd_ztimer_set), (''xbd_gcoap_req_send'', Xbd_gcoap_req_send)]"

text \<open>
  \<^verbatim>\<open>init_once\<close> fills the cell with the table as a map; a second call panics. \<^verbatim>\<open>get_ptr\<close> panics without the
  cell or the name. A later entry of the same name replaces an earlier one.
\<close>

definition init_once :: "(string \<times> xbd_fn) list \<Rightarrow> (string \<rightharpoonup> xbd_fn) option \<Rightarrow> (string \<rightharpoonup> xbd_fn) option option" where
  "init_once fns cell = (case cell of None \<Rightarrow> Some (Some (map_of (rev fns))) | Some _ \<Rightarrow> None)"

definition get_ptr :: "(string \<rightharpoonup> xbd_fn) option \<Rightarrow> string \<Rightarrow> xbd_fn option" where
  "get_ptr cell name = do { fns \<leftarrow> cell; fns name }"

section \<open>The start\<close>

datatype eth_choice = Eth_default | Eth_minimal | Eth_manual

datatype boot_act =
    Msg_init_queue nat
  | Esp_eth_setup
  | Boot_eth eth_act
  | Boot_br br_act
  | Vfs_mount string
  | Register_listener "file_resource list"
  | Set_event_cb
  | Rustmod_start "string list"
  | Boot_print string

record boot_env =
  boot_eth_choice :: eth_choice
  boot_eth :: eth_env
  boot_br :: br_env
  boot_dev :: nat
  vfs_default_data :: string
  fileserver_callback :: bool
  boot_mtu :: u16
  boot_junk :: bytes

definition init_gcoap_fileserver :: "boot_env \<Rightarrow> boot_act list" where
  "init_gcoap_fileserver env =
     [Vfs_mount (fst const_mount), Register_listener (file_resources (vfs_default_data env))] @
     (if fileserver_callback env then [Set_event_cb] else [])"

text \<open>\<^verbatim>\<open>debug_esp32_eth_init\<close>: \<^const>\<open>None\<close> is a failed assertion or a null pointer on the way.\<close>

definition debug_esp32_eth_init :: "boot_env \<Rightarrow> eth_state \<Rightarrow> (int \<times> boot_act list) option" where
  "debug_esp32_eth_init env st =
     (case boot_eth_choice env of
        Eth_default \<Rightarrow> Some (0, [])
      | Eth_minimal \<Rightarrow>
          map_option (\<lambda>st'. (0, Esp_eth_setup # map Boot_eth (drop (length (eth_log st)) (eth_log st'))))
            (minerva_netdev_eth_minimal_init (boot_eth env) (boot_dev env) st)
      | Eth_manual \<Rightarrow>
          map_option (\<lambda>(r, as). (r, Esp_eth_setup # map Boot_br as)) (minerva_gnrc_esp_eth_init (boot_br env)))"

text \<open>
  \<^verbatim>\<open>main\<close>, without the blocks under \<^verbatim>\<open>if (0)\<close>: the set-up of the network, then the file server and the
  entry into Rust. The result is \<^const>\<open>None\<close> where Rust takes over, which does
  not return.
\<close>

definition xbd_net_serve :: "boot_env \<Rightarrow> boot_act list" where
  "xbd_net_serve env = init_gcoap_fileserver env @ [Rustmod_start (map fst xbd_fns)]"

definition xbd_net_main :: "boot_env \<Rightarrow> eth_state \<Rightarrow> (int option \<times> boot_act list) option" where
  "xbd_net_main env st =
     do { (eth, as) \<leftarrow> debug_esp32_eth_init env st;
          let bs = [Boot_print ''@@ [xbd-net] main(): ^^'', Msg_init_queue 16] @ as in
          if eth \<noteq> 0 then Some (Some 1, bs @ [Boot_print ''Error initializing eth devices''])
          else let ((outer, inner), cs) = find_ifces (boot_br env) (boot_mtu env);
                   (ret, ds) = set_ips (boot_br env) (boot_junk env) outer inner in
            Some (None, bs @ map Boot_br (cs @ ds) @ xbd_net_serve env) }"

section \<open>Small examples\<close>

text \<open>The Rust function of \<^verbatim>\<open>xbd-base\<close> and \<^verbatim>\<open>esp32-no_std\<close>, which panics where the product overflows.\<close>

definition square :: "int \<Rightarrow> int option" where
  "square input = (if input * input < 2 ^ 31 then Some (input * input) else None)"

definition square_report :: "int \<Rightarrow> int \<Rightarrow> string" where
  "square_report input output = ''riot: square('' @ dec_int input @ '') -> '' @ dec_int output @ nl"

definition xbd_base_main :: "string \<Rightarrow> string \<Rightarrow> string list option" where
  "xbd_base_main board mcu =
     do { output \<leftarrow> square 4;
          Some [''riot: RIOT_BOARD: '' @ board @ nl, ''riot: RIOT_MCU: '' @ mcu @ nl,
                ''riot: before calling rustmod'' @ nl, ''riot: after calling rustmod'' @ nl, square_report 4 output] }"

definition esp32_no_std_main :: "string list option" where
  "esp32_no_std_main =
     do { output \<leftarrow> square 4;
          Some [''riot: before calling rustmod'' @ nl, ''riot: after calling rustmod'' @ nl, square_report 4 output] }"

text \<open>\<open>start\<close> is the Rust function of \<^verbatim>\<open>xbd-psa\<close>: what it prints.\<close>

definition xbd_psa_main :: "string \<Rightarrow> string \<Rightarrow> string list \<Rightarrow> string list" where
  "xbd_psa_main board mcu start =
     [''riot: RIOT_BOARD: '' @ board @ nl, ''riot: RIOT_MCU: '' @ mcu @ nl, ''riot: before calling rustmod'' @ nl] @
     start @ [''riot: after calling rustmod'' @ nl]"

section \<open>Lemmas\<close>

text \<open>The order of strings by their characters, as the resources of a listener must have it.\<close>

fun path_less :: "string \<Rightarrow> string \<Rightarrow> bool" where
  "path_less _ [] = False"
| "path_less [] (_ # _) = True"
| "path_less (a # as) (b # bs) =
     ((of_char a :: nat) < of_char b \<or> a = b \<and> path_less as bs)"

lemma file_resources_sorted: "sorted_wrt path_less (map fr_path (file_resources v))"
  by (simp add: file_resources_def)

text \<open>The size of the file is the 599 bytes the listing in the source shows; the last is the terminator.\<close>

lemma song_size: "length song = 599" and song_last: "last song = NUL"
  by (simp_all add: song_def song_refrain_def)

lemma constfs_song: "constfs_files = [\<lparr>cf_path = ''/song.txt'', cf_size = 599, cf_data = song\<rparr>]"
  by (simp add: constfs_files_def song_size)

lemma esp32_no_std_prints_16: "square_report 4 16 \<in> set (the esp32_no_std_main)"
  by (simp add: esp32_no_std_main_def square_def)

section \<open>Properties\<close>

text \<open>
  Rust finds the C functions it calls. After the one call of \<^verbatim>\<open>init_once\<close> that the start makes,
  each of the names under which Rust looks up a function gives the C function of that name and
  nothing else is found, and no later call of \<^verbatim>\<open>init_once\<close> gets through.
\<close>

lemma xbd_fns_found:
  "\<exists>cell. init_once xbd_fns None = Some cell \<and>
     get_ptr cell ''xbd_usleep'' = Some Xbd_usleep \<and> get_ptr cell ''xbd_ztimer_msleep'' = Some Xbd_ztimer_msleep \<and>
     get_ptr cell ''xbd_ztimer_set'' = Some Xbd_ztimer_set \<and> get_ptr cell ''xbd_gcoap_req_send'' = Some Xbd_gcoap_req_send \<and>
     (\<forall>name. get_ptr cell name \<noteq> None \<longleftrightarrow> name \<in> fst ` set xbd_fns) \<and> init_once fns cell = None"
proof -
  have "map_of (rev xbd_fns) name \<noteq> None \<longleftrightarrow> name \<in> fst ` set xbd_fns" for name
    by (simp add: map_of_eq_None_iff)
  then show ?thesis by (simp add: init_once_def get_ptr_def) (simp add: xbd_fns_def)
qed

text \<open>
  The firmware starts whatever the network does. In the default build \<^verbatim>\<open>main\<close> always reaches Rust;
  before that it has looked for the interfaces, tried to set their addresses, mounted the constant
  file system and registered the file server, in this order, and the result of the address set-up
  makes no difference to what follows.
\<close>

lemma main_reaches_rust:
  assumes "boot_eth_choice env = Eth_default"
  shows "\<exists>cs ds. xbd_net_main env st = Some (None,
       [Boot_print ''@@ [xbd-net] main(): ^^'', Msg_init_queue 16] @ map Boot_br (cs @ ds) @
       init_gcoap_fileserver env @ [Rustmod_start (map fst xbd_fns)]) \<and>
     cs = snd (find_ifces (boot_br env) (boot_mtu env)) \<and>
     ds = snd (case fst (find_ifces (boot_br env) (boot_mtu env)) of (outer, inner) \<Rightarrow>
             set_ips (boot_br env) (boot_junk env) outer inner)"
proof -
  define start where "start = [Boot_print ''@@ [xbd-net] main(): ^^'', Msg_init_queue 16]"
  obtain outer inner cs where f: "find_ifces (boot_br env) (boot_mtu env) = ((outer, inner), cs)"
    by (metis prod.exhaust)
  obtain ret ds where s: "set_ips (boot_br env) (boot_junk env) outer inner = (ret, ds)" by fastforce
  show ?thesis
    unfolding xbd_net_main_def debug_esp32_eth_init_def assms start_def [symmetric] f
    by (simp add: s xbd_net_serve_def)
qed

definition boot_demo :: boot_env where
  "boot_demo = \<lparr>boot_eth_choice = Eth_default, boot_eth = eth_demo, boot_br = br_demo\<lparr>netifs := []\<rparr>, boot_dev = 0,
     vfs_default_data = ''/nvm0'', fileserver_callback = False, boot_mtu = 0, boot_junk = []\<rparr>"

text \<open>A start without any interface.\<close>

lemma main_reaches_rust_witness:
  "\<exists>acts. xbd_net_main boot_demo (eth_init eth_demo) = Some (None, acts) \<and>
     Boot_br (Br_print ''Failed getting outer gnrc interface.'') \<in> set acts \<and> Rustmod_start (map fst xbd_fns) \<in> set acts"
proof -
  have c: "boot_eth_choice boot_demo = Eth_default" by (simp add: boot_demo_def)
  have f: "fst (find_ifces (boot_br boot_demo) (boot_mtu boot_demo)) = (None, None)"
    by (simp add: boot_demo_def find_ifces_def)
  have s: "snd (set_ips (boot_br boot_demo) (boot_junk boot_demo) None None) = [Br_print ''Failed getting outer gnrc interface.'']"
    by (simp add: set_ips_def)
  from main_reaches_rust [OF c, of "eth_init eth_demo", unfolded f prod.case s] show ?thesis
    by (elim exE conjE) (intro exI conjI, assumption, simp_all)
qed

text \<open>
  The branch of \<^verbatim>\<open>main\<close> that reports a failed Ethernet set-up is never taken: the initialisation returns
  zero or stops at an assertion.
\<close>

lemma eth_error_branch_dead: "debug_esp32_eth_init env st = Some (r, as) \<Longrightarrow> r = 0"
  by (auto simp: debug_esp32_eth_init_def minerva_gnrc_esp_eth_init_def split: eth_choice.splits if_splits)

end
