(* ===== verification/Gcoap_Api.thy ===== *)
theory Gcoap_Api
  imports Studio_Prelude
begin

text \<open>
  What the CoAP parts of \<^verbatim>\<open>examples/xbd-net\<close> share: packets, the log of what the program
  does, the static variables of \<^verbatim>\<open>minerva_gcoap/client.c\<close> and \<^verbatim>\<open>minerva_gcoap/server.c\<close>,
  and RIOT's \<^verbatim>\<open>gcoap\<close>/\<^verbatim>\<open>nanocoap\<close>/\<^verbatim>\<open>sock\<close> libraries as the record \<open>gcoap_env\<close>. The
  libraries are not part of the repository; an answer that can change over time takes the
  log. What the code relies on of them is stated as named predicates, from their
  documentation, and only where a property needs it.
\<close>

section \<open>Data\<close>

datatype coap_type = COAP_TYPE_CON | COAP_TYPE_NON | COAP_TYPE_ACK | COAP_TYPE_RST

datatype coap_code = COAP_CODE_CONTENT | COAP_CODE_CHANGED | COAP_CODE_BAD_REQUEST
  | COAP_CODE_INTERNAL_SERVER_ERROR

datatype memo_state = GCOAP_MEMO_UNUSED | GCOAP_MEMO_RETRANSMIT | GCOAP_MEMO_WAIT | GCOAP_MEMO_RESP
  | GCOAP_MEMO_TIMEOUT | GCOAP_MEMO_ERR | GCOAP_MEMO_RESP_TRUNC

text \<open>The values the memo states have in \<^verbatim>\<open>src/xbd/gcoap.rs\<close>, lines 25-31.\<close>

fun memo_num :: "memo_state \<Rightarrow> u8" where
  "memo_num GCOAP_MEMO_UNUSED = 0"
| "memo_num GCOAP_MEMO_RETRANSMIT = 1"
| "memo_num GCOAP_MEMO_WAIT = 2"
| "memo_num GCOAP_MEMO_RESP = 3"
| "memo_num GCOAP_MEMO_TIMEOUT = 4"
| "memo_num GCOAP_MEMO_ERR = 5"
| "memo_num GCOAP_MEMO_RESP_TRUNC = 6"

record coap_block =
  blknum :: u32
  szx :: u8
  more_blocks :: bool

datatype coap_opt = Format u16 | Block2 coap_block | ProxyUri string

text \<open>
  \<^verbatim>\<open>coap_pkt_t\<close>: the array \<^verbatim>\<open>hdr\<close> points to, the payload as an offset into it with its
  length (the room left, while a packet is being written), and the options.
\<close>

record coap_pkt =
  pk_buf :: bytes
  pk_payload :: nat
  pk_payload_len :: nat
  pk_opts :: "coap_opt list"

definition payload_bytes :: "coap_pkt \<Rightarrow> bytes" where
  "payload_bytes pk = take (pk_payload_len pk) (drop (pk_payload pk) (pk_buf pk))"

datatype obs_init = GCOAP_OBS_INIT_OK | GCOAP_OBS_INIT_UNUSED | GCOAP_OBS_INIT_ERR

text \<open>The request contexts and response handlers passed through the library.\<close>

datatype gctx = NoCtx | Fstat nat
datatype ghandler = CliHandler | XbdHandler

record gmemo =
  memo_st :: memo_state
  memo_ctx :: gctx

datatype gcoap_ev =
    GOut string
  | GDump bytes
  | GReq bytes sock_ep ghandler gctx
  | GReqInit
  | GName2ep string
  | GObsInit string
  | GObsSend bytes string
  | GCredman
  | GDtlsCred
  | GRegister

type_synonym glog = "gcoap_ev list"

record gcoap_env =
  gcoap_dtls :: bool
  gcoap_port :: u16
  gcoaps_port :: u16
  pdu_buf_size :: nat
  flag_get :: u32
  flag_post :: u32
  flag_put :: u32
  method2flag :: "u8 \<Rightarrow> u32"
  format_text :: u16
  format_link :: u16
  get_id :: "coap_pkt \<Rightarrow> u16"
  get_type :: "coap_pkt \<Rightarrow> coap_type"
  get_class :: "coap_pkt \<Rightarrow> u8"
  get_detail :: "coap_pkt \<Rightarrow> u8"
  get_ctype :: "coap_pkt \<Rightarrow> u16"
  get_block2 :: "coap_pkt \<Rightarrow> coap_block option"
  set_type :: "coap_type \<Rightarrow> coap_pkt \<Rightarrow> coap_pkt"
  opt_add :: "coap_opt \<Rightarrow> coap_pkt \<Rightarrow> coap_pkt"
  opt_finish :: "bool \<Rightarrow> coap_pkt \<Rightarrow> int \<times> coap_pkt"  \<comment> \<open>\<^const>\<open>True\<close>: \<^verbatim>\<open>COAP_OPT_FINISH_PAYLOAD\<close>\<close>
  req_init :: "glog \<Rightarrow> bytes \<Rightarrow> u8 \<Rightarrow> string option \<Rightarrow> coap_pkt"  \<comment> \<open>buffer, method, path\<close>
  resp_init :: "coap_code \<Rightarrow> coap_pkt \<Rightarrow> coap_pkt"
  response :: "coap_code \<Rightarrow> coap_pkt \<Rightarrow> int \<times> coap_pkt"
  req_send :: "glog \<Rightarrow> bytes \<Rightarrow> sock_ep \<Rightarrow> int"
  obs_init :: "glog \<Rightarrow> nat \<Rightarrow> string \<Rightarrow> obs_init \<times> coap_pkt"
  name2ep :: "glog \<Rightarrow> sock_ep \<Rightarrow> string \<Rightarrow> int \<times> sock_ep"  \<comment> \<open>old and new contents of the endpoint\<close>
  ntop :: "sock_ep \<Rightarrow> string"
  op_state :: "glog \<Rightarrow> u8"
  dsm_slots :: "glog \<Rightarrow> int \<times> int"
  fmt_u16_dec :: "u16 \<Rightarrow> string"
  fmt_ptr :: "bytes option \<Rightarrow> string"  \<comment> \<open>\<^verbatim>\<open>%p\<close>\<close>
  credman_add :: "glog \<Rightarrow> int"
  credman_exist :: int
  dtls_add_credential :: "glog \<Rightarrow> int"
  encode_link :: "string \<Rightarrow> nat \<Rightarrow> nat \<Rightarrow> int \<times> string"  \<comment> \<open>path, position, room; result and text\<close>

text \<open>The static variables of \<^verbatim>\<open>client.c\<close> and \<^verbatim>\<open>server.c\<close>, and the log.\<close>

record gcoap_app =
  proxied :: bool
  proxy_remote :: sock_ep
  proxy_uri :: "char list"
  last_req_path :: "char list"
  req_count :: u16
  server_init_done :: bool
  g_log :: glog

definition LAST_REQ_PATH_MAX :: nat where "LAST_REQ_PATH_MAX = 64"
definition PROXY_URI_MAX :: nat where "PROXY_URI_MAX = 64"

definition zero_ep :: sock_ep where
  "zero_ep = \<lparr>family = AF_UNSPEC, addr = replicate 16 0, netif = 0, port = 0\<rparr>"

definition gcoap_start :: gcoap_app where
  "gcoap_start = \<lparr>proxied = False, proxy_remote = zero_ep, proxy_uri = replicate PROXY_URI_MAX NUL,
     last_req_path = replicate LAST_REQ_PATH_MAX NUL, req_count = 0, server_init_done = False, g_log = []\<rparr>"

section \<open>Effects\<close>

definition gemit :: "gcoap_ev \<Rightarrow> gcoap_app \<Rightarrow> gcoap_app" where
  "gemit e s = s\<lparr>g_log := g_log s @ [e]\<rparr>"

abbreviation gprintf :: "string \<Rightarrow> gcoap_app \<Rightarrow> gcoap_app" where
  "gprintf t \<equiv> gemit (GOut t)"

abbreviation gputs :: "string \<Rightarrow> gcoap_app \<Rightarrow> gcoap_app" where
  "gputs t \<equiv> gemit (GOut (t @ nl))"

lemma gemit_simps [simp]:
  "g_log (gemit e s) = g_log s @ [e]"
  "proxied (gemit e s) = proxied s"
  "proxy_remote (gemit e s) = proxy_remote s"
  "proxy_uri (gemit e s) = proxy_uri s"
  "last_req_path (gemit e s) = last_req_path s"
  "req_count (gemit e s) = req_count s"
  "server_init_done (gemit e s) = server_init_done s"
  by (simp_all add: gemit_def)

text \<open>A packet buffer on the stack; its initial contents are never read.\<close>

definition stack_buf :: "gcoap_env \<Rightarrow> bytes" where
  "stack_buf env = replicate (pdu_buf_size env) 0"

lemma length_stack_buf [simp]: "length (stack_buf env) = pdu_buf_size env"
  by (simp add: stack_buf_def)

text \<open>The default port of an endpoint that has none, as four places of the code fill it in.\<close>

definition default_port :: "gcoap_env \<Rightarrow> sock_ep \<Rightarrow> sock_ep" where
  "default_port env ep =
     (if port ep = 0 then ep\<lparr>port := (if gcoap_dtls env then gcoaps_port env else gcoap_port env)\<rparr>
      else ep)"

text \<open>
  \<^verbatim>\<open>gcoap_req_send(buf, len, remote, handler, context)\<close>: the library reads \<^verbatim>\<open>len\<close> bytes of
  \<^verbatim>\<open>buf\<close>, which is undefined if there are not as many.
\<close>

definition gcoap_req_send ::
  "gcoap_env \<Rightarrow> bytes \<Rightarrow> u32 \<Rightarrow> sock_ep \<Rightarrow> ghandler \<Rightarrow> gctx \<Rightarrow> gcoap_app \<Rightarrow> (int \<times> gcoap_app) option" where
  "gcoap_req_send env buf len remote handler ctx s =
     (if length buf < unat len then None
      else (let msg = take (unat len) buf
            in Some (req_send env (g_log s) msg remote, gemit (GReq msg remote handler ctx) s)))"

text \<open>Writing a string at the payload of a packet.\<close>

definition put_payload :: "string \<Rightarrow> coap_pkt \<Rightarrow> coap_pkt option" where
  "put_payload t pk =
     map_option (\<lambda>b. pk\<lparr>pk_buf := b\<rparr>) (mem_write (pk_payload pk) (bytes_of t) (pk_buf pk))"

text \<open>The requests that left the device.\<close>

fun is_req :: "gcoap_ev \<Rightarrow> bool" where
  "is_req (GReq _ _ _ _) = True"
| "is_req _ = False"

definition reqs :: "gcoap_app \<Rightarrow> gcoap_ev list" where
  "reqs s = filter is_req (g_log s)"

lemma reqs_gemit [simp]: "reqs (gemit e s) = (if is_req e then reqs s @ [e] else reqs s)"
  by (simp add: reqs_def)

section \<open>Documented behaviour\<close>

text \<open>
  \<^verbatim>\<open>coap_opt_finish\<close> writes the header and the options into the packet's buffer and returns
  their length; the payload follows them, with the rest of the buffer as its room. With the
  payload flag a packet that does not fit is an error, and then no payload room is left.
\<close>

definition finish_law :: "gcoap_env \<Rightarrow> bool" where
  "finish_law env \<longleftrightarrow> (\<forall>mark pk. case opt_finish env mark pk of (n, pk') \<Rightarrow>
     length (pk_buf pk') = length (pk_buf pk) \<and>
     (0 \<le> n \<longrightarrow> pk_payload pk' = nat n \<and> nat n + pk_payload_len pk' = length (pk_buf pk')) \<and>
     (n < 0 \<longrightarrow> pk_payload_len pk' = 0))"

text \<open>Initialising a packet gives it the buffer, and adding options keeps it.\<close>

definition init_law :: "gcoap_env \<Rightarrow> bool" where
  "init_law env \<longleftrightarrow> (\<forall>log b m p. length (pk_buf (req_init env log b m p)) = length b) \<and>
     (\<forall>log n p. length (pk_buf (snd (obs_init env log n p))) = n) \<and>
     (\<forall>c pk. length (pk_buf (resp_init env c pk)) = length (pk_buf pk)) \<and>
     (\<forall>t pk. length (pk_buf (set_type env t pk)) = length (pk_buf pk)) \<and>
     (\<forall>opt pk. length (pk_buf (opt_add env opt pk)) = length (pk_buf pk))"

text \<open>\<^verbatim>\<open>fmt_u16_dec\<close> prints a number in decimal.\<close>

definition fmt_law :: "gcoap_env \<Rightarrow> bool" where
  "fmt_law env \<longleftrightarrow> (\<forall>n. fmt_u16_dec env n = dec (unat n))"

text \<open>The method flags are distinct and belong to the CoAP method codes 1, 2 and 3.\<close>

definition flag_law :: "gcoap_env \<Rightarrow> bool" where
  "flag_law env \<longleftrightarrow> distinct [flag_get env, flag_post env, flag_put env] \<and>
     method2flag env 1 = flag_get env \<and> method2flag env 2 = flag_post env \<and>
     method2flag env 3 = flag_put env"

lemma finish_lawD:
  assumes "finish_law env" and "opt_finish env mark pk = (n, pk')"
  shows "length (pk_buf pk') = length (pk_buf pk)"
    and "0 \<le> n \<Longrightarrow> pk_payload pk' = nat n \<and> nat n + pk_payload_len pk' = length (pk_buf pk')"
    and "n < 0 \<Longrightarrow> pk_payload_len pk' = 0"
  using assms by (auto simp: finish_law_def split: prod.splits)

section \<open>An instance\<close>

text \<open>
  A library for the witnesses: packets of 4 header bytes in a buffer of 128, and two for each
  option added; methods have the flags 1, 2 and 4 and are read from the second byte.
\<close>

definition demo_finish :: "bool \<Rightarrow> coap_pkt \<Rightarrow> int \<times> coap_pkt" where
  "demo_finish mark pk =
     (let n = (if mark then 5 + 2 * length (pk_opts pk)
               else min (4 + 2 * length (pk_opts pk)) (length (pk_buf pk))) in
      if n \<le> length (pk_buf pk)
      then (int n, pk\<lparr>pk_payload := n, pk_payload_len := length (pk_buf pk) - n\<rparr>)
      else (- 28, pk\<lparr>pk_payload_len := 0\<rparr>))"

definition demo_pkt :: "nat \<Rightarrow> u8 \<Rightarrow> coap_pkt" where
  "demo_pkt n m = \<lparr>pk_buf = (replicate n 0)[1 := m], pk_payload = 4, pk_payload_len = 0, pk_opts = []\<rparr>"

definition gcoap_demo :: gcoap_env where
  "gcoap_demo = \<lparr>gcoap_dtls = False, gcoap_port = 5683, gcoaps_port = 5684, pdu_buf_size = 128,
     flag_get = 1, flag_post = 2, flag_put = 4,
     method2flag = (\<lambda>m. if m = 1 then 1 else if m = 2 then 2 else if m = 3 then 4 else 0),
     format_text = 0, format_link = 40, get_id = (\<lambda>_. 7), get_type = (\<lambda>_. COAP_TYPE_ACK),
     get_class = (\<lambda>_. 2), get_detail = (\<lambda>pk. if 1 < length (pk_buf pk) then pk_buf pk ! 1 else 0),
     get_ctype = (\<lambda>_. 0),
     get_block2 = (\<lambda>pk. case pk_opts pk of [Block2 b] \<Rightarrow> Some b | _ \<Rightarrow> None),
     set_type = (\<lambda>_ pk. pk), opt_add = (\<lambda>opt pk. pk\<lparr>pk_opts := pk_opts pk @ [opt]\<rparr>),
     opt_finish = demo_finish, req_init = (\<lambda>_ b m _. (demo_pkt 0 m)\<lparr>pk_buf := b[1 := m]\<rparr>),
     resp_init = (\<lambda>_ pk. pk\<lparr>pk_opts := []\<rparr>), response = (\<lambda>_ pk. (4, pk)),
     req_send = (\<lambda>_ msg _. int (length msg)),
     obs_init = (\<lambda>_ n _. (GCOAP_OBS_INIT_OK, demo_pkt n 1)),
     name2ep = (\<lambda>_ _ _. (0, zero_ep\<lparr>family := AF_INET6\<rparr>)), ntop = (\<lambda>_. ''::1''),
     op_state = (\<lambda>_. 0), dsm_slots = (\<lambda>_. (1, 1)), fmt_u16_dec = (\<lambda>n. dec (unat n)), fmt_ptr = (\<lambda>_. ''0x0''),
     credman_add = (\<lambda>_. 0), credman_exist = - 1, dtls_add_credential = (\<lambda>_. 0),
     encode_link = (\<lambda>path pos n. if length path \<le> n then (int (length path), path) else (- 28, []))\<rparr>"

lemma demo_laws: "finish_law gcoap_demo" "init_law gcoap_demo" "fmt_law gcoap_demo" "flag_law gcoap_demo"
proof -
  have "opt_finish gcoap_demo = demo_finish" by (simp add: gcoap_demo_def)
  then show "finish_law gcoap_demo" by (auto simp: finish_law_def demo_finish_def Let_def)
qed (simp_all add: init_law_def fmt_law_def flag_law_def gcoap_demo_def demo_pkt_def)

end
