(* ===== verification/Gcoap_Server.thy ===== *)
theory Gcoap_Server
  imports Gcoap_Api
begin

text \<open>
  The CoAP server side of \<^verbatim>\<open>examples/xbd-net\<close>, \<^verbatim>\<open>modules/minerva_gcoap/server.c\<close>: the
  resource table and its link parameters, the handlers of \<^verbatim>\<open>/cli/stats\<close> and
  \<^verbatim>\<open>/riot/board\<close>, the observe notification and the one-time start. A handler gets the
  packet with its buffer, and returns the length of the response, the packet it wrote and
  the new state; a write past the buffer is \<^const>\<open>None\<close>.
\<close>

section \<open>Resources\<close>

definition resources :: "gcoap_env \<Rightarrow> (string \<times> u32) list" where
  "resources env =
     [(''/cli/stats'', flag_get env OR flag_post env OR flag_put env),
      (''/riot/board'', flag_get env)]"

definition link_params :: "string option list" where
  "link_params = [Some ('';ct=0;rt='' @ [CHR 0x22] @ ''count'' @ [CHR 0x22] @ '';obs''), None]"

text \<open>\<^verbatim>\<open>_encode_link\<close>: \<^verbatim>\<open>buf\<close> is \<^const>\<open>None\<close> when only the length is asked for.\<close>

definition encode_link_minerva ::
  "gcoap_env \<Rightarrow> string \<Rightarrow> nat \<Rightarrow> char list option \<Rightarrow> u32 \<Rightarrow> (int \<times> char list option) option" where
  "encode_link_minerva env path pos buf maxlen =
     (let (res, text) = encode_link env path pos (unat maxlen) in
      do {
        buf \<leftarrow> (case buf of None \<Rightarrow> Some None | Some b \<Rightarrow> map_option Some (mem_write 0 text b));
        if res > 0 then
          (if length link_params \<le> pos then None
           else
             (case link_params ! pos of
                None \<Rightarrow> Some (res, buf)
              | Some p \<Rightarrow>
                  if word_of_nat (length p) < maxlen - word_of_int res then
                    do {
                      buf \<leftarrow> (case buf of None \<Rightarrow> Some None
                              | Some b \<Rightarrow> map_option Some (mem_write (nat res) p b));
                      Some (res + int (length p), buf)
                    }
                  else Some (res, buf)))
        else Some (res, buf)
      })"

section \<open>Handlers\<close>

definition stats_handler ::
  "gcoap_env \<Rightarrow> coap_pkt \<Rightarrow> gcoap_app \<Rightarrow> (int \<times> coap_pkt \<times> gcoap_app) option" where
  "stats_handler env pk s =
     (let method_flag = method2flag env (get_detail env pk);
          s = gprintf (''@@ _stats_handler(): method_flag: '' @ dec_int (sint method_flag) @
                '' (1=GET,2=POST,3=PUT)'' @ nl) s
      in if method_flag = flag_get env then
           (let pk = opt_add env (Format (format_text env)) (resp_init env COAP_CODE_CONTENT pk);
                (n, pk) = opt_finish env True pk;
                t = fmt_u16_dec env (req_count s)
            in do {
                 pk \<leftarrow> put_payload t pk;
                 Some (sint (word_of_int n + word_of_nat (length t) :: u32), pk, s)
               })
         else if method_flag = flag_post env \<or> method_flag = flag_put env then
           (let s = gprintf (''@@ _stats_handler(): pdu->payload_len: '' @
                  dec (pk_payload_len pk) @ nl) s
            in if pk_payload_len pk \<le> 5 then
                 do {
                   payload \<leftarrow> mem_write 0 (string_of (payload_bytes pk)) (replicate 6 NUL);
                   let (n, pk) = response env COAP_CODE_CHANGED pk;
                   Some (n, pk, s\<lparr>req_count := ucast (strtoul (cstr payload))\<rparr>)
                 }
               else
                 (let (n, pk) = response env COAP_CODE_BAD_REQUEST pk in Some (n, pk, s)))
         else Some (0, pk, s))"

definition riot_stats_handler_minerva ::
  "gcoap_env \<Rightarrow> coap_pkt \<Rightarrow> gcoap_app \<Rightarrow> (int \<times> coap_pkt \<times> gcoap_app) option" where
  "riot_stats_handler_minerva env pk s =
     stats_handler env pk (gprintf (''@@ riot_stats_handler_minerva(): ^^'' @ nl) s)"

definition riot_board_handler_minerva ::
  "gcoap_env \<Rightarrow> coap_pkt \<Rightarrow> string \<Rightarrow> gcoap_app \<Rightarrow> (int \<times> coap_pkt \<times> gcoap_app) option" where
  "riot_board_handler_minerva env pk board s =
     (let s = gprintf (''@@ riot_board_handler_minerva(): baord: '' @ board @ nl) s;
          pk = opt_add env (Format (format_text env)) (resp_init env COAP_CODE_CONTENT pk);
          (n, pk) = opt_finish env True pk
      in if length board \<le> pk_payload_len pk then
           do {
             pk \<leftarrow> put_payload board pk;
             Some (sint (word_of_int n + word_of_nat (length board) :: u32), pk, s)
           }
         else
           (let s = gputs ''gcoap_cli: msg buffer too small'' s;
                (n, pk) = response env COAP_CODE_INTERNAL_SERVER_ERROR pk
            in Some (n, pk, s)))"

definition notify_observers :: "gcoap_env \<Rightarrow> gcoap_app \<Rightarrow> gcoap_app option" where
  "notify_observers env s =
     (let (r, pk) = obs_init env (g_log s) (pdu_buf_size env) ''/cli/stats'';
          s = gemit (GObsInit ''/cli/stats'') s
      in case r of
           GCOAP_OBS_INIT_OK \<Rightarrow>
             (let s = gprintf (''gcoap_cli: creating /cli/stats notification'' @ nl) s;
                  (n, pk) = opt_finish env True (opt_add env (Format (format_text env)) pk);
                  t = fmt_u16_dec env (req_count s);
                  len = (word_of_int n + word_of_nat (length t) :: u32)
              in do {
                   pk \<leftarrow> put_payload t pk;
                   if length (pk_buf pk) < unat len then None
                   else Some (gemit (GObsSend (take (unat len) (pk_buf pk)) ''/cli/stats'') s)
                 })
         | GCOAP_OBS_INIT_UNUSED \<Rightarrow>
             Some (gprintf (''gcoap_cli: no observer for /cli/stats'' @ nl) s)
         | GCOAP_OBS_INIT_ERR \<Rightarrow>
             Some (gprintf (''gcoap_cli: error initializing /cli/stats notification'' @ nl) s))"

section \<open>Start\<close>

definition server_state :: "gcoap_app \<Rightarrow> bool" where
  "server_state s = server_init_done s"

definition server_init :: "gcoap_env \<Rightarrow> gcoap_app \<Rightarrow> int \<times> gcoap_app" where
  "server_init env s =
     (if server_init_done s then (1, gputs ''@@ server_init(): already initialized, NOP'' s)
      else
        (let s = s\<lparr>server_init_done := True\<rparr>
         in if gcoap_dtls env then
              (let res = credman_add env (g_log s);
                   s = gemit GCredman s
               in if res < 0 \<and> res \<noteq> credman_exist env then
                    (2, gprintf (''gcoap: cannot add credential to system: '' @ dec_int res @ nl) s)
                  else
                    (let res = dtls_add_credential env (g_log s);
                         s = gemit GDtlsCred s;
                         s = (if res < 0 then
                                gprintf (''gcoap: cannot add credential to DTLS sock: '' @ dec_int res @ nl) s
                              else s)
                     in (0, gemit GRegister s)))
            else (0, gemit GRegister s)))"

section \<open>Lemmas\<close>

text \<open>Writing at the payload of a finished packet.\<close>

lemma put_payload_finished:
  assumes "finish_law env" and "opt_finish env True pk = (n, pk')" and "0 \<le> n"
  shows "put_payload t pk' = (if length t \<le> pk_payload_len pk'
     then Some (pk'\<lparr>pk_buf := take (nat n) (pk_buf pk') @ bytes_of t @ drop (nat n + length t) (pk_buf pk')\<rparr>)
     else None)"
proof -
  note law = finish_lawD(2) [OF assms]
  then show ?thesis by (auto simp: put_payload_def mem_write_def)
qed

text \<open>The number a request for \<^verbatim>\<open>/cli/stats\<close> stores, for any payload that is not refused.\<close>

definition stored_count :: "coap_pkt \<Rightarrow> u16" where
  "stored_count pk = ucast (strtoul (cstr (string_of (payload_bytes pk) @ [NUL])))"

lemma cstr_pad: "cstr (s @ NUL # replicate k NUL) = cstr (s @ [NUL])"
  by (auto simp: cstr_def takeWhile_append)

lemma stats_put_count:
  assumes "method2flag env (get_detail env pk) \<in> {flag_post env, flag_put env}" and "flag_law env"
    and "pk_payload_len pk \<le> 5"
  shows "\<exists>pk' s'. stats_handler env pk s = Some (fst (response env COAP_CODE_CHANGED pk), pk', s') \<and>
     req_count s' = stored_count pk"
proof -
  let ?p = "string_of (payload_bytes pk)"
  have len: "length ?p \<le> 5" using assms(3) by (simp add: payload_bytes_def)
  then have "6 - length ?p = Suc (5 - length ?p)" by linarith
  with len have "mem_write 0 ?p (replicate 6 NUL) = Some (?p @ replicate (Suc (5 - length ?p)) NUL)"
    by (simp add: mem_write_def)
  moreover have "method2flag env (get_detail env pk) \<noteq> flag_get env"
    using assms(1,2) by (auto simp: flag_law_def)
  ultimately show ?thesis using assms(1,3)
    by (auto simp: stats_handler_def Let_def stored_count_def cstr_pad split: prod.splits)
qed

lemma stored_count_dec:
  assumes "payload_bytes pk = bytes_of (dec n)" and "n < 10 ^ 5"
  shows "stored_count pk = word_of_nat n"
proof -
  have "cstr (dec n @ [NUL]) = dec n" by (rule cstr_append_NUL) (rule NUL_notin_dec)
  moreover from assms(2) have "strtoul (dec n) = word_of_nat n" by (simp add: strtoul_dec)
  moreover from assms(2) have "(ucast (word_of_nat n :: u32) :: u16) = word_of_nat n"
    by (simp add: unsigned_of_nat take_bit_nat_eq_self)
  ultimately show ?thesis by (simp add: stored_count_def assms(1))
qed

text \<open>The packet a GET of \<^verbatim>\<open>/cli/stats\<close> starts from, and what the handler makes of it.\<close>

definition stats_reply :: "gcoap_env \<Rightarrow> coap_pkt \<Rightarrow> int \<times> coap_pkt" where
  "stats_reply env pk =
     opt_finish env True (opt_add env (Format (format_text env)) (resp_init env COAP_CODE_CONTENT pk))"

lemma stats_get:
  assumes "method2flag env (get_detail env pk) = flag_get env" and "finish_law env"
    and "stats_reply env pk = (n, pk1)" and "0 \<le> n"
  shows "map_option (\<lambda>(r, pk, _). (r, pk)) (riot_stats_handler_minerva env pk s) =
     (let t = fmt_u16_dec env (req_count s)
      in if length t \<le> pk_payload_len pk1
         then Some (sint (word_of_int n + word_of_nat (length t) :: u32),
           pk1\<lparr>pk_buf := take (nat n) (pk_buf pk1) @ bytes_of t @ drop (nat n + length t) (pk_buf pk1)\<rparr>)
         else None)"
  using assms put_payload_finished [OF assms(2), of _ n pk1]
  by (auto simp: riot_stats_handler_minerva_def stats_handler_def stats_reply_def Let_def)

section \<open>Properties\<close>

text \<open>
  What is put into \<^verbatim>\<open>/cli/stats\<close> is what is read from it: after a PUT of a number below
  65536 in decimal, a GET answers with exactly that text as its payload, right behind the
  header and options, whose length it adds up correctly.
\<close>

lemma stats_put_get_roundtrip:
  assumes "finish_law env" and "fmt_law env" and "flag_law env"
    and "get_detail env put = 3" and "pk_payload_len put \<le> 5"
    and "payload_bytes put = bytes_of (dec k)" and "k < 65536"
    and "get_detail env get = 1" and "stats_reply env get = (n, pk1)" and "0 \<le> n" and "n < 2 ^ 30"
    and "5 \<le> pk_payload_len pk1"
  shows "\<exists>r pk2 s' r' pk3 s''. riot_stats_handler_minerva env put s = Some (r, pk2, s') \<and>
     riot_stats_handler_minerva env get s' = Some (r', pk3, s'') \<and>
     r' = n + int (length (dec k)) \<and> take (nat r') (pk_buf pk3) = take (nat n) (pk_buf pk1) @ bytes_of (dec k)"
proof -
  let ?hello = "gprintf (''@@ riot_stats_handler_minerva(): ^^'' @ nl)"
  from assms(3,4) have "method2flag env (get_detail env put) \<in> {flag_post env, flag_put env}"
    by (simp add: flag_law_def)
  from stats_put_count [OF this assms(3,5), of "?hello s"] obtain pk2 s' where
      put: "riot_stats_handler_minerva env put s =
        Some (fst (response env COAP_CODE_CHANGED put), pk2, s')"
      and "req_count s' = stored_count put"
    unfolding riot_stats_handler_minerva_def by blast
  moreover have "stored_count put = word_of_nat k" using assms(6,7) by (simp add: stored_count_dec)
  ultimately have shown: "fmt_u16_dec env (req_count s') = dec k"
    using assms(2,7) by (simp add: fmt_law_def unat_of_nat)
  have len: "length (dec k) \<le> 5" using assms(7) by (intro length_dec_le) simp_all
  have get: "method2flag env (get_detail env get) = flag_get env"
    using assms(3,8) by (simp add: flag_law_def)
  have sum: "sint (word_of_int n + word_of_nat (length (dec k)) :: u32) = n + int (length (dec k))"
    using assms(10,11) len by (intro sint_small_sum) auto
  from assms(9) have "opt_finish env True (opt_add env (Format (format_text env))
      (resp_init env COAP_CODE_CONTENT get)) = (n, pk1)" by (simp add: stats_reply_def)
  from finish_lawD(2) [OF assms(1) this assms(10)] have "nat n \<le> length (pk_buf pk1)" by linarith
  then have hdr: "length (take (nat n) (pk_buf pk1)) = nat n" by simp
  let ?buf = "take (nat n) (pk_buf pk1) @ bytes_of (dec k) @ drop (nat n + length (dec k)) (pk_buf pk1)"
  have "map_option (\<lambda>(r, pk, _). (r, pk)) (riot_stats_handler_minerva env get s') =
      Some (n + int (length (dec k)), pk1\<lparr>pk_buf := ?buf\<rparr>)"
    using stats_get [OF get assms(1,9,10), of s'] shown len assms(12) sum by (simp add: Let_def)
  then obtain s'' where "riot_stats_handler_minerva env get s' =
      Some (n + int (length (dec k)), pk1\<lparr>pk_buf := ?buf\<rparr>, s'')" by auto
  moreover have "take (nat (n + int (length (dec k)))) ?buf = take (nat n) (pk_buf pk1) @ bytes_of (dec k)"
    using hdr assms(10) by (simp add: nat_add_distrib)
  ultimately show ?thesis using put by force
qed

lemma stats_put_get_roundtrip_witness:
  "\<exists>r pk2 s' r' pk3 s''.
     riot_stats_handler_minerva gcoap_demo
       \<lparr>pk_buf = [0, 3, 0, 0] @ bytes_of (dec 1234), pk_payload = 4, pk_payload_len = 4, pk_opts = []\<rparr>
       gcoap_start = Some (r, pk2, s') \<and>
     riot_stats_handler_minerva gcoap_demo (demo_pkt 128 1) s' = Some (r', pk3, s'') \<and>
     r' = 7 + int (length (dec 1234)) \<and>
     take (nat r') (pk_buf pk3) = take (nat 7) (pk_buf (snd (stats_reply gcoap_demo (demo_pkt 128 1)))) @
       bytes_of (dec 1234)"
proof -
  let ?put = "\<lparr>pk_buf = [0, 3, 0, 0] @ bytes_of (dec 1234), pk_payload = 4, pk_payload_len = 4, pk_opts = []\<rparr>"
  let ?reply = "stats_reply gcoap_demo (demo_pkt 128 1)"
  have "length (dec 1234) = 4" by (simp add: dec.simps)
  then have p: "pk_payload_len ?put \<le> 5" "payload_bytes ?put = bytes_of (dec 1234)"
    by (simp_all add: payload_bytes_def)
  have d: "get_detail gcoap_demo ?put = 3" "get_detail gcoap_demo (demo_pkt 128 1) = 1"
    by (simp_all add: gcoap_demo_def demo_pkt_def)
  have n: "fst ?reply = 7" "5 \<le> pk_payload_len (snd ?reply)"
    by (simp_all add: stats_reply_def gcoap_demo_def demo_pkt_def demo_finish_def)
  then have r: "?reply = (7, snd ?reply)" by (metis prod.collapse)
  show ?thesis
    by (rule stats_put_get_roundtrip [OF demo_laws(1) demo_laws(3) demo_laws(4) d(1) p _ d(2) r _ _ n(2)])
       simp_all
qed

text \<open>
  A PUT or POST of up to five digits stores the number modulo 65536. The comment on the
  handler promises two-byte values and a refusal of obviously bad requests; numbers from
  65536 to 99999 are accepted and wrap around.
\<close>

lemma stats_put_wraps:
  assumes "flag_law env" and "get_detail env pk \<in> {2, 3}" and "pk_payload_len pk \<le> 5"
    and "payload_bytes pk = bytes_of (dec k)" and "k < 100000"
  shows "\<exists>pk' s'. riot_stats_handler_minerva env pk s =
      Some (fst (response env COAP_CODE_CHANGED pk), pk', s') \<and> unat (req_count s') = k mod 65536"
proof -
  from assms(1,2) have "method2flag env (get_detail env pk) \<in> {flag_post env, flag_put env}"
    by (auto simp: flag_law_def)
  from stats_put_count [OF this assms(1,3)] obtain pk' s' where
      "riot_stats_handler_minerva env pk s = Some (fst (response env COAP_CODE_CHANGED pk), pk', s')"
      and "req_count s' = stored_count pk"
    unfolding riot_stats_handler_minerva_def by blast
  moreover have "stored_count pk = word_of_nat k" using assms(4,5) by (simp add: stored_count_dec)
  ultimately show ?thesis by (auto simp: unat_of_nat)
qed

lemma stats_put_wraps_witness:
  "\<exists>pk' s'. riot_stats_handler_minerva gcoap_demo
       \<lparr>pk_buf = [0, 3, 0, 0] @ bytes_of (dec 70000), pk_payload = 4, pk_payload_len = 5, pk_opts = []\<rparr>
       gcoap_start = Some (4, pk', s') \<and> unat (req_count s') = 4464"
proof -
  let ?put = "\<lparr>pk_buf = [0, 3, 0, 0] @ bytes_of (dec 70000), pk_payload = 4, pk_payload_len = 5, pk_opts = []\<rparr>"
  have "length (dec 70000) = 5" by (simp add: dec.simps)
  then have p: "pk_payload_len ?put \<le> 5" "payload_bytes ?put = bytes_of (dec 70000)"
    by (simp_all add: payload_bytes_def)
  have d: "get_detail gcoap_demo ?put \<in> {2, 3}" by (simp add: gcoap_demo_def)
  have "fst (response gcoap_demo COAP_CODE_CHANGED ?put) = 4" by (simp add: gcoap_demo_def)
  with stats_put_wraps [OF demo_laws(4) d p, of gcoap_start] show ?thesis by simp
qed

text \<open>
  A payload of more than five bytes is refused with a bad-request response, and a method
  that is none of GET, POST and PUT is ignored with result 0; in both cases the counter and
  every other static variable keep their values.
\<close>

lemma stats_refused:
  assumes "flag_law env"
    and "get_detail env pk \<in> {2, 3} \<and> 5 < pk_payload_len pk \<or>
      method2flag env (get_detail env pk) \<notin> {flag_get env, flag_post env, flag_put env}"
  shows "\<exists>r pk' s'. stats_handler env pk s = Some (r, pk', s') \<and> s'\<lparr>g_log := g_log s\<rparr> = s \<and>
     r = (if get_detail env pk \<in> {2, 3} then fst (response env COAP_CODE_BAD_REQUEST pk) else 0)"
  using assms
  by (auto simp: stats_handler_def flag_law_def Let_def gemit_def split: prod.splits)

lemma stats_refused_witness:
  "\<exists>r pk' s'. stats_handler gcoap_demo
     \<lparr>pk_buf = [0, 3, 0, 0, 49, 50, 51, 52, 53, 54], pk_payload = 4, pk_payload_len = 6, pk_opts = []\<rparr>
       gcoap_start = Some (r, pk', s') \<and>
     s'\<lparr>g_log := g_log gcoap_start\<rparr> = gcoap_start \<and> r = 4"
proof -
  let ?pk = "\<lparr>pk_buf = [0, 3, 0, 0, 49, 50, 51, 52, 53, 54], pk_payload = 4, pk_payload_len = 6, pk_opts = []\<rparr>"
  have "get_detail gcoap_demo ?pk \<in> {2, 3} \<and> 5 < pk_payload_len ?pk \<or>
      method2flag gcoap_demo (get_detail gcoap_demo ?pk) \<notin>
        {flag_get gcoap_demo, flag_post gcoap_demo, flag_put gcoap_demo}"
    by (simp add: gcoap_demo_def)
  from stats_refused [OF demo_laws(4) this, of gcoap_start] show ?thesis
    by (simp add: gcoap_demo_def)
qed

text \<open>
  A GET of \<^verbatim>\<open>/cli/stats\<close> checks no length before it writes the counter, unlike the board
  handler beside it: it is defined exactly if the response buffer has room behind the header
  for all the digits of the counter.
\<close>

lemma stats_get_defined_iff:
  assumes "finish_law env" and "fmt_law env" and "flag_law env" and "get_detail env pk = 1"
    and "stats_reply env pk = (n, pk1)" and "0 \<le> n"
  shows "riot_stats_handler_minerva env pk s \<noteq> None \<longleftrightarrow>
     length (dec (unat (req_count s))) \<le> pk_payload_len pk1"
proof -
  have "method2flag env (get_detail env pk) = flag_get env"
    using assms(3,4) by (simp add: flag_law_def)
  from stats_get [OF this assms(1,5,6), of s] assms(2) show ?thesis
    by (auto simp: fmt_law_def Let_def split: if_splits)
qed

lemma stats_get_defined_iff_witness:
  "riot_stats_handler_minerva gcoap_demo (demo_pkt 10 1) (gcoap_start\<lparr>req_count := 12345\<rparr>) = None"
proof -
  let ?reply = "stats_reply gcoap_demo (demo_pkt 10 1)"
  have d: "get_detail gcoap_demo (demo_pkt 10 1) = 1" by (simp add: gcoap_demo_def demo_pkt_def)
  have n: "fst ?reply = 7" "pk_payload_len (snd ?reply) = 3"
    by (simp_all add: stats_reply_def gcoap_demo_def demo_pkt_def demo_finish_def)
  then have "?reply = (7, snd ?reply)" by (metis prod.collapse)
  then have iff: "riot_stats_handler_minerva gcoap_demo (demo_pkt 10 1) (gcoap_start\<lparr>req_count := 12345\<rparr>)
      \<noteq> None \<longleftrightarrow> length (dec (unat (req_count (gcoap_start\<lparr>req_count := 12345\<rparr>)))) \<le> pk_payload_len (snd ?reply)"
    by (rule stats_get_defined_iff [OF demo_laws(1) demo_laws(3) demo_laws(4) d]) simp
  have "\<not> length (dec (unat (req_count (gcoap_start\<lparr>req_count := 12345\<rparr>)))) \<le> pk_payload_len (snd ?reply)"
    using n by (simp add: dec.simps)
  with iff show ?thesis by blast
qed

text \<open>
  The board handler is safe for every board name and every buffer: it either writes the
  whole name behind the header or, if it does not fit, answers with an internal server error.
\<close>

lemma board_handler_safe:
  assumes "finish_law env"
    and "opt_finish env True (opt_add env (Format (format_text env))
      (resp_init env COAP_CODE_CONTENT pk)) = (n, pk1)" and "n + int (length board) < 2 ^ 31"
    and "board \<noteq> []"
  shows "\<exists>r pk' s'. riot_board_handler_minerva env pk board s = Some (r, pk', s') \<and>
     (if 0 \<le> n \<and> length board \<le> pk_payload_len pk1
      then r = n + int (length board) \<and> take (nat r) (pk_buf pk') = take (nat n) (pk_buf pk1) @ bytes_of board
      else r = fst (response env COAP_CODE_INTERNAL_SERVER_ERROR pk1))"
proof (cases "0 \<le> n \<and> length board \<le> pk_payload_len pk1")
  case True
  then have "nat n \<le> length (pk_buf pk1)" using finish_lawD(2) [OF assms(1,2)] by linarith
  moreover have "sint (word_of_int n + word_of_nat (length board) :: u32) = n + int (length board)"
    using True assms(3) by (intro sint_small_sum) simp_all
  ultimately show ?thesis
    using True assms(2) put_payload_finished [OF assms(1,2), of board]
    by (auto simp: riot_board_handler_minerva_def Let_def nat_add_distrib)
next
  case False
  then have "\<not> length board \<le> pk_payload_len pk1"
    using finish_lawD(3) [OF assms(1,2)] assms(4) by force
  with assms(2) show ?thesis
    by (auto simp: riot_board_handler_minerva_def Let_def split: prod.splits)
qed

lemma board_handler_safe_witness:
  "\<exists>r pk' s'. riot_board_handler_minerva gcoap_demo (demo_pkt 16 1) ''native'' gcoap_start = Some (r, pk', s') \<and>
     r = 13 \<and> drop 7 (take (nat r) (pk_buf pk')) = bytes_of ''native''"
proof -
  let ?f = "opt_finish gcoap_demo True (opt_add gcoap_demo (Format (format_text gcoap_demo))
      (resp_init gcoap_demo COAP_CODE_CONTENT (demo_pkt 16 1)))"
  have n: "fst ?f = 7" "pk_payload_len (snd ?f) = 9" "length (pk_buf (snd ?f)) = 16"
    by (simp_all add: gcoap_demo_def demo_pkt_def demo_finish_def)
  then have f: "?f = (7, snd ?f)" by (metis prod.collapse)
  have "drop 7 (take (nat 7) (pk_buf (snd ?f)) @ bytes_of ''native'') = bytes_of ''native''"
    using n by simp
  with board_handler_safe [OF demo_laws(1) f, of "''native''" gcoap_start] n show ?thesis by auto
qed

text \<open>
  \<^verbatim>\<open>gcoap_encode_link\<close> returns the length of the text it wrote, at most the room it was given,
  or an error and writes nothing.
\<close>

definition link_law :: "gcoap_env \<Rightarrow> bool" where
  "link_law env \<longleftrightarrow> (\<forall>path pos n. case encode_link env path pos n of (r, t) \<Rightarrow>
     length t = nat r \<and> nat r \<le> n)"

lemma link_room:
  assumes "0 < r" and "nat r \<le> unat (m :: u32)" and "k < 2 ^ 31"
  shows "word_of_nat k < m - word_of_int r \<longleftrightarrow> nat r + k < unat m"
proof -
  have "r < 2 ^ 32" using assms(2) unsigned_less [of m, where 'a = nat] by simp
  then have r: "unat (word_of_int r :: u32) = nat r"
    using assms(1) by (simp add: unat_eq_nat_uint uint_word_of_int)
  then have "(word_of_int r :: u32) \<le> m" using assms(2) by (simp add: word_le_nat_alt)
  then have "unat (m - word_of_int r) = unat m - nat r" by (simp add: unat_sub r)
  moreover have "unat (word_of_nat k :: u32) = k" using assms(3) by (simp add: unat_of_nat)
  ultimately show ?thesis using assms(2) by (auto simp: word_less_nat_alt)
qed



text \<open>
  A start that fails is final. If the credential cannot be added, \<^verbatim>\<open>server_init\<close> has
  already marked the server as started but registers no listener; every later call reports
  that it is initialised, and still registers none.
\<close>

lemma server_init_failure_final:
  assumes "gcoap_dtls env" and "credman_add env (g_log s) < 0"
    and "credman_add env (g_log s) \<noteq> credman_exist env" and "\<not> server_init_done s"
  shows "\<exists>s'. server_init env s = (2, s') \<and> server_state s' \<and>
     server_init env s' = (1, gputs ''@@ server_init(): already initialized, NOP'' s') \<and>
     filter (\<lambda>e. e = GRegister) (g_log s') = filter (\<lambda>e. e = GRegister) (g_log s)"
  using assms by (simp add: server_init_def server_state_def Let_def)

lemma server_init_failure_final_witness:
  "\<exists>s'. server_init (gcoap_demo\<lparr>gcoap_dtls := True, credman_add := (\<lambda>_. - 2)\<rparr>) gcoap_start = (2, s') \<and>
     server_state s' \<and>
     server_init (gcoap_demo\<lparr>gcoap_dtls := True, credman_add := (\<lambda>_. - 2)\<rparr>) s' =
       (1, gputs ''@@ server_init(): already initialized, NOP'' s') \<and> GRegister \<notin> set (g_log s')"
proof -
  let ?env = "gcoap_demo\<lparr>gcoap_dtls := True, credman_add := (\<lambda>_. - 2)\<rparr>"
  have "gcoap_dtls ?env" "credman_add ?env (g_log gcoap_start) < 0"
    "credman_add ?env (g_log gcoap_start) \<noteq> credman_exist ?env" "\<not> server_init_done gcoap_start"
    by (simp_all add: gcoap_demo_def gcoap_start_def)
  from server_init_failure_final [OF this] obtain s' where
      s': "server_init ?env gcoap_start = (2, s')" "server_state s'"
        "server_init ?env s' = (1, gputs ''@@ server_init(): already initialized, NOP'' s')"
        "filter (\<lambda>e. e = GRegister) (g_log s') = filter (\<lambda>e. e = GRegister) (g_log gcoap_start)"
    by blast
  from s'(4) have "GRegister \<notin> set (g_log s')" by (auto simp: gcoap_start_def filter_empty_conv)
  with s'(1-3) show ?thesis by blast
qed

text \<open>
  A notification to the observers of \<^verbatim>\<open>/cli/stats\<close> carries the counter as it is at that
  moment: whenever there is an observer and the buffer has room for five digits, exactly one
  notification is sent, and it ends with the counter in decimal.
\<close>

lemma notify_observers_current:
  assumes "finish_law env" and "fmt_law env"
    and "obs_init env (g_log s) (pdu_buf_size env) ''/cli/stats'' = (GCOAP_OBS_INIT_OK, pk)"
    and "opt_finish env True (opt_add env (Format (format_text env)) pk) = (n, pk1)"
    and "0 \<le> n" and "n < 2 ^ 30" and "5 \<le> pk_payload_len pk1"
  shows "\<exists>s' hdr. notify_observers env s = Some s' \<and> length hdr = nat n \<and>
     filter (\<lambda>e. case e of GObsSend _ _ \<Rightarrow> True | _ \<Rightarrow> False) (g_log s') =
       filter (\<lambda>e. case e of GObsSend _ _ \<Rightarrow> True | _ \<Rightarrow> False) (g_log s) @
         [GObsSend (hdr @ bytes_of (dec (unat (req_count s)))) ''/cli/stats'']"
proof -
  let ?t = "dec (unat (req_count s))"
  have "unat (req_count s) < 10 ^ 5" using unsigned_less [of "req_count s", where 'a = nat] by simp
  then have len: "length ?t \<le> 5" by (intro length_dec_le) simp_all
  from finish_lawD(2) [OF assms(1,4,5)] assms(7) have n: "nat n + 5 \<le> length (pk_buf pk1)" by linarith
  have u: "unat (word_of_int n + word_of_nat (length ?t) :: u32) = nat n + length ?t"
    using assms(5,6) len by (intro unat_small_sum) auto
  show ?thesis
    using assms(2-4) put_payload_finished [OF assms(1,4,5), of ?t] len assms(7) n
    by (intro exI [of _ "take (nat n) (pk_buf pk1)"] exI)
       (auto simp: notify_observers_def fmt_law_def u)
qed

lemma notify_observers_current_witness:
  "\<exists>s' hdr. notify_observers gcoap_demo (gcoap_start\<lparr>req_count := 41\<rparr>) = Some s' \<and> length hdr = 7 \<and>
     filter (\<lambda>e. case e of GObsSend _ _ \<Rightarrow> True | _ \<Rightarrow> False) (g_log s') =
       [GObsSend (hdr @ bytes_of (dec 41)) ''/cli/stats'']"
proof -
  let ?s = "gcoap_start\<lparr>req_count := 41\<rparr>"
  let ?f = "opt_finish gcoap_demo True (opt_add gcoap_demo (Format (format_text gcoap_demo)) (demo_pkt 128 1))"
  have i: "obs_init gcoap_demo (g_log ?s) (pdu_buf_size gcoap_demo) ''/cli/stats'' =
      (GCOAP_OBS_INIT_OK, demo_pkt 128 1)" by (simp add: gcoap_demo_def)
  have n: "fst ?f = 7" "5 \<le> pk_payload_len (snd ?f)"
    by (simp_all add: gcoap_demo_def demo_pkt_def demo_finish_def)
  then have f: "?f = (7, snd ?f)" by (metis prod.collapse)
  from notify_observers_current [OF demo_laws(1) demo_laws(3) i f] n show ?thesis
    by (simp add: gcoap_start_def)
qed

end
