(* ===== verification/Libcoap_Client.thy ===== *)
theory Libcoap_Client
  imports Studio_Prelude
begin

text \<open>
  The client of \<^verbatim>\<open>modules/minerva_libcoap\<close>: \<^verbatim>\<open>client-coap.c\<close> with its response and failure
  handlers, the request and the loop that waits for the answer, and the shell command of
  \<^verbatim>\<open>client-coap.h\<close>. The functions of libcoap are the fields of an environment record.
\<close>

section \<open>The library\<close>

record coap_uri =
  uri_host :: string
  uri_port :: u16
  uri_scheme :: nat
  uri_path :: string

datatype coap_proto = COAP_PROTO_UDP | COAP_PROTO_TCP | COAP_PROTO_DTLS

datatype coap_nack_reason =
    COAP_NACK_TOO_MANY_RETRIES | COAP_NACK_NOT_DELIVERABLE | COAP_NACK_RST | COAP_NACK_TLS_FAILED
  | COAP_NACK_ICMP_ISSUE | COAP_NACK_BAD_RESPONSE | COAP_NACK_TLS_LAYER_FAILED
  | COAP_NACK_WS_LAYER_FAILED | COAP_NACK_WS_FAILED

record psk_setup =
  client_sni :: string
  psk_identity :: string
  psk_key :: string

text \<open>A response as \<^verbatim>\<open>coap_get_data_large\<close> shows it: the data with its offset and the total, if there are any.\<close>

type_synonym large_data = "(string \<times> u32 \<times> u32) option"

datatype lc_event = Message large_data | Nack coap_nack_reason

type_synonym optlist = "(nat \<times> string) list"

record lc_pdu =
  pdu_non :: bool
  pdu_opts :: optlist

text \<open>
  \<open>lc_io n\<close> is the \<open>n\<close>-th \<^verbatim>\<open>coap_io_process\<close> of a request: the handlers it calls and its result,
  the milliseconds spent or a negative number.
\<close>

record lc_env =
  split_uri :: "string \<Rightarrow> int \<times> coap_uri"
  resolve_info :: "string \<Rightarrow> u16 \<Rightarrow> nat \<Rightarrow> bytes option"
  coap_is_mcast :: "bytes \<Rightarrow> bool"
  new_context :: bool
  new_client_session :: "bytes \<Rightarrow> coap_proto \<Rightarrow> bool"
  new_client_session_psk2 :: "bytes \<Rightarrow> coap_proto \<Rightarrow> psk_setup \<Rightarrow> bool"
  pdu_init :: "bool \<Rightarrow> bool"
  uri_into_options :: "coap_uri \<Rightarrow> bytes \<Rightarrow> int \<times> optlist"
  add_optlist_pdu :: "optlist \<Rightarrow> int \<times> optlist"
  default_leisure :: "u16"
  send_mid :: "lc_pdu \<Rightarrow> int"
  lc_io :: "nat \<Rightarrow> lc_event list \<times> int"
  COAP_URI_SCHEME_COAP :: nat
  COAP_URI_SCHEME_COAP_TCP :: nat

definition COAP_INVALID_MID :: int where "COAP_INVALID_MID = - 1"

section \<open>State\<close>

datatype lc_act =
    Coap_startup
  | Set_log_level
  | Coap_new_context
  | Set_block_mode
  | New_session coap_proto bytes "psk_setup option"
  | Register_handlers
  | Pdu_init bool
  | Coap_send lc_pdu
  | Delete_optlist
  | Session_release bool
  | Free_context bool
  | Coap_cleanup
  | Lc_print string
  | Lc_log string

record lc_state =
  main_coap_context :: bool
  optlist :: optlist
  quit :: bool
  is_mcast :: bool
  wait_seconds :: u32
  lc_log :: "lc_act list"

definition DEFAULT_WAIT_TIME :: u32 where "DEFAULT_WAIT_TIME = 15"

definition lc_init :: lc_state where
  "lc_init = \<lparr>main_coap_context = False, optlist = [], quit = False, is_mcast = False,
     wait_seconds = DEFAULT_WAIT_TIME, lc_log = []\<rparr>"

definition lc_do :: "lc_act list \<Rightarrow> lc_state \<Rightarrow> lc_state" where
  "lc_do as st = st\<lparr>lc_log := lc_log st @ as\<rparr>"

section \<open>Handlers\<close>

text \<open>
  \<^verbatim>\<open>%*.*s\<close> with the length for width and precision: the characters before the first NUL, moved to
  the right of a field as wide as the data.
\<close>

definition fmt_field :: "string \<Rightarrow> string" where
  "fmt_field s = replicate (length s - length (cstr s)) CHR '' '' @ cstr s"

definition message_handler :: "large_data \<Rightarrow> lc_state \<Rightarrow> lc_state" where
  "message_handler received st =
     (case received of
        None \<Rightarrow> st
      | Some (data, offset, whole) \<Rightarrow>
          let st1 = lc_do [Lc_print (fmt_field data)] st in
          if word_of_nat (length data) + offset = whole
          then lc_do [Lc_print nl] (st1\<lparr>quit := True\<rparr>) else st1)"

definition nack_handler :: "coap_nack_reason \<Rightarrow> lc_state \<Rightarrow> lc_state" where
  "nack_handler reason st =
     (if reason \<in> {COAP_NACK_TOO_MANY_RETRIES, COAP_NACK_NOT_DELIVERABLE, COAP_NACK_RST,
          COAP_NACK_TLS_FAILED, COAP_NACK_TLS_LAYER_FAILED, COAP_NACK_WS_LAYER_FAILED, COAP_NACK_WS_FAILED}
      then lc_do [Lc_log ''cannot send CoAP pdu''] (st\<lparr>quit := True\<rparr>) else st)"

fun lc_handle :: "lc_event \<Rightarrow> lc_state \<Rightarrow> lc_state" where
  "lc_handle (Message d) st = message_handler d st"
| "lc_handle (Nack r) st = nack_handler r st"

section \<open>The request\<close>

definition resolve_address ::
  "lc_env \<Rightarrow> string \<Rightarrow> string option \<Rightarrow> nat \<Rightarrow> lc_state \<Rightarrow> (bool \<times> bytes) \<times> lc_state" where
  "resolve_address env host service hint st =
     (let port = (case service of None \<Rightarrow> 0 | Some s \<Rightarrow> word_of_int (atoi s)) in
      case resolve_info env host port hint of
        None \<Rightarrow> ((False, []), st)
      | Some dst \<Rightarrow> ((True, dst), st\<lparr>is_mcast := coap_is_mcast env dst\<rparr>))"

definition COAP_USE_PSK :: string where "COAP_USE_PSK = ''secretPSK''"
definition COAP_USE_PSK_ID :: string where "COAP_USE_PSK_ID = ''user_abc''"

text \<open>The 256 bytes of \<^verbatim>\<open>client_sni\<close>: zeroed, then the host or \<^verbatim>\<open>localhost\<close>, cut off at 255.\<close>

definition sni_of :: "string \<Rightarrow> string option" where
  "sni_of host = mem_write 0 (if host \<noteq> [] then take (min (length host) 255) host else ''localhost'') (replicate 256 NUL)"

definition open_session :: "lc_env \<Rightarrow> coap_uri \<Rightarrow> bytes \<Rightarrow> lc_state \<Rightarrow> (bool \<times> lc_state) option" where
  "open_session env uri dst st =
     (if uri_scheme uri = COAP_URI_SCHEME_COAP env then
        Some (new_client_session env dst COAP_PROTO_UDP, lc_do [New_session COAP_PROTO_UDP dst None] st)
      else if uri_scheme uri = COAP_URI_SCHEME_COAP_TCP env then
        Some (new_client_session env dst COAP_PROTO_TCP, lc_do [New_session COAP_PROTO_TCP dst None] st)
      else do { sni \<leftarrow> sni_of (uri_host uri);
           let psk = \<lparr>client_sni = sni, psk_identity = COAP_USE_PSK_ID, psk_key = COAP_USE_PSK\<rparr> in
           Some (new_client_session_psk2 env dst COAP_PROTO_DTLS psk,
                 lc_do [New_session COAP_PROTO_DTLS dst (Some psk)] st) })"

text \<open>The request up to \<^verbatim>\<open>coap_send\<close>: whether it was sent, with the time to wait in milliseconds.\<close>

definition send_request :: "lc_env \<Rightarrow> coap_uri \<Rightarrow> bytes \<Rightarrow> lc_state \<Rightarrow> u32 option \<times> lc_state" where
  "send_request env uri dst st =
     (let st0 = lc_do [Register_handlers] st in
      if \<not> pdu_init env (is_mcast st0) then (None, lc_do [Lc_log ''Failed to create PDU''] st0)
      else let st1 = lc_do [Pdu_init (is_mcast st0)] st0;
               (len, opts) = uri_into_options env uri dst;
               st2 = st1\<lparr>optlist := optlist st1 @ opts\<rparr> in
        if len \<noteq> 0 then (None, lc_do [Lc_log ''Failed to create options''] st2)
        else let (res, added) = (if optlist st2 \<noteq> [] then add_optlist_pdu env (optlist st2) else (1, [])) in
          if optlist st2 \<noteq> [] \<and> res \<noteq> 1 then (None, lc_do [Lc_log ''Failed to add options to PDU''] st2)
          else let st3 = (if is_mcast st2 then st2\<lparr>wait_seconds := ucast (default_leisure env) + 1\<rparr> else st2);
                   wait_ms = wait_seconds st3 * 1000;
                   pdu = \<lparr>pdu_non = is_mcast st3, pdu_opts = added\<rparr>;
                   st4 = lc_do [Coap_send pdu] st3 in
            if send_mid env pdu = COAP_INVALID_MID then (None, lc_do [Lc_log ''Failed to send PDU''] st4)
            else (Some wait_ms, st4))"

text \<open>The loop that waits. A negative result leaves the time as it is.\<close>

definition lc_turn :: "lc_env \<Rightarrow> nat \<Rightarrow> lc_state \<Rightarrow> lc_state" where
  "lc_turn env n st = fold lc_handle (fst (lc_io env n)) st"

partial_function (option) wait_loop :: "lc_env \<Rightarrow> nat \<Rightarrow> u32 \<Rightarrow> lc_state \<Rightarrow> lc_state option" where
  "wait_loop env n wait_ms st =
     (if \<not> quit st \<or> is_mcast st then
        (if 0 \<le> snd (lc_io env n) \<and> 0 < wait_ms \<and> wait_ms \<le> word_of_int (snd (lc_io env n))
         then Some (lc_do [Lc_log ''timeout''] (lc_turn env n st))
         else wait_loop env (Suc n)
           (if 0 \<le> snd (lc_io env n) \<and> 0 < wait_ms then wait_ms - word_of_int (snd (lc_io env n)) else wait_ms)
           (lc_turn env n st))
      else Some st)"

declare wait_loop.simps [code]

definition lc_finish :: "bool \<Rightarrow> lc_state \<Rightarrow> lc_state" where
  "lc_finish session st =
     lc_do [Delete_optlist, Session_release session, Free_context (main_coap_context st), Coap_cleanup]
       (st\<lparr>quit := False, optlist := [], main_coap_context := False\<rparr>)"

definition COAP_CLIENT_URI_DEFAULT :: string where
  "COAP_CLIENT_URI_DEFAULT = ''coap://[fe80::405:5aff:fe15:9b7f]/.well-known/core''"

definition warn_uri :: "string \<Rightarrow> lc_act" where
  "warn_uri u = Lc_log (''Failed to parse uri '' @ u)"

definition show_uri :: "string \<Rightarrow> lc_act" where
  "show_uri u = Lc_print (''@@ client_coap_init(): coap_uri: '' @ u @ nl)"

text \<open>The part between the parsed URI and the label \<^verbatim>\<open>fail\<close>; the result says whether there is a session.\<close>

definition lc_dialogue :: "lc_env \<Rightarrow> coap_uri \<Rightarrow> lc_state \<Rightarrow> (bool \<times> lc_state) option" where
  "lc_dialogue env uri st =
     (let portbuf = take 7 (dec (unat (uri_port uri)));
          buf = take 99 (fmt_field (uri_host uri));
          ((found, dst), st1) = resolve_address env buf (Some portbuf) (2 ^ uri_scheme uri) st in
      if \<not> found then Some (False, lc_do [Lc_log ''Failed to resolve address''] st1)
      else let st2 = lc_do [Coap_new_context] (st1\<lparr>main_coap_context := new_context env\<rparr>) in
        if \<not> main_coap_context st2 then Some (False, lc_do [Lc_log ''Failed to initialize context''] st2)
        else do { (session, st3) \<leftarrow> open_session env uri dst (lc_do [Set_block_mode] st2);
          if \<not> session then Some (False, lc_do [Lc_log ''Failed to create session''] st3)
          else case send_request env uri dst st3 of
              (None, st4) \<Rightarrow> Some (True, st4)
            | (Some wait_ms, st4) \<Rightarrow> map_option (Pair True) (wait_loop env 0 wait_ms st4) })"

definition lc_uri :: "string list \<Rightarrow> string" where
  "lc_uri argv = (if 1 < length argv then argv ! 1 else COAP_CLIENT_URI_DEFAULT)"

definition client_coap_init :: "lc_env \<Rightarrow> string list \<Rightarrow> lc_state \<Rightarrow> lc_state option" where
  "client_coap_init env argv st =
     (let u = lc_uri argv;
          st0 = lc_do [show_uri u, Coap_startup, Set_log_level] st;
          (len, uri) = split_uri env u in
      if len \<noteq> 0 then Some (lc_finish False (lc_do [warn_uri u] st0))
      else map_option (\<lambda>(session, s). lc_finish session s) (lc_dialogue env uri st0))"

definition lc_usage :: "string \<Rightarrow> lc_act" where
  "lc_usage cmd = Lc_print (''usage: '' @ cmd @ '' <uri> (e.g. '' @ COAP_CLIENT_URI_DEFAULT @ '')'' @ nl)"

definition libcoap_cli_cmd :: "lc_env \<Rightarrow> string list \<Rightarrow> lc_state \<Rightarrow> (int \<times> lc_state) option" where
  "libcoap_cli_cmd env argv st =
     (if argv = [] then None
      else if length argv < 2 then Some (0, lc_do [lc_usage (argv ! 0)] st)
      else map_option (Pair 0) (client_coap_init env argv st))"

definition test_libcoap_req :: "lc_env \<Rightarrow> string \<Rightarrow> string option \<Rightarrow> lc_state \<Rightarrow> (int \<times> lc_state) option" where
  "test_libcoap_req env req uri st =
     (if req \<noteq> ''get'' then None
      else let st1 = lc_do [Lc_print (''@@-------- test_libcoap_req(): libcoap '' @
                 (case uri of None \<Rightarrow> ''(null)'' | Some u \<Rightarrow> u) @ nl)] st in
        libcoap_cli_cmd env (''libcoap'' # (case uri of None \<Rightarrow> [] | Some u \<Rightarrow> [u])) st1)"

section \<open>Lemmas\<close>

lemma lc_do_simps [simp]:
  "lc_do as (lc_do bs st) = lc_do (bs @ as) st" "lc_log (lc_do as st) = lc_log st @ as"
  "quit (lc_do as st) = quit st" "is_mcast (lc_do as st) = is_mcast st" "optlist (lc_do as st) = optlist st"
  "wait_seconds (lc_do as st) = wait_seconds st" "main_coap_context (lc_do as st) = main_coap_context st"
  by (simp_all add: lc_do_def)

lemma lc_do_context [simp]: "(lc_do as st)\<lparr>main_coap_context := b\<rparr> = lc_do as (st\<lparr>main_coap_context := b\<rparr>)"
  by (simp add: lc_do_def)

text \<open>The handlers touch the flag \<^verbatim>\<open>quit\<close> and the terminal only.\<close>

lemma lc_handle_frame:
  "is_mcast (lc_handle e st) = is_mcast st \<and> wait_seconds (lc_handle e st) = wait_seconds st \<and>
   main_coap_context (lc_handle e st) = main_coap_context st \<and> optlist (lc_handle e st) = optlist st"
  by (cases e) (auto simp: message_handler_def nack_handler_def Let_def split: option.split)

lemma lc_turn_frame [simp]:
  "is_mcast (lc_turn env n st) = is_mcast st" "wait_seconds (lc_turn env n st) = wait_seconds st"
proof -
  have "is_mcast (fold lc_handle es st) = is_mcast st \<and> wait_seconds (fold lc_handle es st) = wait_seconds st" for es
    by (induction es arbitrary: st) (simp_all add: lc_handle_frame)
  then show "is_mcast (lc_turn env n st) = is_mcast st" "wait_seconds (lc_turn env n st) = wait_seconds st"
    by (simp_all add: lc_turn_def)
qed

text \<open>The state after some turns, and the time they took.\<close>

fun lc_turns :: "lc_env \<Rightarrow> nat \<Rightarrow> nat \<Rightarrow> lc_state \<Rightarrow> lc_state" where
  "lc_turns env k 0 st = st"
| "lc_turns env k (Suc m) st = lc_turns env (Suc k) m (lc_turn env k st)"

fun elapsed :: "lc_env \<Rightarrow> nat \<Rightarrow> nat \<Rightarrow> nat" where
  "elapsed env k 0 = 0"
| "elapsed env k (Suc m) = nat (snd (lc_io env k)) + elapsed env (Suc k) m"

text \<open>The result of \<^verbatim>\<open>coap_io_process\<close> is an \<^verbatim>\<open>int\<close>.\<close>

definition io_int :: "lc_env \<Rightarrow> bool" where
  "io_int env \<longleftrightarrow> (\<forall>n. - (2 ^ 31) \<le> snd (lc_io env n) \<and> snd (lc_io env n) < 2 ^ 31)"

lemma unat_io: "io_int env \<Longrightarrow> 0 \<le> snd (lc_io env n) \<Longrightarrow> unat (word_of_int (snd (lc_io env n)) :: u32) = nat (snd (lc_io env n))"
  using unat_small_sum [of "snd (lc_io env n)" 0] by (auto simp: io_int_def dest: spec [of _ n])

text \<open>One turn of the loop in terms of the time that is left.\<close>

lemma wait_body:
  fixes f :: "nat \<Rightarrow> u32 \<Rightarrow> lc_state \<Rightarrow> lc_state option"
  assumes "io_int env" and "0 < w"
  shows "(if \<not> quit st \<or> is_mcast st then
        (if 0 \<le> snd (lc_io env n) \<and> 0 < w \<and> w \<le> word_of_int (snd (lc_io env n))
         then Some (lc_do [Lc_log ''timeout''] (lc_turn env n st))
         else f (Suc n)
           (if 0 \<le> snd (lc_io env n) \<and> 0 < w then w - word_of_int (snd (lc_io env n)) else w) (lc_turn env n st))
      else Some st) =
     (if quit st \<and> \<not> is_mcast st then Some st
      else if unat w \<le> nat (snd (lc_io env n)) then Some (lc_do [Lc_log ''timeout''] (lc_turn env n st))
      else f (Suc n) (word_of_nat (unat w - nat (snd (lc_io env n)))) (lc_turn env n st))"
proof (cases "0 \<le> snd (lc_io env n)")
  case True
  note u = unat_io [OF assms(1) True]
  have le: "w \<le> word_of_int (snd (lc_io env n)) \<longleftrightarrow> unat w \<le> nat (snd (lc_io env n))"
    by (simp add: word_le_nat_alt u)
  have "w - word_of_int (snd (lc_io env n)) = word_of_nat (unat w - nat (snd (lc_io env n)))"
    if "\<not> unat w \<le> nat (snd (lc_io env n))"
    using that by (metis le linear of_nat_unat u unat_sub ucast_id)
  with le True assms(2) show ?thesis by simp
next
  case False
  then have "nat (snd (lc_io env n)) = 0" by simp
  with False assms(2) show ?thesis by (auto simp: word_gt_0 unat_eq_0)
qed

lemmas wait_loop_turn = trans [OF wait_loop.simps [of env n w st] wait_body [of env w st n "wait_loop env"]] for env n w st

lemma unat_left: "unat (word_of_nat (unat (w :: u32) - r) :: u32) = unat w - r"
  by (metis diff_le_self le_unat_uoi)

lemma left_pos: "\<not> unat w \<le> r \<Longrightarrow> 0 < (word_of_nat (unat (w :: u32) - r) :: u32)"
  using unat_left [of w r] by (metis diff_is_0_eq unat_0 word_gt_0)

lemma wait_loop_returnsI:
  assumes "io_int env" and "0 < w"
    and "quit (lc_turns env k m st) \<and> \<not> is_mcast st \<or> unat w \<le> elapsed env k m"
  shows "\<exists>st'. wait_loop env k w st = Some st'"
  using assms(2,3)
proof (induction m arbitrary: k w st)
  case 0
  then show ?case using wait_loop_turn [OF assms(1) "0.prems"(1)] by (auto simp: word_gt_0 unat_eq_0)
next
  case (Suc m)
  show ?case
  proof (cases "quit st \<and> \<not> is_mcast st \<or> unat w \<le> nat (snd (lc_io env k))")
    case True
    then show ?thesis using wait_loop_turn [OF assms(1) Suc.prems(1)] by auto
  next
    case False
    let ?r = "nat (snd (lc_io env k))"
    let ?w = "word_of_nat (unat w - ?r) :: u32"
    have "0 < ?w" using False by (intro left_pos) simp
    moreover have "quit (lc_turns env (Suc k) m (lc_turn env k st)) \<and> \<not> is_mcast (lc_turn env k st) \<or>
        unat ?w \<le> elapsed env (Suc k) m"
      using Suc.prems(2) unfolding unat_left by auto
    ultimately obtain st' where "wait_loop env (Suc k) ?w (lc_turn env k st) = Some st'"
      using Suc.IH by blast
    with False show ?thesis by (subst wait_loop_turn [OF assms(1) Suc.prems(1)]) auto
  qed
qed

lemma wait_loop_returnsD:
  assumes "wait_loop env k w st = Some st'"
  shows "io_int env \<longrightarrow> 0 < w \<longrightarrow>
    (\<exists>m. quit (lc_turns env k m st) \<and> \<not> is_mcast st \<or> unat w \<le> elapsed env k m)"
proof (rule wait_loop.raw_induct [OF _ assms, where P = "\<lambda>env k w st st'. io_int env \<longrightarrow> 0 < w \<longrightarrow>
    (\<exists>m. quit (lc_turns env k m st) \<and> \<not> is_mcast st \<or> unat w \<le> elapsed env k m)"], intro impI)
  fix f :: "lc_env \<Rightarrow> nat \<Rightarrow> u32 \<Rightarrow> lc_state \<Rightarrow> lc_state option" and env k w st st'
  assume IH: "\<And>env k w st y. f env k w st = Some y \<Longrightarrow> io_int env \<longrightarrow> 0 < w \<longrightarrow>
      (\<exists>m. quit (lc_turns env k m st) \<and> \<not> is_mcast st \<or> unat w \<le> elapsed env k m)"
    and i: "io_int env" and w: "0 < w"
    and body: "(if \<not> quit st \<or> is_mcast st then
        if 0 \<le> snd (lc_io env k) \<and> 0 < w \<and> w \<le> word_of_int (snd (lc_io env k))
         then Some (lc_do [Lc_log ''timeout''] (lc_turn env k st))
         else f env (Suc k)
           (if 0 \<le> snd (lc_io env k) \<and> 0 < w then w - word_of_int (snd (lc_io env k)) else w) (lc_turn env k st)
      else Some st) = Some st'"
  let ?r = "nat (snd (lc_io env k))"
  consider "quit st \<and> \<not> is_mcast st" | "unat w \<le> ?r"
    | "\<not> unat w \<le> ?r" "f env (Suc k) (word_of_nat (unat w - ?r)) (lc_turn env k st) = Some st'"
    using body unfolding wait_body [OF i w, of st k "f env"] by (auto split: if_splits)
  then show "\<exists>m. quit (lc_turns env k m st) \<and> \<not> is_mcast st \<or> unat w \<le> elapsed env k m"
  proof cases
    case 1
    then show ?thesis by (intro exI [of _ 0]) simp
  next
    case 2
    then show ?thesis by (intro exI [of _ 1]) simp
  next
    case 3
    have "0 < (word_of_nat (unat w - ?r) :: u32)" using 3(1) by (rule left_pos)
    with IH [OF 3(2)] i obtain m where
      "quit (lc_turns env (Suc k) m (lc_turn env k st)) \<and> \<not> is_mcast st \<or> unat w - ?r \<le> elapsed env (Suc k) m"
      by (auto simp: unat_left)
    then show ?thesis by (intro exI [of _ "Suc m"]) auto
  qed
qed

text \<open>What holds between two requests.\<close>

definition lc_ok :: "lc_state \<Rightarrow> bool" where
  "lc_ok st \<longleftrightarrow> \<not> quit st \<and> optlist st = [] \<and> \<not> main_coap_context st \<and>
     1 \<le> unat (wait_seconds st) \<and> unat (wait_seconds st) \<le> 65536"

definition wait_ok :: "lc_state \<Rightarrow> bool" where
  "wait_ok st \<longleftrightarrow> 1 \<le> unat (wait_seconds st) \<and> unat (wait_seconds st) \<le> 65536"

lemma lc_ok_wait: "lc_ok st \<Longrightarrow> wait_ok st"
  by (simp add: lc_ok_def wait_ok_def)

lemma wait_ms_bounds:
  assumes "wait_ok st"
  shows "0 < wait_seconds st * 1000" and "unat (wait_seconds st * 1000) \<le> 65536000"
proof -
  have "unat (wait_seconds st * 1000) = unat (wait_seconds st) * 1000"
    using assms by (intro unat_mult_lem [THEN iffD1, of "wait_seconds st" 1000, simplified]) (simp add: wait_ok_def)
  then show "unat (wait_seconds st * 1000) \<le> 65536000" "0 < wait_seconds st * 1000"
    using assms by (simp_all add: wait_ok_def word_gt_0 flip: unat_eq_0)
qed

lemma leisure_wait_ok: "wait_ok (st\<lparr>wait_seconds := ucast (l :: u16) + 1\<rparr>)"
proof -
  have "unat l < 65536" using unsigned_less [of l, where 'a = nat] by simp
  then have "unat (ucast l :: u32) = unat l" by (simp add: unsigned_ucast_eq take_bit_nat_eq_self)
  with \<open>unat l < 65536\<close> have "unat (ucast l + 1 :: u32) = unat l + 1"
    by (subst unat_add_lem [THEN iffD1]) simp_all
  with \<open>unat l < 65536\<close> show ?thesis by (simp add: wait_ok_def)
qed

text \<open>The calls of the library in a log, without what is printed.\<close>

fun quiet :: "lc_act \<Rightarrow> bool" where
  "quiet (Lc_print _) = True"
| "quiet (Lc_log _) = True"
| "quiet _ = False"

definition calls :: "lc_state \<Rightarrow> lc_act list" where
  "calls st = filter (\<lambda>a. \<not> quiet a) (lc_log st)"

lemma calls_simps [simp]:
  "calls (lc_do as st) = calls st @ filter (\<lambda>a. \<not> quiet a) as"
  "calls (st\<lparr>quit := q\<rparr>) = calls st" "calls (st\<lparr>optlist := opts\<rparr>) = calls st"
  "calls (st\<lparr>is_mcast := b\<rparr>) = calls st" "calls (st\<lparr>wait_seconds := n\<rparr>) = calls st"
  "calls (st\<lparr>main_coap_context := b\<rparr>) = calls st"
  by (simp_all add: calls_def)

lemma quiet_texts [simp]: "quiet (show_uri u)" "quiet (warn_uri u)" "quiet (lc_usage u)"
  by (simp_all add: show_uri_def warn_uri_def lc_usage_def)

text \<open>States that agree on everything but \<^verbatim>\<open>quit\<close> and what was printed.\<close>

definition same_calls :: "lc_state \<Rightarrow> lc_state \<Rightarrow> bool" where
  "same_calls st st' \<longleftrightarrow> calls st' = calls st \<and> wait_seconds st' = wait_seconds st \<and>
     main_coap_context st' = main_coap_context st"

lemma same_calls_turn: "same_calls st (lc_turn env n st)"
proof -
  have "same_calls s (lc_handle e s)" for e s
    by (cases e) (auto simp: same_calls_def message_handler_def nack_handler_def Let_def split: option.split)
  then have "same_calls st (fold lc_handle es st)" for es
    by (induction es arbitrary: st) (simp_all add: same_calls_def)
  then show ?thesis by (simp add: lc_turn_def)
qed

lemma wait_loop_same_calls:
  assumes "wait_loop env k w st = Some st'"
  shows "same_calls st st'"
proof (rule wait_loop.raw_induct [OF _ assms, where P = "\<lambda>env k w st st'. same_calls st st'"])
  fix f :: "lc_env \<Rightarrow> nat \<Rightarrow> u32 \<Rightarrow> lc_state \<Rightarrow> lc_state option" and env n w st st'
  assume IH: "\<And>env k w st y. f env k w st = Some y \<Longrightarrow> same_calls st y"
    and body: "(if \<not> quit st \<or> is_mcast st then
        if 0 \<le> snd (lc_io env n) \<and> 0 < w \<and> w \<le> word_of_int (snd (lc_io env n))
         then Some (lc_do [Lc_log ''timeout''] (lc_turn env n st))
         else f env (Suc n)
           (if 0 \<le> snd (lc_io env n) \<and> 0 < w then w - word_of_int (snd (lc_io env n)) else w) (lc_turn env n st)
      else Some st) = Some st'"
  define w' where "w' = (if 0 \<le> snd (lc_io env n) \<and> 0 < w then w - word_of_int (snd (lc_io env n)) else w)"
  consider "st' = st" | "st' = lc_do [Lc_log ''timeout''] (lc_turn env n st)" | "f env (Suc n) w' (lc_turn env n st) = Some st'"
    using body unfolding w'_def [symmetric] by (metis (no_types, lifting) option.inject)
  then consider "st' = st" | "st' = lc_do [Lc_log ''timeout''] (lc_turn env n st)" | "same_calls (lc_turn env n st) st'"
    using IH by cases blast+
  then show "same_calls st st'"
    using same_calls_turn [of st env n] by cases (auto simp: same_calls_def)
qed

lemma sni_of_Some: "\<exists>sni. sni_of host = Some sni \<and> length sni = 256 \<and> nul_terminated sni"
proof -
  let ?s = "if host \<noteq> [] then take (min (length host) 255) host else ''localhost''"
  have "length ?s \<le> 255" by auto
  then have "0 + length ?s \<le> length (replicate 256 NUL)" by simp
  then obtain sni where sni: "sni_of host = Some sni" unfolding sni_of_def by (metis mem_write_exists)
  then have "sni = ?s @ drop (length ?s) (replicate 256 NUL)" "length sni = 256"
    by (auto simp: sni_of_def mem_simps dest: mem_write_length)
  moreover have "drop (length ?s) (replicate 256 NUL) = NUL # replicate (255 - length ?s) NUL"
    using \<open>length ?s \<le> 255\<close> by (simp add: Suc_diff_le flip: replicate_Suc)
  ultimately show ?thesis using sni by (simp add: nul_terminated_def)
qed

lemma open_session_Some:
  "\<exists>ok p k. open_session env uri dst st = Some (ok, lc_do [New_session p dst k] st)"
proof -
  obtain sni where "sni_of (uri_host uri) = Some sni" using sni_of_Some by blast
  then show ?thesis by (cases "uri_scheme uri = COAP_URI_SCHEME_COAP env"; cases "uri_scheme uri = COAP_URI_SCHEME_COAP_TCP env")
      (simp_all add: open_session_def Let_def, blast+)
qed

lemma send_request_calls:
  assumes "send_request env uri dst st = (r, st')" and "wait_ok st"
  shows "(\<exists>n b pdu. calls st' = calls st @ take (Suc n) [Register_handlers, Pdu_init b, Coap_send pdu]) \<and>
     wait_ok st' \<and> main_coap_context st' = main_coap_context st \<and>
     (\<forall>w. r = Some w \<longrightarrow> w = wait_seconds st' * 1000)"
proof -
  obtain len opts where o: "uri_into_options env uri dst = (len, opts)" by fastforce
  let ?opts = "optlist st @ opts"
  obtain res added where a: "(if ?opts \<noteq> [] then add_optlist_pdu env ?opts else (1, [])) = (res, added)" by fastforce
  let ?pdu = "\<lparr>pdu_non = is_mcast st, pdu_opts = added\<rparr>"
  let ?cs = "[Register_handlers, Pdu_init (is_mcast st), Coap_send ?pdu]"
  have "\<exists>n. calls st' = calls st @ take (Suc n) ?cs"
    using assms(1) o a
    by (auto simp: send_request_def Let_def split: if_splits
        intro: exI [of _ 0] exI [of _ "Suc 0"] exI [of _ "Suc (Suc 0)"])
  moreover have "wait_ok st' \<and> main_coap_context st' = main_coap_context st \<and> (\<forall>w. r = Some w \<longrightarrow> w = wait_seconds st' * 1000)"
    using assms o a leisure_wait_ok [where l = "default_leisure env"]
    by (auto simp: send_request_def Let_def wait_ok_def split: if_splits)
  ultimately show ?thesis by blast
qed

definition session_calls :: "coap_proto \<Rightarrow> bytes \<Rightarrow> psk_setup option \<Rightarrow> bool \<Rightarrow> lc_pdu \<Rightarrow> lc_act list" where
  "session_calls p dst k b pdu =
     [Coap_new_context, Set_block_mode, New_session p dst k, Register_handlers, Pdu_init b, Coap_send pdu]"

lemma session_calls_three: "take 3 (session_calls p dst k b pdu) = [Coap_new_context, Set_block_mode, New_session p dst k]"
  by (simp add: session_calls_def numeral_eq_Suc)

lemma resolve_address_frame:
  assumes "resolve_address env h s hint st = ((found, dst), st')"
  shows "calls st' = calls st \<and> wait_seconds st' = wait_seconds st \<and> main_coap_context st' = main_coap_context st"
  using assms by (auto simp: resolve_address_def Let_def split: option.splits)

lemma lc_dialogue_calls:
  assumes "lc_dialogue env uri st = Some (s, st')" and "wait_ok st" and "\<not> main_coap_context st"
  shows "\<exists>n p dst k b pdu. calls st' = calls st @ take n (session_calls p dst k b pdu) \<and>
     s = (4 \<le> n) \<and> main_coap_context st' = (2 \<le> n) \<and> wait_ok st'"
proof -
  let ?port = "take 7 (dec (unat (uri_port uri)))" and ?buf = "take 99 (fmt_field (uri_host uri))"
  obtain found dst st1 where r: "resolve_address env ?buf (Some ?port) (2 ^ uri_scheme uri) st = ((found, dst), st1)"
    by (metis prod.exhaust)
  note f = resolve_address_frame [OF r]
  let ?st2 = "lc_do [Coap_new_context] (st1\<lparr>main_coap_context := new_context env\<rparr>)"
  obtain ok p k where o: "open_session env uri dst (lc_do [Set_block_mode] ?st2) = Some (ok, lc_do [New_session p dst k] (lc_do [Set_block_mode] ?st2))"
    using open_session_Some by blast
  let ?st3 = "lc_do [New_session p dst k] (lc_do [Set_block_mode] ?st2)"
  obtain w st4 where q: "send_request env uri dst ?st3 = (w, st4)" by fastforce
  have "wait_ok ?st3" using assms(2) f by (simp add: wait_ok_def)
  from send_request_calls [OF q this] obtain n b pdu where
    sr: "calls st4 = calls ?st3 @ take (Suc n) [Register_handlers, Pdu_init b, Coap_send pdu]"
      "wait_ok st4" "main_coap_context st4 = new_context env" by auto
  let ?wait = "case w of None \<Rightarrow> Some (True, st4) | Some ms \<Rightarrow> map_option (Pair True) (wait_loop env 0 ms st4)"
  have d: "Some (s, st') =
      (if \<not> found then Some (False, lc_do [Lc_log ''Failed to resolve address''] st1)
       else if \<not> new_context env then Some (False, lc_do [Lc_log ''Failed to initialize context''] ?st2)
       else if \<not> ok then Some (False, lc_do [Lc_log ''Failed to create session''] ?st3) else ?wait)"
    unfolding assms(1) [symmetric]
    by (cases "new_context env"; cases w) (use o q in \<open>simp_all add: lc_dialogue_def r Let_def\<close>)
  consider "\<not> found" | "found" "\<not> new_context env" | "found" "new_context env" "\<not> ok" | "found" "new_context env" "ok" by blast
  then show ?thesis
  proof cases
    case 1
    then have "s = False" "calls st' = calls st1" "main_coap_context st' = main_coap_context st1" "wait_ok st' = wait_ok st1"
      using d by (auto simp: wait_ok_def)
    with f assms(2,3) show ?thesis by (intro exI [of _ 0] exI [of _ p] exI [of _ dst] exI [of _ k] exI [of _ b] exI [of _ pdu]) (simp add: wait_ok_def)
  next
    case 2
    then have "s = False" "calls st' = calls st1 @ [Coap_new_context]" "\<not> main_coap_context st'" "wait_ok st' = wait_ok st1"
      using d by (auto simp: wait_ok_def)
    with f assms(2) show ?thesis by (intro exI [of _ 1] exI [of _ p] exI [of _ dst] exI [of _ k] exI [of _ b] exI [of _ pdu]) (simp add: wait_ok_def session_calls_def)
  next
    case 3
    then have "s = False" "calls st' = calls ?st3" "main_coap_context st'" "wait_ok st' = wait_ok st1"
      using d by (simp_all add: wait_ok_def)
    with f assms(2) show ?thesis
      by (intro exI [of _ 3] exI [of _ p] exI [of _ dst] exI [of _ k] exI [of _ b] exI [of _ pdu]) 
         (simp add: wait_ok_def session_calls_three)
  next
    case 4
    have "s = True \<and> same_calls st4 st'"
    proof (cases w)
      case None
      with 4 d show ?thesis by (simp add: same_calls_def)
    next
      case (Some ms)
      with 4 d have "map_option (Pair True) (wait_loop env 0 ms st4) = Some (s, st')" by simp
      then show ?thesis using wait_loop_same_calls by auto
    qed
    then have "calls st' = calls st4" "s" "main_coap_context st'" "wait_ok st'"
      using sr 4 by (auto simp: same_calls_def wait_ok_def)
    moreover have "calls st4 = calls st @ take (n + 4) (session_calls p dst k b pdu)"
      using sr(1) f by (simp add: session_calls_def numeral_eq_Suc)
    ultimately show ?thesis by (intro exI [of _ "n + 4"] exI [of _ p] exI [of _ dst] exI [of _ k] exI [of _ b] exI [of _ pdu]) simp
  qed
qed

lemma client_init_terminates:
  assumes "io_int env" and "lc_ok st" and "65536000 \<le> elapsed env 0 m"
  shows "\<exists>st'. client_coap_init env argv st = Some st'"
proof -
  have w: "\<exists>st''. wait_loop env 0 ms st' = Some st''" if "ms = wait_seconds st' * 1000" "wait_ok st'" for ms st'
    using wait_loop_returnsI [OF assms(1), of ms 0 m st'] wait_ms_bounds [of st'] that assms(3) by auto
  have "\<exists>r. lc_dialogue env uri st0 = Some r" if ok: "wait_ok st0" for uri st0
  proof -
    let ?port = "take 7 (dec (unat (uri_port uri)))" and ?buf = "take 99 (fmt_field (uri_host uri))"
    obtain found dst st1 where r: "resolve_address env ?buf (Some ?port) (2 ^ uri_scheme uri) st0 = ((found, dst), st1)"
      by (metis prod.exhaust)
    define st2 where "st2 = lc_do [Coap_new_context] (st1\<lparr>main_coap_context := new_context env\<rparr>)"
    obtain s p k where o: "open_session env uri dst (lc_do [Set_block_mode] st2) = Some (s, lc_do [New_session p dst k] (lc_do [Set_block_mode] st2))"
      using open_session_Some by blast
    define st3 where "st3 = lc_do [New_session p dst k] (lc_do [Set_block_mode] st2)"
    obtain ms st4 where q: "send_request env uri dst st3 = (ms, st4)" by fastforce
    have "wait_ok st3" using ok resolve_address_frame [OF r] by (simp add: wait_ok_def st2_def st3_def)
    with send_request_calls [OF q] w have "ms \<noteq> None \<Longrightarrow> \<exists>st''. wait_loop env 0 (the ms) st4 = Some st''" by fastforce
    then show ?thesis
      unfolding lc_dialogue_def r Let_def prod.case st2_def [symmetric] o bind.bind_lunit
      by (cases ms) (use q in \<open>auto simp: st3_def\<close>)
  qed
  then have "\<exists>r. lc_dialogue env uri (lc_do as st) = Some r" for uri as
    using lc_ok_wait [OF assms(2)] by (simp add: wait_ok_def)
  then show ?thesis by (auto simp: client_coap_init_def Let_def case_prod_beta simp del: lc_do_simps(1))
qed

section \<open>Properties\<close>

lemma init_protocol:
  assumes "client_coap_init env argv st = Some st'" and "lc_ok st"
  shows "\<exists>n p dst k b pdu. calls st' = calls st @ [Coap_startup, Set_log_level] @ take n (session_calls p dst k b pdu) @
       [Delete_optlist, Session_release (4 \<le> n), Free_context (2 \<le> n), Coap_cleanup] \<and> lc_ok st'"
proof -
  define u where "u = lc_uri argv"
  let ?st0 = "lc_do [show_uri u, Coap_startup, Set_log_level] st"
  obtain len uri where s: "split_uri env u = (len, uri)" by fastforce
  have ok: "wait_ok ?st0" "\<not> main_coap_context ?st0" using assms(2) by (simp_all add: lc_ok_def wait_ok_def)
  show ?thesis
  proof (cases "len = 0")
    case False
    then have "st' = lc_finish False (lc_do [warn_uri u] ?st0)"
      using assms(1) s by (simp add: client_coap_init_def u_def [symmetric] Let_def)
    with assms(2) show ?thesis by (intro exI [of _ 0] exI) (auto simp: lc_finish_def lc_ok_def)
  next
    case True
    then obtain session st1 where d: "lc_dialogue env uri ?st0 = Some (session, st1)" and st': "st' = lc_finish session st1"
      using assms(1) s by (auto simp: client_coap_init_def u_def [symmetric] Let_def)
    from lc_dialogue_calls [OF d ok] obtain n p dst k b pdu where
      "calls st1 = calls ?st0 @ take n (session_calls p dst k b pdu)" "session = (4 \<le> n)"
      "main_coap_context st1 = (2 \<le> n)" "wait_ok st1" by blast
    with st' show ?thesis
      by (intro exI [of _ n] exI [of _ p] exI [of _ dst] exI [of _ k] exI [of _ b] exI [of _ pdu])
         (simp add: lc_finish_def lc_ok_def wait_ok_def)
  qed
qed


text \<open>
  The loop that waits for the answer returns exactly if the answer is complete, or a failure is
  reported, after some calls of \<^verbatim>\<open>coap_io_process\<close> (and the destination is no multicast address), or
  if the times these calls report add up to the time to wait. In particular it never returns when
  every call fails.
\<close>

lemma libcoap_wait_returns_iff:
  assumes "io_int env" and "0 < w"
  shows "(\<exists>st'. wait_loop env 0 w st = Some st') \<longleftrightarrow>
     (\<exists>m. quit (lc_turns env 0 m st) \<and> \<not> is_mcast st \<or> unat w \<le> elapsed env 0 m)"
  using wait_loop_returnsI [OF assms] wait_loop_returnsD [of env 0 w st] assms by blast

text \<open>
  C21: Every request ends. From any state between two requests \<^verbatim>\<open>client_coap_init\<close> returns, whatever
  fails on the way, as long as the calls of \<^verbatim>\<open>coap_io_process\<close> take time: 65536 seconds of it, which
  is the longest leisure a session can have, are always enough.
\<close>

theorem libcoap_init_returns:
  assumes "io_int env" and "lc_ok st" and "65536000 \<le> elapsed env 0 m"
  shows "\<exists>st'. client_coap_init env argv st = Some st'"
  using assms by (rule client_init_terminates)

text \<open>
  The conditions under which a request goes out: what the library returns on the way. The answer
  then comes in blocks, one in each call of \<^verbatim>\<open>coap_io_process\<close>.
\<close>

definition lc_reaches :: "lc_env \<Rightarrow> string \<Rightarrow> coap_uri \<Rightarrow> bytes \<Rightarrow> optlist \<Rightarrow> bool" where
  "lc_reaches env u uri dst added \<longleftrightarrow>
     split_uri env u = (0, uri) \<and> NUL \<notin> set (uri_host uri) \<and> length (uri_host uri) < 100 \<and>
     resolve_info env (uri_host uri) (uri_port uri) (2 ^ uri_scheme uri) = Some dst \<and>
     \<not> coap_is_mcast env dst \<and> new_context env \<and>
     uri_scheme uri = COAP_URI_SCHEME_COAP env \<and> new_client_session env dst COAP_PROTO_UDP \<and>
     pdu_init env False \<and>
     (\<exists>opts. uri_into_options env uri dst = (0, opts) \<and> opts \<noteq> [] \<and> add_optlist_pdu env opts = (1, added)) \<and>
     send_mid env \<lparr>pdu_non = False, pdu_opts = added\<rparr> \<noteq> COAP_INVALID_MID"

fun block_messages :: "nat \<Rightarrow> nat \<Rightarrow> string list \<Rightarrow> lc_event list" where
  "block_messages whole off [] = []"
| "block_messages whole off (d # ds) =
     Message (Some (d, word_of_nat off, word_of_nat whole)) # block_messages whole (off + length d) ds"

lemma lc_turns_blocks:
  assumes "ds \<noteq> []" and "off + length (concat ds) = whole" and "whole < 2 ^ 32" and "[] \<notin> set ds" and "\<not> quit st"
    and "\<And>i. i < length ds \<Longrightarrow> fst (lc_io env (k + i)) = [block_messages whole off ds ! i]"
  shows "lc_turns env k (length ds) st = lc_do (map (\<lambda>d. Lc_print (fmt_field d)) ds @ [Lc_print nl]) (st\<lparr>quit := True\<rparr>) \<and>
     (\<forall>j < length ds. \<not> quit (lc_turns env k j st))"
  using assms
proof (induction ds arbitrary: k off st)
  case Nil
  then show ?case by simp
next
  case (Cons d ds)
  have ev: "fst (lc_io env k) = [Message (Some (d, word_of_nat off, word_of_nat whole))]"
    using Cons.prems(6) [of 0] by simp
  have sum: "word_of_nat (length d) + word_of_nat off = (word_of_nat whole :: u32) \<longleftrightarrow> ds = []"
  proof
    assume "word_of_nat (length d) + word_of_nat off = (word_of_nat whole :: u32)"
    then have "(word_of_nat (length d + off) :: u32) = word_of_nat whole" by simp
    then have "length d + off = whole"
      using Cons.prems(2,3) by (subst (asm) word_of_nat_eq_iff) (simp add: take_bit_nat_eq_self)
    with Cons.prems(2,4) show "ds = []" by (cases ds) auto
  next
    assume "ds = []"
    with Cons.prems(2) have "length d + off = whole" by simp
    then show "word_of_nat (length d) + word_of_nat off = (word_of_nat whole :: u32)" by (metis of_nat_add)
  qed
  show ?case
  proof (cases "ds = []")
    case True
    with ev sum Cons.prems(5) show ?thesis
      by (auto simp: lc_turn_def message_handler_def Let_def lc_do_def less_Suc_eq)
  next
    case False
    let ?s = "lc_do [Lc_print (fmt_field d)] st"
    have t: "lc_turn env k st = ?s" using ev sum False by (simp add: lc_turn_def message_handler_def Let_def)
    have "fst (lc_io env (Suc k + i)) = [block_messages whole (off + length d) ds ! i]" if "i < length ds" for i
      using Cons.prems(6) [of "Suc i"] that by simp
    then have ih: "lc_turns env (Suc k) (length ds) ?s = lc_do (map (\<lambda>d. Lc_print (fmt_field d)) ds @ [Lc_print nl]) (?s\<lparr>quit := True\<rparr>) \<and>
        (\<forall>j < length ds. \<not> quit (lc_turns env (Suc k) j ?s))"
      using Cons.IH [of "off + length d" ?s "Suc k"] False Cons.prems by simp
    have "\<not> quit (lc_turns env k j st)" if "j < Suc (length ds)" for j
      using that ih t Cons.prems(5) by (cases j) auto
    moreover have "lc_do as (?s\<lparr>quit := True\<rparr>) = lc_do (Lc_print (fmt_field d) # as) (st\<lparr>quit := True\<rparr>)" for as
      by (simp add: lc_do_def)
    ultimately show ?thesis using ih t by simp
  qed
qed

lemma wait_loop_runs:
  assumes "io_int env" and "\<not> is_mcast st" and "0 < w" and "quit (lc_turns env k m st)"
    and "\<forall>j < m. \<not> quit (lc_turns env k j st)" and "elapsed env k m < unat w"
  shows "wait_loop env k w st = Some (lc_turns env k m st)"
  using assms(2-)
proof (induction m arbitrary: k w st)
  case 0
  then show ?case by (simp add: wait_loop.simps [of env k])
next
  case (Suc m)
  let ?r = "nat (snd (lc_io env k))"
  have nq: "\<not> quit st" using Suc.prems(4) by force
  have left: "\<not> unat w \<le> ?r" using Suc.prems(5) by simp
  have "\<forall>j < m. \<not> quit (lc_turns env (Suc k) j (lc_turn env k st))"
    using Suc.prems(4) by (metis Suc_less_eq lc_turns.simps(2))
  then have "wait_loop env (Suc k) (word_of_nat (unat w - ?r)) (lc_turn env k st) = Some (lc_turns env k (Suc m) st)"
    using Suc.prems left left_pos [OF left]
    by (subst Suc.IH) (auto simp: unat_left simp del: of_nat_diff)
  with nq left show ?case by (simp add: wait_loop_turn [OF assms(1) Suc.prems(2)])
qed

lemma port_text: "word_of_int (atoi (take 7 (dec (unat (p :: u16))))) = p"
proof -
  have p: "unat p < 65536" using unsigned_less [of p, where 'a = nat] by simp
  then have "length (dec (unat p)) \<le> 5" by (intro length_dec_le) simp_all
  with p show ?thesis by (simp add: atoi_dec)
qed

lemma fmt_field_plain: "NUL \<notin> set s \<Longrightarrow> fmt_field s = s"
proof -
  assume "NUL \<notin> set s"
  then have "cstr s = s" unfolding cstr_def by (subst takeWhile_eq_all_conv) auto
  then show ?thesis by (simp add: fmt_field_def)
qed

text \<open>A request that goes out, up to the loop that waits.\<close>

definition request_log :: "string \<Rightarrow> bytes \<Rightarrow> optlist \<Rightarrow> lc_act list" where
  "request_log u dst added = [show_uri u, Coap_startup, Set_log_level, Coap_new_context, Set_block_mode, New_session COAP_PROTO_UDP dst None,
         Register_handlers, Pdu_init False, Coap_send \<lparr>pdu_non = False, pdu_opts = added\<rparr>]"

lemma lc_dialogue_reaches:
  assumes ok: "lc_reaches env u uri dst added" and o: "uri_into_options env uri dst = (0, opts)" and st: "optlist st = []"
    and wl: "wait_loop env 0 (wait_seconds st * 1000)
      (lc_do (request_log u dst added) (st\<lparr>is_mcast := False, main_coap_context := True, optlist := opts\<rparr>)) = Some st'"
  shows "lc_dialogue env uri (lc_do [show_uri u, Coap_startup, Set_log_level] st) = Some (True, st')"
proof -
  have opts: "opts \<noteq> []" "add_optlist_pdu env opts = (1, added)" using ok o by (auto simp: lc_reaches_def)
  have r: "resolve_address env (take 99 (fmt_field (uri_host uri))) (Some (take 7 (dec (unat (uri_port uri))))) (2 ^ uri_scheme uri)
      (lc_do as s) = ((True, dst), lc_do as (s\<lparr>is_mcast := False\<rparr>))" for as s
  proof -
    have "resolve_info env (uri_host uri) (uri_port uri) (2 ^ uri_scheme uri) = Some dst" "\<not> coap_is_mcast env dst"
      "NUL \<notin> set (uri_host uri)" "length (uri_host uri) < 100"
      using ok unfolding lc_reaches_def by blast+
    then show ?thesis by (simp add: resolve_address_def fmt_field_plain port_text lc_do_def)
  qed
  have "send_request env uri dst (lc_do [show_uri u, Coap_startup, Set_log_level, Coap_new_context, Set_block_mode, New_session COAP_PROTO_UDP dst None]
      (st\<lparr>is_mcast := False, main_coap_context := True\<rparr>)) = (Some (wait_seconds st * 1000),
      lc_do (request_log u dst added) (st\<lparr>is_mcast := False, main_coap_context := True, optlist := opts\<rparr>))"
    using ok o opts st by (simp add: send_request_def lc_reaches_def Let_def request_log_def lc_do_def)
  moreover have "open_session env uri dst s = Some (True, lc_do [New_session COAP_PROTO_UDP dst None] s)" for s
    using ok by (simp add: open_session_def lc_reaches_def)
  moreover have "new_context env" using ok by (simp add: lc_reaches_def)
  ultimately show ?thesis unfolding lc_dialogue_def r Let_def prod.case by (simp add: wl)
qed


text \<open>
  The time to wait of a multicast request stays. After a request to a multicast address the static
  \<^verbatim>\<open>wait_seconds\<close> is the leisure of that session and one second, not the default, and the next
  request, to whatever address, waits that long.
\<close>

lemma mcast_wait_time_stays:
  assumes "is_mcast st" and "send_request env uri dst st = (Some w, st')"
    and "\<not> is_mcast st''" and "wait_seconds st'' = wait_seconds (lc_finish True st')"
    and "send_request env uri' dst' st'' = (Some w', st3)"
  shows "w' = (ucast (default_leisure env) + 1) * 1000"
proof -
  have "wait_seconds st' = ucast (default_leisure env) + 1"
    using assms(1,2) by (auto simp: send_request_def Let_def case_prod_beta split: if_splits)
  moreover have "w' = wait_seconds st'' * 1000"
    using assms(3,5) by (auto simp: send_request_def Let_def case_prod_beta split: if_splits)
  ultimately show ?thesis using assms(4) by (simp add: lc_finish_def)
qed

text \<open>
  A packet whose options cannot be made is neither sent nor deleted: the request gives up with the
  packet created, and nothing after it mentions the packet again.
\<close>

lemma failed_options_leak_pdu:
  assumes "pdu_init env (is_mcast st)" and "fst (uri_into_options env uri dst) \<noteq> 0"
  shows "\<exists>st'. send_request env uri dst st = (None, st') \<and> calls (lc_finish True st') =
     calls st @ [Register_handlers, Pdu_init (is_mcast st), Delete_optlist, Session_release True,
       Free_context (main_coap_context st), Coap_cleanup]"
  using assms by (simp add: send_request_def Let_def case_prod_beta lc_finish_def)

section \<open>A concrete run\<close>

definition lc_demo :: lc_env where
  "lc_demo = \<lparr>split_uri = (\<lambda>u. (0, \<lparr>uri_host = ''::1'', uri_port = 5683, uri_scheme = 0, uri_path = ''x''\<rparr>)),
     resolve_info = (\<lambda>h p b. Some (replicate 15 0 @ [1])), coap_is_mcast = (\<lambda>_. False), new_context = True,
     new_client_session = (\<lambda>_ _. True), new_client_session_psk2 = (\<lambda>_ _ _. True), pdu_init = (\<lambda>_. True),
     uri_into_options = (\<lambda>u d. (0, [(11, uri_path u)])), add_optlist_pdu = (\<lambda>opts. (1, opts)),
     default_leisure = 5, send_mid = (\<lambda>_. 7),
     lc_io = (\<lambda>n. (if n = 0 then [Message (Some (''ab'', 0, 4))] else if n = 1 then [Message (Some (''cd'', 2, 4))] else [], 1000)),
     COAP_URI_SCHEME_COAP = 0, COAP_URI_SCHEME_COAP_TCP = 2\<rparr>"

lemma lc_demo_io: "io_int lc_demo" "elapsed lc_demo k m = 1000 * m"
proof -
  show "io_int lc_demo" by (simp add: io_int_def lc_demo_def)
  show "elapsed lc_demo k m = 1000 * m" by (induction m arbitrary: k) (simp_all add: lc_demo_def)
qed

lemma lc_init_ok: "lc_ok lc_init"
  by (simp add: lc_ok_def lc_init_def DEFAULT_WAIT_TIME_def)

theorem libcoap_init_returns_witness: "\<exists>st'. client_coap_init lc_demo [''libcoap'', ''coap://[::1]/x''] lc_init = Some st'"
  using libcoap_init_returns [OF lc_demo_io(1) lc_init_ok, of 65536] by (simp add: lc_demo_io)

lemma libcoap_wait_returns_iff_witness:
  "(\<exists>st'. wait_loop lc_demo 0 15000 lc_init = Some st') \<and> unat (15000 :: u32) \<le> elapsed lc_demo 0 15"
  using libcoap_wait_returns_iff [OF lc_demo_io(1), of 15000 lc_init]
  by (auto simp: lc_demo_io intro: exI [of _ 15])

lemma lc_demo_reaches: "lc_reaches lc_demo ''coap://[::1]/x'' \<lparr>uri_host = ''::1'', uri_port = 5683, uri_scheme = 0, uri_path = ''x''\<rparr>
    (replicate 15 0 @ [1]) [(11, ''x'')]"
  by (simp add: lc_reaches_def lc_demo_def COAP_INVALID_MID_def)

lemma lc_demo_blocks: "i < length [''ab'', ''cd''] \<Longrightarrow>
    fst (lc_io lc_demo i) = [block_messages (length (concat [''ab'', ''cd''])) 0 [''ab'', ''cd''] ! i]"
  by (cases i) (auto simp: lc_demo_def)


lemma lc_demo_runs: "\<exists>st'. client_coap_init lc_demo argv lc_init = Some st'"
  using client_init_terminates [OF lc_demo_io(1) lc_init_ok, of 65536] by (simp add: lc_demo_io)


end
