(* ===== verification/Xbd_Server.thy ===== *)
theory Xbd_Server
  imports Gcoap_Server Libcoap_Client
begin

text \<open>
  The rest of the CoAP server of \<^verbatim>\<open>examples/xbd-net\<close>: its pre-shared key
  (\<^verbatim>\<open>modules/minerva_gcoap/server.c\<close>, \<^verbatim>\<open>tinydtls_keys.h\<close>), the listener, and the handlers that Rust exports
  for its resources (\<^verbatim>\<open>src/xbd/server.rs\<close>), which call those of C and print the length of the response.
  The properties are about histories of requests.
\<close>

section \<open>Credential\<close>

definition PSK_DEFAULT_IDENTITY :: string where "PSK_DEFAULT_IDENTITY = ''Client_identity''"
definition PSK_DEFAULT_KEY :: string where "PSK_DEFAULT_KEY = ''secretPSK''"
definition GCOAP_DTLS_CREDENTIAL_TAG :: nat where "GCOAP_DTLS_CREDENTIAL_TAG = 10"

text \<open>The arrays hold the string literals with their terminators.\<close>

definition psk_id_0 :: string where "psk_id_0 = PSK_DEFAULT_IDENTITY @ [NUL]"
definition psk_key_0 :: string where "psk_key_0 = PSK_DEFAULT_KEY @ [NUL]"

record credman_buffer =
  cb_s :: string
  cb_len :: nat

record credman_credential =
  cred_tag :: nat
  cred_key :: credman_buffer
  cred_id :: credman_buffer

definition credential :: credman_credential where
  "credential = \<lparr>cred_tag = GCOAP_DTLS_CREDENTIAL_TAG,
     cred_key = \<lparr>cb_s = psk_key_0, cb_len = length psk_key_0 - 1\<rparr>,
     cred_id = \<lparr>cb_s = psk_id_0, cb_len = length psk_id_0 - 1\<rparr>\<rparr>"

text \<open>What is behind the pointer and the length.\<close>

definition buffer_bytes :: "credman_buffer \<Rightarrow> string option" where
  "buffer_bytes b = (if cb_len b \<le> length (cb_s b) then Some (take (cb_len b) (cb_s b)) else None)"

section \<open>Handlers and listener\<close>

datatype exported_handler = Xbd_riot_stats_handler | Xbd_riot_board_handler | Xbd_riot_fileserver_handler

definition print_pdu_len :: "string \<Rightarrow> int \<times> coap_pkt \<times> gcoap_app \<Rightarrow> int \<times> coap_pkt \<times> gcoap_app" where
  "print_pdu_len name res =
     (case res of (n, pk, s) \<Rightarrow> (n, pk, gputs (''@@ '' @ name @ ''(): pdu_len: '' @ dec_int n) s))"

definition xbd_riot_stats_handler ::
  "gcoap_env \<Rightarrow> coap_pkt \<Rightarrow> gcoap_app \<Rightarrow> (int \<times> coap_pkt \<times> gcoap_app) option" where
  "xbd_riot_stats_handler env pk s =
     map_option (print_pdu_len ''xbd_riot_stats_handler'') (riot_stats_handler_minerva env pk s)"

text \<open>The C string of the literal \<^verbatim>\<open>minerva\0\<close>.\<close>

definition xbd_riot_board_handler ::
  "gcoap_env \<Rightarrow> coap_pkt \<Rightarrow> gcoap_app \<Rightarrow> (int \<times> coap_pkt \<times> gcoap_app) option" where
  "xbd_riot_board_handler env pk s =
     map_option (print_pdu_len ''xbd_riot_board_handler'')
       (riot_board_handler_minerva env pk (cstr (''minerva'' @ [NUL])) s)"

text \<open>RIOT's \<^verbatim>\<open>gcoap_fileserver_handler\<close> is the parameter \<open>fileserver\<close>.\<close>

type_synonym fileserver = "coap_pkt \<Rightarrow> (int \<times> coap_pkt) option"

definition xbd_riot_fileserver_handler ::
  "fileserver \<Rightarrow> coap_pkt \<Rightarrow> gcoap_app \<Rightarrow> (int \<times> coap_pkt \<times> gcoap_app) option" where
  "xbd_riot_fileserver_handler fileserver pk s =
     map_option (\<lambda>(n, pk). print_pdu_len ''xbd_riot_fileserver_handler'' (n, pk, s)) (fileserver pk)"

fun call_handler :: "gcoap_env \<Rightarrow> fileserver \<Rightarrow> exported_handler \<Rightarrow> coap_pkt \<Rightarrow> gcoap_app \<Rightarrow>
    (int \<times> coap_pkt \<times> gcoap_app) option" where
  "call_handler env fs Xbd_riot_stats_handler pk s = xbd_riot_stats_handler env pk s"
| "call_handler env fs Xbd_riot_board_handler pk s = xbd_riot_board_handler env pk s"
| "call_handler env fs Xbd_riot_fileserver_handler pk s = xbd_riot_fileserver_handler fs pk s"

text \<open>The resources with their handlers, in the order of \<^verbatim>\<open>_resources\<close>.\<close>

definition listener :: "gcoap_env \<Rightarrow> (string \<times> u32 \<times> exported_handler) list" where
  "listener env =
     [(''/cli/stats'', flag_get env OR flag_post env OR flag_put env, Xbd_riot_stats_handler),
      (''/riot/board'', flag_get env, Xbd_riot_board_handler)]"

text \<open>The state after a request to a handler, in a history of requests.\<close>

definition serve :: "gcoap_env \<Rightarrow> fileserver \<Rightarrow> exported_handler \<times> coap_pkt \<Rightarrow> gcoap_app \<Rightarrow> gcoap_app option" where
  "serve env fs req s = (case req of (h, pk) \<Rightarrow> map_option (\<lambda>(_, _, s). s) (call_handler env fs h pk s))"

section \<open>Lemmas\<close>

lemma listener_resources: "map (\<lambda>(path, methods, _). (path, methods)) (listener env) = resources env"
  by (simp add: listener_def resources_def)

text \<open>Exactly the characters of the literals are added as key and identity.\<close>

lemma credential_bytes:
  "buffer_bytes (cred_key credential) = Some PSK_DEFAULT_KEY" "buffer_bytes (cred_id credential) = Some PSK_DEFAULT_IDENTITY"
  by (simp_all add: buffer_bytes_def credential_def psk_key_0_def psk_id_0_def PSK_DEFAULT_KEY_def PSK_DEFAULT_IDENTITY_def)

text \<open>The libcoap client of the same firmware has the server's key under another identity.\<close>

lemma psk_identities_differ:
  "buffer_bytes (cred_key credential) = Some COAP_USE_PSK" "buffer_bytes (cred_id credential) \<noteq> Some COAP_USE_PSK_ID"
  by (simp_all add: credential_bytes PSK_DEFAULT_KEY_def PSK_DEFAULT_IDENTITY_def COAP_USE_PSK_def COAP_USE_PSK_ID_def)

text \<open>The requests that store a number, and what the others leave.\<close>

definition stores :: "gcoap_env \<Rightarrow> exported_handler \<times> coap_pkt \<Rightarrow> bool" where
  "stores env req \<longleftrightarrow> fst req = Xbd_riot_stats_handler \<and>
     method2flag env (get_detail env (snd req)) \<in> {flag_post env, flag_put env} \<and> pk_payload_len (snd req) \<le> 5"

lemma print_pdu_len_simps [simp]:
  "fst (print_pdu_len name r) = fst r" "fst (snd (print_pdu_len name r)) = fst (snd r)"
  "req_count (snd (snd (print_pdu_len name r))) = req_count (snd (snd r))"
  by (simp_all add: print_pdu_len_def split: prod.split)

lemma serve_stores:
  assumes "stores env req" and "flag_law env"
  shows "\<exists>s'. serve env fs req s = Some s' \<and> req_count s' = stored_count (snd req)"
proof -
  obtain h pk where req: "req = (h, pk)" by fastforce
  with assms(1) have m: "h = Xbd_riot_stats_handler" "method2flag env (get_detail env pk) \<in> {flag_post env, flag_put env}"
      "pk_payload_len pk \<le> 5" by (simp_all add: stores_def)
  from stats_put_count [OF m(2) assms(2) m(3), of "gprintf (''@@ riot_stats_handler_minerva(): ^^'' @ nl) s"]
  obtain pk' s1 where "riot_stats_handler_minerva env pk s = Some (fst (response env COAP_CODE_CHANGED pk), pk', s1)"
    and "req_count s1 = stored_count pk"
    unfolding riot_stats_handler_minerva_def by blast
  with req m(1) show ?thesis by (simp add: serve_def xbd_riot_stats_handler_def print_pdu_len_def)
qed

lemma serve_count:
  assumes "serve env fs req s = Some s'" and "flag_law env"
  shows "req_count s' = (if stores env req then stored_count (snd req) else req_count s)"
proof (cases req)
  case (Pair h pk)
  show ?thesis
  proof (cases "stores env req")
    case True
    with serve_stores [OF True assms(2), of fs s] assms(1) show ?thesis by simp
  next
    case False
    with assms Pair show ?thesis
      by (cases h) (auto simp: stores_def serve_def xbd_riot_stats_handler_def riot_stats_handler_minerva_def stats_handler_def
          xbd_riot_board_handler_def riot_board_handler_minerva_def xbd_riot_fileserver_handler_def print_pdu_len_def
          Let_def bind_eq_Some_conv flag_law_def split: prod.splits if_splits)
  qed
qed

lemma serve_run_count:
  "run_steps (serve env fs) rs s = Some s' \<Longrightarrow> flag_law env \<Longrightarrow> \<forall>req \<in> set rs. \<not> stores env req \<Longrightarrow>
     req_count s' = req_count s"
  by (induction rs arbitrary: s) (auto dest: serve_count split: option.splits)

lemma int_of_small_sum: "0 \<le> n \<Longrightarrow> n < 2 ^ 30 \<Longrightarrow> k \<le> 5 \<Longrightarrow> sint (word_of_int n + word_of_nat k :: u32) = n + int k"
  by (intro sint_small_sum) auto

section \<open>Properties\<close>

text \<open>
  C26: The resource \<^verbatim>\<open>/cli/stats\<close> is a variable. Whatever requests come before and, as long as they store
  nothing, after a PUT or POST of a number below 65536 in decimal, a GET answers with exactly that text as
  its payload, right behind the header and options, whose length it adds up correctly, and leaves the number.
\<close>

theorem stats_value_served:
  assumes "finish_law env" and "fmt_law env" and "flag_law env"
    and "run_steps (serve env fs) (before @ (Xbd_riot_stats_handler, put) # after) s = Some s'"
    and "get_detail env put \<in> {2, 3}" and "pk_payload_len put \<le> 5" and "payload_bytes put = bytes_of (dec k)" and "k < 65536"
    and "\<forall>req \<in> set after. \<not> stores env req"
    and "get_detail env get = 1" and "stats_reply env get = (n, pk1)" and "0 \<le> n" and "n < 2 ^ 30" and "5 \<le> pk_payload_len pk1"
  shows "\<exists>pk2 s''. xbd_riot_stats_handler env get s' = Some (n + int (length (dec k)), pk2, s'') \<and>
     take (nat n + length (dec k)) (pk_buf pk2) = take (nat n) (pk_buf pk1) @ bytes_of (dec k) \<and>
     unat (req_count s'') = k"
proof -
  from assms(4) obtain s1 s2 where s1: "run_steps (serve env fs) before s = Some s1"
    and s2: "serve env fs (Xbd_riot_stats_handler, put) s1 = Some s2" and s3: "run_steps (serve env fs) after s2 = Some s'"
    by (auto simp: run_steps_append split: option.splits)
  have "stores env (Xbd_riot_stats_handler, put)"
    using assms(3,5,6) by (auto simp: stores_def flag_law_def)
  with serve_count [OF s2 assms(3)] serve_run_count [OF s3 assms(3,9)] have "req_count s' = stored_count put" by simp
  with assms(7,8) have c: "req_count s' = word_of_nat k" by (simp add: stored_count_dec)
  then have t: "fmt_u16_dec env (req_count s') = dec k" and k: "unat (req_count s') = k"
    using assms(2,8) by (simp_all add: fmt_law_def unat_of_nat)
  have m: "method2flag env (get_detail env get) = flag_get env" using assms(3,10) by (simp add: flag_law_def)
  have len: "length (dec k) \<le> 5" using assms(8) by (intro length_dec_le) simp_all
  let ?pk = "pk1\<lparr>pk_buf := take (nat n) (pk_buf pk1) @ bytes_of (dec k) @ drop (nat n + length (dec k)) (pk_buf pk1)\<rparr>"
  have "map_option (\<lambda>(r, pk, _). (r, pk)) (riot_stats_handler_minerva env get s') = Some (n + int (length (dec k)), ?pk)"
    using stats_get [OF m assms(1,11,12), of s'] t len assms(12-14) by (simp add: Let_def int_of_small_sum)
  then obtain s3 where r: "riot_stats_handler_minerva env get s' = Some (n + int (length (dec k)), ?pk, s3)" by auto
  have "serve env fs (Xbd_riot_stats_handler, get) s' = Some (snd (snd (print_pdu_len ''xbd_riot_stats_handler''
      (n + int (length (dec k)), ?pk, s3))))"
    by (simp add: serve_def xbd_riot_stats_handler_def r split: prod.split)
  from serve_count [OF this assms(3)] m assms(3) have "req_count s3 = req_count s'"
    by (simp add: stores_def flag_law_def)
  moreover have "nat n \<le> length (pk_buf pk1)"
    using finish_lawD(2) [OF assms(1) assms(11) [unfolded stats_reply_def] assms(12)] by linarith
  ultimately show ?thesis using r k by (simp add: xbd_riot_stats_handler_def print_pdu_len_def)
qed

theorem stats_value_served_witness:
  "\<exists>s' pk2 s''. run_steps (serve gcoap_demo (\<lambda>_. None))
       [(Xbd_riot_stats_handler, \<lparr>pk_buf = [0, 3, 0, 0] @ bytes_of (dec 1234), pk_payload = 4, pk_payload_len = 4, pk_opts = []\<rparr>),
        (Xbd_riot_board_handler, demo_pkt 128 1)] gcoap_start = Some s' \<and>
     xbd_riot_stats_handler gcoap_demo (demo_pkt 128 1) s' = Some (11, pk2, s'') \<and>
     drop 7 (take 11 (pk_buf pk2)) = bytes_of (dec 1234) \<and> unat (req_count s'') = 1234"
proof -
  let ?put = "\<lparr>pk_buf = [0, 3, 0, 0] @ bytes_of (dec 1234), pk_payload = 4, pk_payload_len = 4, pk_opts = []\<rparr>"
  let ?after = "[(Xbd_riot_board_handler, demo_pkt 128 1)]"
  let ?reply = "stats_reply gcoap_demo (demo_pkt 128 1)"
  have l: "length (dec 1234) = 4" by (simp add: dec.simps)
  then have p: "pk_payload_len ?put \<le> 5" "payload_bytes ?put = bytes_of (dec 1234)" by (simp_all add: payload_bytes_def)
  have d: "get_detail gcoap_demo ?put \<in> {2, 3}" "get_detail gcoap_demo (demo_pkt 128 1) = 1"
    by (simp_all add: gcoap_demo_def demo_pkt_def)
  have n: "fst ?reply = 7" "5 \<le> pk_payload_len (snd ?reply)" "length (pk_buf (snd ?reply)) = 128"
    by (simp_all add: stats_reply_def gcoap_demo_def demo_pkt_def demo_finish_def)
  then have r: "?reply = (7, snd ?reply)" by (metis prod.collapse)
  have a: "\<forall>req \<in> set ?after. \<not> stores gcoap_demo req" by (simp add: stores_def)
  have "\<exists>s'. run_steps (serve gcoap_demo (\<lambda>_. None)) ([] @ (Xbd_riot_stats_handler, ?put) # ?after) gcoap_start = Some s'"
  proof -
    have "stores gcoap_demo (Xbd_riot_stats_handler, ?put)" using d(1) p(1) by (auto simp: stores_def gcoap_demo_def)
    from serve_stores [OF this demo_laws(4)] obtain s1 where
      "serve gcoap_demo (\<lambda>_. None) (Xbd_riot_stats_handler, ?put) gcoap_start = Some s1" by auto
    moreover have "\<exists>s2. serve gcoap_demo (\<lambda>_. None) (Xbd_riot_board_handler, demo_pkt 128 1) s1 = Some s2" for s1
      by (simp add: serve_def xbd_riot_board_handler_def riot_board_handler_minerva_def cstr_def gcoap_demo_def demo_pkt_def
        demo_finish_def put_payload_def mem_write_def Let_def split: prod.split)
    ultimately show ?thesis by (simp split: option.splits)
  qed
  then obtain s' where run: "run_steps (serve gcoap_demo (\<lambda>_. None)) ([] @ (Xbd_riot_stats_handler, ?put) # ?after) gcoap_start = Some s'"
    by blast
  from stats_value_served [OF demo_laws(1) demo_laws(3) demo_laws(4) run d(1) p _ a d(2) r _ _ n(2)] n l run
  show ?thesis by auto
qed

text \<open>
  C33: A GET of \<^verbatim>\<open>/riot/board\<close>, whose handler is the one exported by Rust, answers with the seven bytes of
  \<^verbatim>\<open>minerva\<close> behind the header and prints the length of the response; where they do not fit it answers with
  an internal server error. No request and no size of the buffer makes it fail or write past the packet.
\<close>

theorem board_answers_minerva:
  assumes "finish_law env" and "opt_finish env True (opt_add env (Format (format_text env))
      (resp_init env COAP_CODE_CONTENT pk)) = (n, pk1)" and "n < 2 ^ 30"
  shows "(''/riot/board'', flag_get env, Xbd_riot_board_handler) \<in> set (listener env) \<and>
    (\<exists>r pk' s'. call_handler env fs Xbd_riot_board_handler pk s = Some (r, pk', s') \<and>
       last (g_log s') = GOut (''@@ xbd_riot_board_handler(): pdu_len: '' @ dec_int r @ nl) \<and> req_count s' = req_count s \<and>
       (if 0 \<le> n \<and> 7 \<le> pk_payload_len pk1
        then r = n + 7 \<and> length (pk_buf pk') = length (pk_buf pk1) \<and>
          take (nat r) (pk_buf pk') = take (nat n) (pk_buf pk1) @ bytes_of ''minerva''
        else (r, pk') = response env COAP_CODE_INTERNAL_SERVER_ERROR pk1))"
proof -
  have call: "call_handler env fs Xbd_riot_board_handler pk s =
      map_option (print_pdu_len ''xbd_riot_board_handler'') (riot_board_handler_minerva env pk ''minerva'' s)"
    by (simp add: xbd_riot_board_handler_def cstr_def)
  have "\<exists>r pk' s'. riot_board_handler_minerva env pk ''minerva'' s = Some (r, pk', s') \<and> req_count s' = req_count s \<and>
     (if 0 \<le> n \<and> 7 \<le> pk_payload_len pk1
      then r = n + 7 \<and> length (pk_buf pk') = length (pk_buf pk1) \<and>
        take (nat r) (pk_buf pk') = take (nat n) (pk_buf pk1) @ bytes_of ''minerva''
      else (r, pk') = response env COAP_CODE_INTERNAL_SERVER_ERROR pk1)"
  proof (cases "0 \<le> n \<and> 7 \<le> pk_payload_len pk1")
    case True
    then have "nat n + 7 \<le> length (pk_buf pk1)" using finish_lawD(2) [OF assms(1,2)] by linarith
    moreover have "sint (word_of_int n + word_of_nat 7 :: u32) = n + 7"
      using True assms(3) by (subst sint_small_sum) simp_all
    ultimately show ?thesis
      using True assms(2) put_payload_finished [OF assms(1,2), of "''minerva''"]
      by (auto simp: riot_board_handler_minerva_def Let_def nat_add_distrib)
  next
    case False
    then have "\<not> 7 \<le> pk_payload_len pk1" using finish_lawD(3) [OF assms(1,2)] by force
    with assms(2) show ?thesis by (auto simp: riot_board_handler_minerva_def Let_def split: prod.splits)
  qed
  then obtain r pk' s' where "riot_board_handler_minerva env pk ''minerva'' s = Some (r, pk', s')" "req_count s' = req_count s"
    and "if 0 \<le> n \<and> 7 \<le> pk_payload_len pk1
      then r = n + 7 \<and> length (pk_buf pk') = length (pk_buf pk1) \<and>
        take (nat r) (pk_buf pk') = take (nat n) (pk_buf pk1) @ bytes_of ''minerva''
      else (r, pk') = response env COAP_CODE_INTERNAL_SERVER_ERROR pk1" by blast
  then show ?thesis unfolding call
    by (intro conjI exI [of _ r] exI [of _ pk'] exI [of _ "snd (snd (print_pdu_len ''xbd_riot_board_handler'' (r, pk', s')))"])
       (simp_all add: listener_def print_pdu_len_def split del: if_split)
qed

theorem board_answers_minerva_witness:
  "(\<exists>r pk' s'. call_handler gcoap_demo (\<lambda>_. None) Xbd_riot_board_handler (demo_pkt 16 1) gcoap_start = Some (r, pk', s') \<and>
     r = 14 \<and> drop 7 (take 14 (pk_buf pk')) = bytes_of ''minerva'') \<and>
   (\<exists>pk' s'. call_handler gcoap_demo (\<lambda>_. None) Xbd_riot_board_handler (demo_pkt 12 1) gcoap_start = Some (4, pk', s'))"
proof -
  let ?f = "\<lambda>k. opt_finish gcoap_demo True (opt_add gcoap_demo (Format (format_text gcoap_demo))
      (resp_init gcoap_demo COAP_CODE_CONTENT (demo_pkt k 1)))"
  have n: "fst (?f 16) = 7" "pk_payload_len (snd (?f 16)) = 9" "length (pk_buf (snd (?f 16))) = 16"
    by (simp_all add: gcoap_demo_def demo_pkt_def demo_finish_def)
  then have f: "?f 16 = (7, snd (?f 16))" by (metis prod.collapse)
  have m: "fst (?f 12) = 7" "pk_payload_len (snd (?f 12)) = 5" "fst (response gcoap_demo COAP_CODE_INTERNAL_SERVER_ERROR (snd (?f 12))) = 4"
    by (simp_all add: gcoap_demo_def demo_pkt_def demo_finish_def)
  then have g: "?f 12 = (7, snd (?f 12))" by (metis prod.collapse)
  have "drop 7 (take (nat 7) (pk_buf (snd (?f 16))) @ bytes_of ''minerva'') = bytes_of ''minerva''" using n by simp
  with board_answers_minerva [OF demo_laws(1) f, of "\<lambda>_. None" gcoap_start] n
    board_answers_minerva [OF demo_laws(1) g, of "\<lambda>_. None" gcoap_start] m show ?thesis by (auto simp: prod_eq_iff)
qed

end
