(* ===== verification/Gcoap_Client.thy ===== *)
theory Gcoap_Client
  imports Gcoap_Server
begin

text \<open>
  The CoAP shell command of \<^verbatim>\<open>examples/xbd-net\<close>, \<^verbatim>\<open>modules/minerva_gcoap/client.c\<close>: the
  response handler with its blockwise follow-up request, the sending of a request, directly or
  through a proxy, and the whole of \<^verbatim>\<open>gcoap_cli_cmd\<close>. The path of the last request and the
  proxy URI are character arrays, since the code fills and reads them as such; a read of an
  unterminated array or of a null string is undefined.
\<close>

section \<open>Responses\<close>

text \<open>
  The part of \<^verbatim>\<open>_resp_handler\<close> that reports the response; the Boolean says whether the
  handler goes on to the Block2 option.
\<close>

definition resp_body :: "gcoap_env \<Rightarrow> coap_pkt \<Rightarrow> gcoap_app \<Rightarrow> gcoap_app" where
  "resp_body env pk s =
     (let s = (case get_block2 env pk of
                 Some b \<Rightarrow> if blknum b = 0 then gputs ''--- blockwise start ---'' s else s
               | None \<Rightarrow> s);
          class = get_class env pk;
          s = gprintf (''gcoap: response '' @ (if class = 2 then ''Success'' else ''Error'') @ '', code '' @
                dec (unat class) @ ''.'' @ dec02 (unat (get_detail env pk))) s
      in if pk_payload_len pk \<noteq> 0 then
           (let ct = get_ctype env pk in
            if ct = format_text env \<or> ct = format_link env \<or> class = 4 \<or> class = 5 then
              gprintf ('', '' @ dec (pk_payload_len pk) @ '' bytes'' @ nl @
                cstr (string_of (payload_bytes pk)) @ nl) s
            else
              gemit (GDump (payload_bytes pk))
                (gprintf ('', '' @ dec (pk_payload_len pk) @ '' bytes'' @ nl) s))
         else gprintf ('', empty payload'' @ nl) s)"

definition resp_report :: "gcoap_env \<Rightarrow> gmemo \<Rightarrow> coap_pkt \<Rightarrow> gcoap_app \<Rightarrow> bool \<times> gcoap_app" where
  "resp_report env memo pk s =
     (case memo_st memo of
        GCOAP_MEMO_TIMEOUT \<Rightarrow>
          (False, gprintf (''gcoap: timeout for msg ID '' @ dec02 (unat (get_id env pk)) @ nl) s)
      | GCOAP_MEMO_RESP_TRUNC \<Rightarrow>
          (True, resp_body env pk
            (gprintf (''gcoap: warning, incomplete response; continuing with the truncated payload'' @ nl) s))
      | GCOAP_MEMO_RESP \<Rightarrow> (True, resp_body env pk s)
      | _ \<Rightarrow> (False, gprintf (''gcoap: error in response'' @ nl) s))"

text \<open>\<^verbatim>\<open>_resp_handler\<close>, the request for the next block included.\<close>

definition resp_handler ::
  "gcoap_env \<Rightarrow> gmemo \<Rightarrow> coap_pkt \<Rightarrow> sock_ep \<Rightarrow> gcoap_app \<Rightarrow> gcoap_app option" where
  "resp_handler env memo pk remote s =
     (let (go, s) = resp_report env memo pk s in
      if \<not> go then Some s
      else
        (case get_block2 env pk of
           None \<Rightarrow> Some s
         | Some b \<Rightarrow>
             if more_blocks b then
               (if \<not> nul_terminated (last_req_path s) then None
                else if blknum b = 0 \<and> cstr (last_req_path s) = []
                then Some (gputs ''Path too long; can't complete blockwise'' s)
                else
                  (let path = cstr (last_req_path s);
                       msg_type = get_type env pk;
                       pk = req_init env (g_log s) (pk_buf pk) 1 (if proxied s then None else Some path);
                       s = gemit GReqInit s;
                       pk = (if msg_type = COAP_TYPE_ACK then set_type env COAP_TYPE_CON pk else pk);
                       pk = opt_add env (Block2 (b\<lparr>blknum := blknum b + 1\<rparr>)) pk;
                       pk = (if proxied s then opt_add env (ProxyUri path) pk else pk);
                       (len, pk) = opt_finish env False pk
                   in map_option snd
                        (gcoap_req_send env (pk_buf pk) (word_of_int len) remote CliHandler (memo_ctx memo) s)))
             else Some (gputs ''--- blockwise complete ---'' s)))"

section \<open>Requests\<close>

text \<open>
  \<^verbatim>\<open>_send\<close>; its result is the unsigned \<^verbatim>\<open>size_t\<close> the code keeps the result of
  \<^verbatim>\<open>gcoap_req_send\<close> in. The endpoint resolved into a local variable is read only on success.
\<close>

definition count_sent :: "u32 \<Rightarrow> gcoap_app \<Rightarrow> gcoap_app" where
  "count_sent bytes_sent s = (if 0 < bytes_sent then s\<lparr>req_count := req_count s + 1\<rparr> else s)"

definition resolve :: "gcoap_env \<Rightarrow> string \<Rightarrow> gcoap_app \<Rightarrow> sock_ep option \<times> gcoap_app" where
  "resolve env addr_str s =
     (let (r, ep) = name2ep env (g_log s) zero_ep addr_str;
          s = gemit (GName2ep addr_str) s
      in (if r \<noteq> 0 then None else Some (default_port env ep), s))"

definition send ::
  "gcoap_env \<Rightarrow> bytes \<Rightarrow> u32 \<Rightarrow> string \<Rightarrow> gcoap_app \<Rightarrow> (u32 \<times> gcoap_app) option" where
  "send env buf len addr_str s =
     (let (remote, s) = (if proxied s then (Some (proxy_remote s), s) else resolve env addr_str s)
      in case remote of
           None \<Rightarrow> Some (0, s)
         | Some ep \<Rightarrow> do {
             (n, s) \<leftarrow> gcoap_req_send env buf len ep CliHandler NoCtx s;
             let bytes_sent = word_of_int n;
             Some (bytes_sent, count_sent bytes_sent s)
           })"

definition print_usage :: "string list \<Rightarrow> gcoap_app \<Rightarrow> int \<times> gcoap_app" where
  "print_usage argv s =
     (1, gprintf (''usage: '' @ argv ! 0 @ '' <get|post|put|ping|proxy|info|server>'' @ nl) s)"

definition cli_info :: "gcoap_env \<Rightarrow> gcoap_app \<Rightarrow> int \<times> gcoap_app" where
  "cli_info env s =
     (let s = gprintf (''@@ server_state(): '' @ (if server_state s then ''ALREADY'' else ''NOT'') @
                '' initialized'' @ nl) s;
          open_reqs = op_state env (g_log s);
          s = gprintf (''CoAP server is listening on port '' @
                dec (unat (if gcoap_dtls env then gcoaps_port env else gcoap_port env)) @ nl) s;
          s = (if gcoap_dtls env then
                 (let (free, total) = dsm_slots env (g_log s) in
                  gprintf (''Free DTLS session slots: '' @ dec_int free @ ''/'' @ dec_int total @ nl)
                    (gprintf (''Connection secured with DTLS'' @ nl) s))
               else s);
          s = gprintf ('' CLI requests sent: '' @ dec (unat (req_count s)) @ nl) s;
          s = gprintf (''CoAP open requests: '' @ dec (unat open_reqs) @ nl) s;
          s = gprintf ''Configured Proxy: '' s
      in if proxied s then
           (let a = ntop env (proxy_remote s); p = dec (unat (port (proxy_remote s))) in
            (0, gprintf (if family (proxy_remote s) = AF_INET6
                         then ''['' @ a @ '']:'' @ p @ nl else a @ '':'' @ p @ nl) s))
         else (0, gputs ''None'' s))"

definition cli_proxy :: "gcoap_env \<Rightarrow> string list \<Rightarrow> gcoap_app \<Rightarrow> int \<times> gcoap_app" where
  "cli_proxy env argv s =
     (if length argv = 4 \<and> argv ! 2 = ''set'' then
        (let (r, ep) = name2ep env (g_log s) (proxy_remote s) (argv ! 3);
             s = (gemit (GName2ep (argv ! 3)) s)\<lparr>proxy_remote := ep\<rparr>
         in if r \<noteq> 0 then (1, gputs ''Could not set proxy'' s)
            else (0, s\<lparr>proxy_remote := default_port env (proxy_remote s), proxied := True\<rparr>))
      else if length argv = 3 \<and> argv ! 2 = ''unset''
      then (0, s\<lparr>proxy_remote := zero_ep, proxied := False\<rparr>)
      else (1, gprintf (''       '' @ argv ! 0 @ '' proxy unset'' @ nl)
                 (gprintf (''usage: '' @ argv ! 0 @ '' proxy set <host>[:port]'' @ nl) s)))"

text \<open>\<^verbatim>\<open>snprintf(buf, n, ...)\<close> of a text: at most \<^verbatim>\<open>n - 1\<close> characters and a NUL.\<close>

definition snprintf :: "string \<Rightarrow> char list \<Rightarrow> char list" where
  "snprintf t buf =
     (let u = take (length buf - 1) t @ [NUL] in take (length buf) u @ drop (length u) buf)"

definition method_codes :: "string list" where
  "method_codes = [''ping'', ''get'', ''post'', ''put'']"

definition code_position :: "string \<Rightarrow> int" where
  "code_position m =
     foldl (\<lambda>pos i. if m = method_codes ! i then int i else pos) (- 1) [0..<length method_codes]"

text \<open>The target of a request: its URI, the length the code works with, and the state.\<close>

definition request_uri ::
  "gcoap_env \<Rightarrow> string \<Rightarrow> string option \<Rightarrow> gcoap_app \<Rightarrow> ((string option \<times> nat) option \<times> gcoap_app) option" where
  "request_uri env host uri s =
     (if proxied s then
        (let (remote, s) = resolve env host s in
         case remote of
           None \<Rightarrow> Some (None, s)
         | Some ep \<Rightarrow>
             (case uri of
                None \<Rightarrow> None
              | Some u \<Rightarrow>
                  (let a = ntop env ep;
                       t = (if family ep = AF_INET6 then ''coap://['' @ a @ '']:'' else ''coap://'' @ a @ '':'') @
                         dec (unat (port ep)) @ u;
                       s = s\<lparr>proxy_uri := snprintf t (proxy_uri s)\<rparr>
                   in Some (Some (Some (cstr (proxy_uri s)), length t), s))))
      else Some (Some (uri, case uri of None \<Rightarrow> 0 | Some u \<Rightarrow> length u), s))"

text \<open>
  Retaining the path: the array is cleared, and filled if the length is below its size. The
  copy reads \<^verbatim>\<open>uri_len\<close> characters of \<^verbatim>\<open>uri\<close>; a ping has none, and length 0.
\<close>

definition retain_path :: "string option \<Rightarrow> nat \<Rightarrow> gcoap_app \<Rightarrow> gcoap_app option" where
  "retain_path uri uri_len s =
     (let cleared = replicate LAST_REQ_PATH_MAX NUL in
      if uri_len < LAST_REQ_PATH_MAX then
        do {
          p \<leftarrow> mem_write 0 (take uri_len (case uri of None \<Rightarrow> [] | Some u \<Rightarrow> u)) cleared;
          Some (s\<lparr>last_req_path := p\<rparr>)
        }
      else Some (s\<lparr>last_req_path := cleared\<rparr>))"

text \<open>The request itself: options, payload, sending, and the notification.\<close>

definition cli_finish :: "gcoap_env \<Rightarrow> string \<Rightarrow> string \<Rightarrow> coap_pkt \<Rightarrow> gcoap_app \<Rightarrow> (int \<times> gcoap_app) option" where
  "cli_finish env host payload pk s =
     (let (n, pk) = opt_finish env (payload \<noteq> []) pk in
      if payload \<noteq> [] \<and> pk_payload_len pk < length payload
      then Some (1, gputs ''gcoap_cli: msg buffer too small'' s)
      else do {
        pk \<leftarrow> (if payload \<noteq> [] then put_payload payload pk else Some pk);
        let len = (word_of_int n + word_of_nat (length payload) :: u32);
        let s = gprintf (''gcoap_cli: sending msg ID '' @ dec (unat (get_id env pk)) @ '', '' @
              dec (unat len) @ '' bytes'' @ nl) s;
        (sent, s) \<leftarrow> send env (pk_buf pk) len host s;
        s \<leftarrow> (if sent = 0 then Some (gputs ''gcoap_cli: msg send failed'' s) else notify_observers env s);
        Some (0, s)
      })"

definition cli_payload :: "string list \<Rightarrow> nat \<Rightarrow> string" where
  "cli_payload argv apos = (if length argv = apos + 3 then argv ! (apos + 2) else [])"

definition cli_packet ::
  "gcoap_env \<Rightarrow> nat \<Rightarrow> coap_type \<Rightarrow> string option \<Rightarrow> string \<Rightarrow> gcoap_app \<Rightarrow> coap_pkt" where
  "cli_packet env code_pos msg_type uri payload s =
     (let pk = set_type env msg_type (req_init env (g_log s) (stack_buf env)
            (word_of_nat code_pos) (if proxied s then None else uri));
          pk = (if payload \<noteq> [] then opt_add env (Format (format_text env)) pk else pk)
      in if proxied s then opt_add env (ProxyUri (the uri)) pk else pk)"

definition bad_uri :: "string option \<Rightarrow> bool" where
  "bad_uri uri = (case uri of None \<Rightarrow> False | Some u \<Rightarrow> u = [] \<or> u ! 0 \<noteq> CHR ''/'')"

definition cli_uri :: "string list \<Rightarrow> nat \<Rightarrow> nat \<Rightarrow> string option" where
  "cli_uri argv code_pos apos = (if code_pos \<noteq> 0 then Some (argv ! (apos + 1)) else None)"

definition cli_request ::
  "gcoap_env \<Rightarrow> string list \<Rightarrow> nat \<Rightarrow> coap_type \<Rightarrow> nat \<Rightarrow> gcoap_app \<Rightarrow> (int \<times> gcoap_app) option" where
  "cli_request env argv code_pos msg_type apos s =
     (if bad_uri (cli_uri argv code_pos apos)
      then Some (print_usage argv
             (gputs (''ERROR: URI-Path must start with a '' @ [CHR 0x22] @ ''/'' @ [CHR 0x22]) s))
      else do {
        (target, s) \<leftarrow> request_uri env (argv ! apos) (cli_uri argv code_pos apos) s;
        case target of
          None \<Rightarrow> Some (print_usage argv s)
        | Some (uri, uri_len) \<Rightarrow>
            (let payload = cli_payload argv apos;
                 pk = cli_packet env code_pos msg_type uri payload s
             in do {
                  s \<leftarrow> retain_path uri uri_len (gemit GReqInit s);
                  cli_finish env (argv ! apos) payload pk s
                })
      })"

definition cli_usage :: "string list \<Rightarrow> gcoap_app \<Rightarrow> int \<times> gcoap_app" where
  "cli_usage argv s =
     (1, gprintf (''    -c  Send confirmably (defaults to non-confirmable)'' @ nl)
       (gprintf (''Options'' @ nl)
       (gprintf (''       '' @ argv ! 0 @ '' ping <host>[:port]'' @ nl)
       (gprintf (''usage: '' @ argv ! 0 @ '' <get|post|put> [-c] <host>[:port] <path> [data]'' @ nl) s))))"

definition gcoap_cli_cmd :: "gcoap_env \<Rightarrow> string list \<Rightarrow> gcoap_app \<Rightarrow> (int \<times> gcoap_app) option" where
  "gcoap_cli_cmd env argv s =
     (if argv = [] then None
      else if length argv = 1 then Some (print_usage argv s)
      else if argv ! 1 = ''server'' then Some (server_init env s)
      else if argv ! 1 = ''info'' then Some (cli_info env s)
      else if argv ! 1 = ''proxy'' then Some (cli_proxy env argv s)
      else if code_position (argv ! 1) = - 1 then Some (print_usage argv s)
      else
        (let code_pos = nat (code_position (argv ! 1));
             dash_c = (2 < length argv \<and> argv ! 2 = ''-c'');
             msg_type = (if code_pos = 0 \<or> dash_c then COAP_TYPE_CON else COAP_TYPE_NON);
             apos = (if dash_c then 3 else 2)
         in if length argv = apos + 1 \<and> code_pos = 0 \<or>
               length argv = apos + 2 \<and> code_pos = 1 \<or>
               (length argv = apos + 2 \<or> length argv = apos + 3) \<and> 1 < code_pos
            then cli_request env argv code_pos msg_type apos s
            else Some (cli_usage argv s)))"

definition test_gcoap_req :: "gcoap_env \<Rightarrow> string \<Rightarrow> string \<Rightarrow> string option \<Rightarrow> gcoap_app \<Rightarrow> (int \<times> gcoap_app) option" where
  "test_gcoap_req env req host uri s =
     gcoap_cli_cmd env ([''gcoap'', req, host] @ (case uri of None \<Rightarrow> [] | Some u \<Rightarrow> [u]))
       (gprintf (''@@-------- test_gcoap_req(): gcoap '' @ req @ '' '' @ host @ '' '' @
          (case uri of None \<Rightarrow> ''(null)'' | Some u \<Rightarrow> u) @ nl) s)"

section \<open>Lemmas\<close>

text \<open>The static variables apart from the log and the counter, and the number of registrations.\<close>

definition paths :: "gcoap_app \<Rightarrow> bool \<times> sock_ep \<times> char list \<times> char list" where
  "paths s = (proxied s, proxy_remote s, proxy_uri s, last_req_path s)"

definition registrations :: "gcoap_app \<Rightarrow> nat" where
  "registrations s = length (filter (\<lambda>e. e = GRegister) (g_log s))"

lemma paths_simps [simp]:
  "paths (gemit e s) = paths s"
  "paths (s\<lparr>req_count := c\<rparr>) = paths s"
  "paths (s\<lparr>server_init_done := b\<rparr>) = paths s"
  by (simp_all add: paths_def)

lemma registrations_simps [simp]:
  "registrations (gemit e s) = registrations s + (if e = GRegister then 1 else 0)"
  "registrations (s\<lparr>req_count := c\<rparr>) = registrations s"
  "registrations (s\<lparr>server_init_done := b\<rparr>) = registrations s"
  "registrations (s\<lparr>proxied := b\<rparr>) = registrations s"
  "registrations (s\<lparr>proxy_remote := r\<rparr>) = registrations s"
  "registrations (s\<lparr>proxy_uri := u\<rparr>) = registrations s"
  "registrations (s\<lparr>last_req_path := u\<rparr>) = registrations s"
  by (simp_all add: registrations_def)

text \<open>
  The invariant of the client: both arrays have their size and a terminating NUL, and the
  listener has been registered at most once, and not before the server was started.
\<close>

definition client_ok :: "gcoap_app \<Rightarrow> bool" where
  "client_ok s \<longleftrightarrow>
     length (last_req_path s) = LAST_REQ_PATH_MAX \<and> nul_terminated (last_req_path s) \<and>
     length (proxy_uri s) = PROXY_URI_MAX \<and> nul_terminated (proxy_uri s) \<and>
     registrations s \<le> (if server_init_done s then 1 else 0)"

lemma client_ok_simps [simp]:
  "e \<noteq> GRegister \<Longrightarrow> client_ok (gemit e s) = client_ok s"
  "client_ok (s\<lparr>req_count := c\<rparr>) = client_ok s"
  "client_ok (s\<lparr>proxied := b\<rparr>) = client_ok s"
  "client_ok (s\<lparr>proxy_remote := r\<rparr>) = client_ok s"
  by (simp_all add: client_ok_def)

lemma client_ok_start: "client_ok gcoap_start"
  by (simp add: client_ok_def gcoap_start_def registrations_def nul_terminated_def
      LAST_REQ_PATH_MAX_def PROXY_URI_MAX_def)

lemma client_ok_resp_body [simp]: "client_ok (resp_body env pk s) = client_ok s"
  by (simp add: resp_body_def Let_def split: option.splits)

lemma client_ok_resp_report [simp]: "client_ok (snd (resp_report env memo pk s)) = client_ok s"
  by (simp add: resp_report_def split: memo_state.splits)

lemma client_ok_gcoap_req_send:
  "gcoap_req_send env b l r h c s = Some (n, s') \<Longrightarrow> client_ok s' = client_ok s"
  by (auto simp: gcoap_req_send_def Let_def split: if_splits)

lemma client_ok_notify: "notify_observers env s = Some s' \<Longrightarrow> client_ok s' = client_ok s"
  by (auto simp: notify_observers_def Let_def bind_eq_Some_conv
      split: prod.splits obs_init.splits if_splits)

lemma client_ok_resolve: "resolve env a s = (r, t) \<Longrightarrow> client_ok t = client_ok s"
  by (auto simp: resolve_def split: prod.splits)

lemma client_ok_count_sent [simp]: "client_ok (count_sent n s) = client_ok s"
  by (simp add: count_sent_def)

lemma client_ok_send: "send env b l a s = Some (n, s') \<Longrightarrow> client_ok s' = client_ok s"
  by (cases "resolve env a s")
     (auto simp: send_def bind_eq_Some_conv Let_def client_ok_resolve
      split: option.splits if_splits dest!: client_ok_gcoap_req_send)

lemma client_ok_server_init: "client_ok s \<Longrightarrow> client_ok (snd (server_init env s))"
  by (cases "server_init_done s") (auto simp: server_init_def client_ok_def Let_def)

lemma snprintf_length [simp]: "length (snprintf t buf) = length buf"
  by (cases "length buf") (auto simp: snprintf_def Let_def)

lemma snprintf_terminated: "buf \<noteq> [] \<Longrightarrow> nul_terminated (snprintf t buf)"
  by (cases buf) (auto simp: snprintf_def Let_def nul_terminated_def)

lemma snprintf_cstr:
  assumes "NUL \<notin> set t" and "buf \<noteq> []"
  shows "cstr (snprintf t buf) = take (length buf - 1) t"
proof -
  have "snprintf t buf = take (length buf - 1) t @ NUL # drop (length (take (length buf - 1) t @ [NUL])) buf"
    using assms(2) by (cases buf) (auto simp: snprintf_def Let_def)
  moreover have "NUL \<notin> set (take (length buf - 1) t)" using assms(1) by (meson in_set_takeD)
  ultimately show ?thesis by (simp add: cstr_append_NUL)
qed

lemma client_ok_proxy_uri: "client_ok s \<Longrightarrow> client_ok (s\<lparr>proxy_uri := snprintf t (proxy_uri s)\<rparr>)"
  by (simp add: client_ok_def PROXY_URI_MAX_def snprintf_terminated flip: length_greater_0_conv)

lemma client_ok_request_uri:
  "request_uri env h u s = Some (t, s') \<Longrightarrow> client_ok s \<Longrightarrow> client_ok s'"
  by (cases "resolve env h s")
     (auto simp: request_uri_def Let_def split: if_splits option.splits
      intro: client_ok_proxy_uri dest: client_ok_resolve)

lemma retain_path_ok:
  "client_ok s \<Longrightarrow> \<exists>s'. retain_path u n s = Some s' \<and> client_ok s' \<and> proxied s' = proxied s \<and> g_log s' = g_log s"
  by (auto simp: retain_path_def Let_def mem_write_def client_ok_def LAST_REQ_PATH_MAX_def
      nul_terminated_def)

lemma client_ok_cli_finish:
  "cli_finish env h p pk s = Some (r, s') \<Longrightarrow> client_ok s' = client_ok s"
  by (auto simp: cli_finish_def bind_eq_Some_conv Let_def split: prod.splits if_splits
      dest!: client_ok_send client_ok_notify)

lemma client_ok_print_usage [simp]: "client_ok (snd (print_usage argv s)) = client_ok s"
  by (simp add: print_usage_def)

lemma client_ok_retain_path: "retain_path u n s = Some s' \<Longrightarrow> client_ok s \<Longrightarrow> client_ok s'"
  by (metis retain_path_ok option.inject)

lemma client_ok_cli_request:
  "cli_request env argv c m a s = Some (r, s') \<Longrightarrow> client_ok s \<Longrightarrow> client_ok s'"
  by (auto simp: cli_request_def bind_eq_Some_conv Let_def print_usage_def split: if_splits option.splits
      dest!: client_ok_request_uri client_ok_retain_path client_ok_cli_finish)

lemma client_ok_cli_info [simp]: "client_ok (snd (cli_info env s)) = client_ok s"
  by (simp add: cli_info_def Let_def split: prod.splits)

lemma client_ok_cli_proxy [simp]: "client_ok (snd (cli_proxy env argv s)) = client_ok s"
  by (simp add: cli_proxy_def Let_def split: prod.splits)

lemma client_ok_cli_usage [simp]: "client_ok (snd (cli_usage argv s)) = client_ok s"
  by (simp add: cli_usage_def)

lemma client_ok_cmd: "gcoap_cli_cmd env argv s = Some (r, s') \<Longrightarrow> client_ok s \<Longrightarrow> client_ok s'"
  by (auto simp: gcoap_cli_cmd_def Let_def split: if_splits elim: client_ok_cli_request
      dest!: arg_cong [where f = snd] intro: client_ok_server_init)

lemma client_ok_resp_handler:
  assumes "resp_handler env memo pk remote s = Some s'" and "client_ok s"
  shows "client_ok s'"
proof -
  obtain go t where r: "resp_report env memo pk s = (go, t)" by fastforce
  then have "client_ok t" using assms(2) by (metis client_ok_resp_report snd_conv)
  with assms(1) r show ?thesis
    by (auto simp: resp_handler_def Let_def split: if_splits option.splits prod.splits
        dest!: client_ok_gcoap_req_send)
qed

lemma client_ok_stats: "riot_stats_handler_minerva env pk s = Some (r, pk', s') \<Longrightarrow> client_ok s' = client_ok s"
  by (cases "response env COAP_CODE_CHANGED pk"; cases "response env COAP_CODE_BAD_REQUEST pk")
     (auto simp: riot_stats_handler_minerva_def stats_handler_def Let_def bind_eq_Some_conv
      split: if_splits prod.splits)

lemma client_ok_board: "riot_board_handler_minerva env pk b s = Some (r, pk', s') \<Longrightarrow> client_ok s' = client_ok s"
  by (auto simp: riot_board_handler_minerva_def Let_def bind_eq_Some_conv
      split: if_splits prod.splits)

section \<open>Runs\<close>

text \<open>What can happen to the client and the server: shell commands, responses, requests.\<close>

datatype gcoap_call =
    CliCmd "string list"
  | RespArrives gmemo coap_pkt sock_ep
  | StatsRequest coap_pkt
  | BoardRequest coap_pkt string

fun gcoap_step :: "gcoap_env \<Rightarrow> gcoap_call \<Rightarrow> gcoap_app \<Rightarrow> gcoap_app option" where
  "gcoap_step env (CliCmd argv) s = map_option snd (gcoap_cli_cmd env argv s)"
| "gcoap_step env (RespArrives memo pk remote) s = resp_handler env memo pk remote s"
| "gcoap_step env (StatsRequest pk) s = map_option (snd \<circ> snd) (riot_stats_handler_minerva env pk s)"
| "gcoap_step env (BoardRequest pk b) s = map_option (snd \<circ> snd) (riot_board_handler_minerva env pk b s)"

lemma client_ok_step: "client_ok s \<Longrightarrow> gcoap_step env c s = Some s' \<Longrightarrow> client_ok s'"
  by (cases c) (auto dest: client_ok_cmd client_ok_resp_handler client_ok_stats client_ok_board)

interpretation gcoap: invariant_steps "gcoap_step env" client_ok for env
  by unfold_locales (rule client_ok_step)

section \<open>Commands return\<close>

text \<open>
  The buffers of the configuration are large enough for the library's own headers: without
  payload \<^verbatim>\<open>coap_opt_finish\<close> succeeds on a full-size buffer, and a notification leaves room
  for the five digits of the counter.
\<close>

definition headers_fit :: "gcoap_env \<Rightarrow> bool" where
  "headers_fit env \<longleftrightarrow> pdu_buf_size env < 2 ^ 30 \<and>
     (\<forall>pk. length (pk_buf pk) = pdu_buf_size env \<longrightarrow> 0 \<le> fst (opt_finish env False pk)) \<and>
     (\<forall>log. let (n, pk) = opt_finish env True (opt_add env (Format (format_text env))
          (snd (obs_init env log (pdu_buf_size env) ''/cli/stats''))) in 0 \<le> n \<and> 5 \<le> pk_payload_len pk)"

definition client_env :: "gcoap_env \<Rightarrow> bool" where
  "client_env env \<longleftrightarrow> finish_law env \<and> init_law env \<and> fmt_law env \<and> headers_fit env"

lemma demo_client_env: "client_env gcoap_demo"
proof -
  have "opt_finish gcoap_demo = demo_finish" "pdu_buf_size gcoap_demo = 128"
    "obs_init gcoap_demo = (\<lambda>_ n _. (GCOAP_OBS_INIT_OK, demo_pkt n 1))"
    "opt_add gcoap_demo = (\<lambda>opt pk. pk\<lparr>pk_opts := pk_opts pk @ [opt]\<rparr>)"
    by (simp_all add: gcoap_demo_def)
  then have "headers_fit gcoap_demo"
    by (simp add: headers_fit_def demo_finish_def demo_pkt_def Let_def)
  with demo_laws show ?thesis by (simp add: client_env_def)
qed

lemma headers_fit_obs:
  assumes "headers_fit env"
    and "opt_finish env True (opt_add env (Format (format_text env))
      (snd (obs_init env log (pdu_buf_size env) ''/cli/stats''))) = (n, pk)"
  shows "0 \<le> n \<and> 5 \<le> pk_payload_len pk"
proof -
  from assms(1) have "let (n, pk) = opt_finish env True (opt_add env (Format (format_text env))
      (snd (obs_init env log (pdu_buf_size env) ''/cli/stats''))) in 0 \<le> n \<and> 5 \<le> pk_payload_len pk"
    unfolding headers_fit_def by blast
  then show ?thesis by (simp add: assms(2))
qed

lemma put_payload_fits:
  "pk_payload pk + length t \<le> length (pk_buf pk) \<Longrightarrow>
   \<exists>pk'. put_payload t pk = Some pk' \<and> length (pk_buf pk') = length (pk_buf pk)"
  by (simp add: put_payload_def mem_write_def)

lemma finish_size:
  assumes "finish_law env" and "opt_finish env mark pk = (n, pk')" and "0 \<le> n"
    and "length (pk_buf pk) = k"
  shows "length (pk_buf pk') = k \<and> nat n + pk_payload_len pk' = k \<and> pk_payload pk' = nat n"
  using finish_lawD(1,2) [OF assms(1,2)] assms(3,4) by simp

lemma notify_returns:
  assumes "client_env env"
  shows "\<exists>s'. notify_observers env s = Some s'"
proof -
  obtain r pk where o: "obs_init env (g_log s) (pdu_buf_size env) ''/cli/stats'' = (r, pk)" by fastforce
  obtain n pk1 where f: "opt_finish env True (opt_add env (Format (format_text env)) pk) = (n, pk1)"
    by fastforce
  from assms have laws: "finish_law env" "fmt_law env" and size: "pdu_buf_size env < 2 ^ 30"
    by (simp_all add: client_env_def headers_fit_def)
  have "opt_finish env True (opt_add env (Format (format_text env))
      (snd (obs_init env (g_log s) (pdu_buf_size env) ''/cli/stats''))) = (n, pk1)" using o f by simp
  with assms have n: "0 \<le> n" "5 \<le> pk_payload_len pk1"
    using headers_fit_obs [of env "g_log s"] by (simp_all add: client_env_def)
  have "length (pk_buf (opt_add env (Format (format_text env)) pk)) = pdu_buf_size env"
    using assms o unfolding client_env_def init_law_def by (metis snd_conv)
  from finish_size [OF laws(1) f n(1) this] have k: "length (pk_buf pk1) = pdu_buf_size env"
      "nat n + pk_payload_len pk1 = pdu_buf_size env" by simp_all
  let ?t = "dec (unat (req_count s))"
  have "unat (req_count s) < 10 ^ 5" using unsigned_less [of "req_count s", where 'a = nat] by simp
  then have len: "length ?t \<le> 5" by (intro length_dec_le) simp_all
  have u: "unat (word_of_int n + word_of_nat (length ?t) :: u32) = nat n + length ?t"
    using n(1) k size len by (intro unat_small_sum) auto
  show ?thesis
    using o f n k len laws(2) put_payload_finished [OF laws(1) f n(1), of ?t]
    by (cases r) (auto simp: notify_observers_def fmt_law_def u)
qed

lemma send_returns:
  "unat len \<le> length buf \<Longrightarrow> \<exists>n s'. send env buf len a s = Some (n, s')"
  by (cases "resolve env a s") (auto simp: send_def gcoap_req_send_def Let_def split: option.splits)

lemma cli_finish_returns:
  assumes env: "client_env env" and size: "length (pk_buf pk) = pdu_buf_size env"
  shows "\<exists>r s'. cli_finish env h p pk s = Some (r, s')"
proof -
  obtain n pk1 where f: "opt_finish env (p \<noteq> []) pk = (n, pk1)" by fastforce
  from env have law: "finish_law env" and max: "pdu_buf_size env < 2 ^ 30"
    by (simp_all add: client_env_def headers_fit_def)
  show ?thesis
  proof (cases "p \<noteq> [] \<and> pk_payload_len pk1 < length p")
    case True
    with f show ?thesis by (simp add: cli_finish_def)
  next
    case False
    have n: "0 \<le> n"
    proof (cases "p = []")
      case True
      then show ?thesis using env size f unfolding client_env_def headers_fit_def
        by (metis fst_conv)
    next
      case False
      with \<open>\<not> (p \<noteq> [] \<and> pk_payload_len pk1 < length p)\<close> show ?thesis
        using finish_lawD(3) [OF law f] by (cases "n < 0") auto
    qed
    from finish_size [OF law f n size] have k: "length (pk_buf pk1) = pdu_buf_size env"
      "nat n + pk_payload_len pk1 = pdu_buf_size env" "pk_payload pk1 = nat n" by simp_all
    define pk2 where "pk2 = (if p \<noteq> [] then put_payload p pk1 else Some pk1)"
    obtain pk3 where pk3: "pk2 = Some pk3" "length (pk_buf pk3) = pdu_buf_size env"
      using False k put_payload_fits [of pk1 p] by (cases "p = []") (auto simp: pk2_def)
    have "nat n + length p \<le> pdu_buf_size env" using False k by (cases "p = []") auto
    then have "unat (word_of_int n + word_of_nat (length p) :: u32) \<le> length (pk_buf pk3)"
      using n max pk3(2) by (subst unat_small_sum) auto
    then have "\<exists>m s'. send env (pk_buf pk3) (word_of_int n + word_of_nat (length p)) h t = Some (m, s')" for t
      by (rule send_returns)
    then obtain m t where "send env (pk_buf pk3) (word_of_int n + word_of_nat (length p)) h
        (gprintf (''gcoap_cli: sending msg ID '' @ dec (unat (get_id env pk3)) @ '', '' @
          dec (unat (word_of_int n + word_of_nat (length p) :: u32)) @ '' bytes'' @ nl) s) = Some (m, t)"
      by blast
    moreover obtain t' where "notify_observers env t = Some t'" using notify_returns [OF env] by blast
    ultimately show ?thesis
      using False f pk3(1) unfolding cli_finish_def pk2_def [symmetric] Let_def
      by (cases "m = 0") (simp_all add: pk2_def)
  qed
qed

lemma cli_packet_size:
  assumes "client_env env"
  shows "length (pk_buf (cli_packet env c m u p s)) = pdu_buf_size env"
  using assms by (simp add: cli_packet_def client_env_def init_law_def Let_def)

lemma request_uri_returns:
  "\<not> (proxied s \<and> u = None) \<Longrightarrow> \<exists>t s'. request_uri env h u s = Some (t, s')"
  by (cases "resolve env h s") (auto simp: request_uri_def Let_def split: option.splits)

lemma cli_request_returns:
  assumes env: "client_env env" and ok: "client_ok s" and noping: "\<not> (proxied s \<and> c = 0)"
  shows "\<exists>r s'. cli_request env argv c m a s = Some (r, s')"
proof (cases "bad_uri (cli_uri argv c a)")
  case True
  then show ?thesis by (simp add: cli_request_def print_usage_def)
next
  case False
  from noping have "\<not> (proxied s \<and> cli_uri argv c a = None)" by (simp add: cli_uri_def)
  then obtain target t where t: "request_uri env (argv ! a) (cli_uri argv c a) s = Some (target, t)"
    using request_uri_returns by blast
  show ?thesis
  proof (cases target)
    case None
    with False t show ?thesis by (simp add: cli_request_def print_usage_def)
  next
    case (Some x)
    obtain u n where x: "x = (u, n)" by (cases x)
    from t ok have "client_ok (gemit GReqInit t)" by (simp add: client_ok_request_uri)
    then obtain t' where "retain_path u n (gemit GReqInit t) = Some t'" using retain_path_ok by blast
    with False t Some x show ?thesis
      using cli_finish_returns [OF env cli_packet_size [OF env]]
      by (simp add: cli_request_def Let_def)
  qed
qed

section \<open>What a request does\<close>

lemma code_position_simps [simp]:
  "code_position ''ping'' = 0" "code_position ''get'' = 1"
  "code_position ''post'' = 2" "code_position ''put'' = 3"
  by (simp_all add: code_position_def method_codes_def upt_rec)

lemma code_position_zero: "code_position m = 0 \<longleftrightarrow> m = ''ping''"
  by (auto simp: code_position_def method_codes_def upt_rec)

lemma notify_frame:
  "notify_observers env s = Some s' \<Longrightarrow> reqs s' = reqs s \<and> paths s' = paths s \<and> req_count s' = req_count s"
  by (auto simp: notify_observers_def Let_def bind_eq_Some_conv
      split: prod.splits obs_init.splits if_splits)

lemma paths_count_sent [simp]: "paths (count_sent n s) = paths s"
  by (simp add: count_sent_def)

lemma reqs_count_sent [simp]: "reqs (count_sent n s) = reqs s"
  by (simp add: count_sent_def reqs_def)

text \<open>Sending to a resolved host, or to the proxy.\<close>

lemma send_request:
  assumes "unat len \<le> length buf"
    and "if proxied s then ep = proxy_remote s
         else (\<exists>ep0. (\<forall>log. name2ep env log zero_ep a = (0, ep0)) \<and> ep = default_port env ep0)"
  shows "\<exists>n s'. send env buf len a s = Some (n, s') \<and> paths s' = paths s \<and>
     reqs s' = reqs s @ [GReq (take (unat len) buf) ep CliHandler NoCtx]"
  using assms
  by (auto simp: send_def resolve_def gcoap_req_send_def Let_def split: if_splits)

lemma cli_finish_request:
  assumes env: "client_env env"
    and f: "opt_finish env (p \<noteq> []) pk = (n, pk1)" "0 \<le> n" "length p \<le> pk_payload_len pk1"
    and size: "length (pk_buf pk) = pdu_buf_size env"
    and ep: "if proxied s then ep = proxy_remote s
         else (\<exists>ep0. (\<forall>log. name2ep env log zero_ep a = (0, ep0)) \<and> ep = default_port env ep0)"
  shows "\<exists>s'. cli_finish env a p pk s = Some (0, s') \<and> paths s' = paths s \<and>
     reqs s' = reqs s @ [GReq (take (nat n) (pk_buf pk1) @ bytes_of p) ep CliHandler NoCtx]"
proof -
  from env have law: "finish_law env" and max: "pdu_buf_size env < 2 ^ 30"
    by (simp_all add: client_env_def headers_fit_def)
  from finish_size [OF law f(1,2) size] have k: "length (pk_buf pk1) = pdu_buf_size env"
    "nat n + pk_payload_len pk1 = pdu_buf_size env" "pk_payload pk1 = nat n" by simp_all
  let ?buf = "take (nat n) (pk_buf pk1) @ bytes_of p @ drop (nat n + length p) (pk_buf pk1)"
  let ?len = "word_of_int n + word_of_nat (length p) :: u32"
  have put: "(if p \<noteq> [] then put_payload p pk1 else Some pk1) = Some (pk1\<lparr>pk_buf := ?buf\<rparr>)"
    using k f(3) by (cases "p = []") (simp_all add: put_payload_def mem_write_def bytes_of_def)
  have u: "unat ?len = nat n + length p" using f(2,3) k max by (intro unat_small_sum) auto
  then have room: "unat ?len \<le> length ?buf" using k f(3) by simp
  have msg: "take (unat ?len) ?buf = take (nat n) (pk_buf pk1) @ bytes_of p" using k f(3) u by simp
  define s1 where "s1 = gprintf (''gcoap_cli: sending msg ID '' @
      dec (unat (get_id env (pk1\<lparr>pk_buf := ?buf\<rparr>))) @ '', '' @ dec (unat ?len) @ '' bytes'' @ nl) s"
  have s1: "paths s1 = paths s" "reqs s1 = reqs s" "proxied s1 = proxied s" "proxy_remote s1 = proxy_remote s"
    by (simp_all add: s1_def)
  from ep have "if proxied s1 then ep = proxy_remote s1
     else (\<exists>ep0. (\<forall>log. name2ep env log zero_ep a = (0, ep0)) \<and> ep = default_port env ep0)"
    by (simp add: s1)
  from send_request [OF room this] obtain m t where
      t: "send env ?buf ?len a s1 = Some (m, t)" "paths t = paths s"
        "reqs t = reqs s @ [GReq (take (nat n) (pk_buf pk1) @ bytes_of p) ep CliHandler NoCtx]"
    unfolding msg s1 by blast
  obtain t' where t': "notify_observers env t = Some t'" using notify_returns [OF env] by blast
  have "cli_finish env a p pk s = Some (0, if m = 0 then gputs ''gcoap_cli: msg send failed'' t else t')"
    using f(1,3) t(1) t' put unfolding cli_finish_def s1_def Let_def by auto
  with t t' notify_frame [OF t'] show ?thesis by simp
qed

lemma retain_path_shows:
  assumes "NUL \<notin> set u"
  shows "\<exists>s'. retain_path (Some u) (length u) s = Some s' \<and>
     s' = s\<lparr>last_req_path := last_req_path s'\<rparr> \<and>
     cstr (last_req_path s') = (if length u < LAST_REQ_PATH_MAX then u else [])"
proof (cases "length u < LAST_REQ_PATH_MAX")
  case True
  then obtain k where "LAST_REQ_PATH_MAX - length u = Suc k" by (metis Suc_diff_Suc)
  with True assms show ?thesis
    by (simp add: retain_path_def Let_def mem_write_def cstr_append_NUL)
next
  case False
  then show ?thesis by (simp add: retain_path_def Let_def)
qed

lemma reqs_resp_report [simp]: "reqs (snd (resp_report env memo pk s)) = reqs s"
  by (simp add: resp_report_def resp_body_def Let_def split: memo_state.splits option.splits)

lemma paths_resp_report [simp]: "paths (snd (resp_report env memo pk s)) = paths s"
  by (simp add: resp_report_def resp_body_def Let_def split: memo_state.splits option.splits)

lemma fst_resp_report [simp]:
  "fst (resp_report env memo pk s) \<longleftrightarrow> memo_st memo \<in> {GCOAP_MEMO_RESP, GCOAP_MEMO_RESP_TRUNC}"
  by (simp add: resp_report_def split: memo_state.splits)

lemma resp_report_frame:
  assumes "resp_report env memo pk s = (go, t)"
  shows "go \<longleftrightarrow> memo_st memo \<in> {GCOAP_MEMO_RESP, GCOAP_MEMO_RESP_TRUNC}"
    and "reqs t = reqs s" and "proxied t = proxied s" and "last_req_path t = last_req_path s"
proof -
  show "go \<longleftrightarrow> memo_st memo \<in> {GCOAP_MEMO_RESP, GCOAP_MEMO_RESP_TRUNC}"
    using fst_resp_report [of env memo pk s] by (simp add: assms)
  show "reqs t = reqs s" using reqs_resp_report [of env memo pk s] by (simp add: assms)
  have "paths t = paths s" using paths_resp_report [of env memo pk s] by (simp add: assms)
  then show "proxied t = proxied s" and "last_req_path t = last_req_path s" by (simp_all add: paths_def)
qed

section \<open>Properties\<close>

text \<open>
  C19: In every run of the client and the server, whatever commands, responses and requests
  come in whatever order, the retained path stays a NUL-terminated string of its 64-byte
  array, and the CoAP listener is registered at most once.
\<close>

theorem gcoap_run_invariant:
  assumes "run_steps (gcoap_step env) calls gcoap_start = Some s"
  shows "length (last_req_path s) = LAST_REQ_PATH_MAX \<and> length (cstr (last_req_path s)) < LAST_REQ_PATH_MAX \<and>
     length (filter (\<lambda>e. e = GRegister) (g_log s)) \<le> 1"
proof -
  from gcoap.inv_run [OF client_ok_start assms] have ok: "client_ok s" .
  then have "registrations s \<le> 1" by (auto simp: client_ok_def split: if_splits)
  with ok show ?thesis
    using length_cstr_less [of "last_req_path s"] by (simp add: client_ok_def registrations_def)
qed

theorem gcoap_run_invariant_witness:
  "\<exists>s. run_steps (gcoap_step gcoap_demo) [CliCmd [''gcoap'', ''server''], CliCmd [''gcoap'', ''server'']]
     gcoap_start = Some s \<and> length (filter (\<lambda>e. e = GRegister) (g_log s)) \<le> 1"
proof -
  have "run_steps (gcoap_step gcoap_demo) [CliCmd [''gcoap'', ''server''], CliCmd [''gcoap'', ''server'']]
     gcoap_start \<noteq> None"
    by (simp add: gcoap_cli_cmd_def)
  then obtain s where "run_steps (gcoap_step gcoap_demo)
      [CliCmd [''gcoap'', ''server''], CliCmd [''gcoap'', ''server'']] gcoap_start = Some s" by blast
  with gcoap_run_invariant [OF this] show ?thesis by blast
qed

lemma cli_cmd_defined:
  assumes "client_env env" and ok: "client_ok s" and "argv \<noteq> []" and "\<not> (proxied s \<and> 1 < length argv \<and> argv ! 1 = ''ping'')"
  shows "\<exists>r s'. gcoap_cli_cmd env argv s = Some (r, s')"
proof (cases "length argv = 1 \<or> code_position (argv ! 1) = - 1 \<or> argv ! 1 \<in> {''server'', ''info'', ''proxy''}")
  case True
  with assms(3) show ?thesis by (auto simp: gcoap_cli_cmd_def)
next
  case False
  from False assms(3) have "1 < length argv" by (cases argv) auto
  moreover have "- 1 \<le> code_position m" for m by (simp add: code_position_def method_codes_def upt_rec)
  ultimately have "\<not> (proxied s \<and> nat (code_position (argv ! 1)) = 0)"
    using assms(4) False code_position_zero [of "argv ! 1"]
    by (metis antisym_conv add.left_inverse add_le_cancel_right int_one_le_iff_zero_less
        linorder_not_le nat_0_iff zle_add1_eq_le zless_add1_eq)
  note req = cli_request_returns [OF assms(1) ok this]
  define cp where "cp = nat (code_position (argv ! 1))"
  from req have "\<And>m a. \<exists>r s'. cli_request env argv cp m a s = Some (r, s')" by (simp add: cp_def)
  with False assms(3) show ?thesis
    unfolding gcoap_cli_cmd_def Let_def cp_def [symmetric] by (auto simp: cli_usage_def)
qed

text \<open>
  C13: Every command line returns, in every state the program can reach: no buffer is overrun
  and nothing undefined is read, whatever the arguments and whatever the network answers,
  except for \<^verbatim>\<open>ping\<close> while a proxy is configured.
\<close>

theorem cli_cmd_returns:
  assumes "client_env env" and "run_steps (gcoap_step env) calls gcoap_start = Some s"
    and "argv \<noteq> []" and "\<not> (proxied s \<and> 1 < length argv \<and> argv ! 1 = ''ping'')"
  shows "\<exists>r s'. gcoap_cli_cmd env argv s = Some (r, s')"
  using cli_cmd_defined [OF assms(1) gcoap.inv_run [OF client_ok_start assms(2)] assms(3,4)] .

theorem cli_cmd_returns_witness:
  "\<exists>r s'. gcoap_cli_cmd gcoap_demo [''gcoap'', ''put'', ''::1'', ''/cli/stats'', ''7''] gcoap_start = Some (r, s')"
proof -
  have "run_steps (gcoap_step gcoap_demo) [] gcoap_start = Some gcoap_start" by simp
  moreover have "\<not> proxied gcoap_start" by (simp add: gcoap_start_def)
  ultimately show ?thesis using cli_cmd_returns [OF demo_client_env] by blast
qed

text \<open>The request of \<^verbatim>\<open>get\<close>, \<^verbatim>\<open>post\<close> and \<^verbatim>\<open>put\<close>, for the properties below and of the whole program.\<close>

lemma cli_request_sends:
  assumes "client_env env" and "\<not> proxied s" and "\<forall>log. name2ep env log zero_ep host = (0, ep)"
    and "path = CHR ''/'' # rest" and "NUL \<notin> set path" and "host \<noteq> ''-c''"
    and "m = ''get'' \<and> data = [] \<or> m \<in> {''post'', ''put''} \<and> length data \<le> 1"
    and "opt_finish env (concat data \<noteq> [])
      (cli_packet env (nat (code_position m)) COAP_TYPE_NON (Some path) (concat data) s) = (n, pk)"
    and "0 \<le> n" and "length (concat data) \<le> pk_payload_len pk"
  shows "\<exists>s'. gcoap_cli_cmd env (c # m # host # path # data) s = Some (0, s') \<and>
     reqs s' = reqs s @ [GReq (take (nat n) (pk_buf pk) @ bytes_of (concat data))
       (default_port env ep) CliHandler NoCtx] \<and>
     cstr (last_req_path s') = (if length path < LAST_REQ_PATH_MAX then path else [])"
proof -
  let ?argv = "c # m # host # path # data"
  have pay: "cli_payload ?argv 2 = concat data"
    using assms(7) by (cases data) (auto simp: cli_payload_def)
  have cmd: "gcoap_cli_cmd env ?argv s = cli_request env ?argv (nat (code_position m)) COAP_TYPE_NON 2 s"
  proof -
    have len: "length data = 0 \<or> length data = 1" using assms(7) by (auto simp: le_Suc_eq)
    consider "m = ''get''" "data = []" | "m = ''post''" | "m = ''put''" using assms(7) by blast
    then show ?thesis using len assms(6) by cases (auto simp: gcoap_cli_cmd_def)
  qed
  have uri: "cli_uri ?argv (nat (code_position m)) 2 = Some path"
    using assms(7) by (auto simp: cli_uri_def)
  have good: "\<not> bad_uri (Some path)" using assms(4) by (simp add: bad_uri_def)
  obtain t where t: "retain_path (Some path) (length path) (gemit GReqInit s) = Some t"
      "t = (gemit GReqInit s)\<lparr>last_req_path := last_req_path t\<rparr>"
      "cstr (last_req_path t) = (if length path < LAST_REQ_PATH_MAX then path else [])"
    using retain_path_shows [OF assms(5)] by blast
  from t(2) obtain q where "t = (gemit GReqInit s)\<lparr>last_req_path := q\<rparr>" by blast
  then have frame: "proxied t = proxied s" "reqs t = reqs s" by (simp_all add: reqs_def)
  have ep: "if proxied t then default_port env ep = proxy_remote t
     else (\<exists>ep0. (\<forall>log. name2ep env log zero_ep host = (0, ep0)) \<and> default_port env ep = default_port env ep0)"
    using assms(2,3) frame by auto
  from cli_finish_request [OF assms(1,8-10) cli_packet_size [OF assms(1)] ep] obtain s' where
      "cli_finish env host (concat data)
        (cli_packet env (nat (code_position m)) COAP_TYPE_NON (Some path) (concat data) s) t = Some (0, s')"
      "paths s' = paths t"
      "reqs s' = reqs t @ [GReq (take (nat n) (pk_buf pk) @ bytes_of (concat data))
       (default_port env ep) CliHandler NoCtx]" by blast
  with assms(2) cmd uri good t pay frame show ?thesis
    by (simp add: cli_request_def request_uri_def Let_def paths_def)
qed

text \<open>
  C14: A \<^verbatim>\<open>get\<close>, \<^verbatim>\<open>post\<close> or \<^verbatim>\<open>put\<close> without proxy sends exactly one request: the header and
  options the library encodes for a non-confirmable message with that method and path,
  followed by the data, to the resolved host with the default CoAP port filled in. The path is
  retained for blockwise transfers if it is shorter than 64 characters.
\<close>

theorem cli_request_sent:
  assumes "client_env env" and "\<not> proxied s" and "\<forall>log. name2ep env log zero_ep host = (0, ep)"
    and "path = CHR ''/'' # rest" and "NUL \<notin> set path" and "host \<noteq> ''-c''"
    and "m = ''get'' \<and> data = [] \<or> m \<in> {''post'', ''put''} \<and> length data \<le> 1"
    and "opt_finish env (concat data \<noteq> [])
      (cli_packet env (nat (code_position m)) COAP_TYPE_NON (Some path) (concat data) s) = (n, pk)"
    and "0 \<le> n" and "length (concat data) \<le> pk_payload_len pk"
  shows "\<exists>s'. gcoap_cli_cmd env (c # m # host # path # data) s = Some (0, s') \<and>
     reqs s' = reqs s @ [GReq (take (nat n) (pk_buf pk) @ bytes_of (concat data))
       (default_port env ep) CliHandler NoCtx] \<and>
     cstr (last_req_path s') = (if length path < LAST_REQ_PATH_MAX then path else [])"
  using assms by (rule cli_request_sends)

theorem cli_request_sent_witness:
  "\<exists>s' hdr. gcoap_cli_cmd gcoap_demo [''gcoap'', ''put'', ''::1'', ''/cli/stats'', ''7''] gcoap_start = Some (0, s') \<and>
     reqs s' = [GReq (hdr @ bytes_of ''7'')
       (default_port gcoap_demo (zero_ep\<lparr>family := AF_INET6\<rparr>)) CliHandler NoCtx] \<and>
     cstr (last_req_path s') = ''/cli/stats''"
proof -
  let ?f = "opt_finish gcoap_demo (concat [''7''] \<noteq> [])
      (cli_packet gcoap_demo (nat (code_position ''put'')) COAP_TYPE_NON (Some ''/cli/stats'') (concat [''7'']) gcoap_start)"
  have p: "\<not> proxied gcoap_start" "reqs gcoap_start = []" by (simp_all add: gcoap_start_def reqs_def)
  have ep: "\<forall>log. name2ep gcoap_demo log zero_ep ''::1'' = (0, zero_ep\<lparr>family := AF_INET6\<rparr>)"
    by (simp add: gcoap_demo_def)
  have f: "0 \<le> fst ?f" "length (concat [''7'']) \<le> pk_payload_len (snd ?f)"
    using p by (simp_all add: cli_packet_def gcoap_demo_def demo_finish_def demo_pkt_def)
  obtain s' where "gcoap_cli_cmd gcoap_demo [''gcoap'', ''put'', ''::1'', ''/cli/stats'', ''7''] gcoap_start = Some (0, s')"
    "reqs s' = reqs gcoap_start @ [GReq (take (nat (fst ?f)) (pk_buf (snd ?f)) @ bytes_of (concat [''7'']))
       (default_port gcoap_demo (zero_ep\<lparr>family := AF_INET6\<rparr>)) CliHandler NoCtx]"
    "cstr (last_req_path s') = (if length ''/cli/stats'' < LAST_REQ_PATH_MAX then ''/cli/stats'' else [])"
    using cli_request_sent [OF demo_client_env p(1) ep, of "''/cli/stats''" "''cli/stats''" "''put''" "[''7'']"
        "fst ?f" "snd ?f" "''gcoap''"] f
    by fastforce
  then show ?thesis using p(2) by (auto simp: LAST_REQ_PATH_MAX_def)
qed

text \<open>
  C25: A response with more blocks to come is followed up by exactly one request, to the sender
  of the response and with the same context: a GET of the retained path that asks for the
  block after the one received, confirmable if the response was piggybacked on an
  acknowledgement.
\<close>

theorem resp_next_block:
  assumes "memo_st memo \<in> {GCOAP_MEMO_RESP, GCOAP_MEMO_RESP_TRUNC}"
    and "get_block2 env pk = Some b" and "more_blocks b" and "\<not> proxied s"
    and "nul_terminated (last_req_path s)" and "cstr (last_req_path s) = path" and "path \<noteq> []"
    and "pk0 = req_init env (g_log (snd (resp_report env memo pk s))) (pk_buf pk) 1 (Some path)"
    and "opt_finish env False (opt_add env (Block2 (b\<lparr>blknum := blknum b + 1\<rparr>))
      (if get_type env pk = COAP_TYPE_ACK then set_type env COAP_TYPE_CON pk0 else pk0)) = (n, pk1)"
    and "0 \<le> n" and "nat n \<le> length (pk_buf pk1)" and "n < 2 ^ 31"
  shows "\<exists>s'. resp_handler env memo pk remote s = Some s' \<and>
     reqs s' = reqs s @ [GReq (take (nat n) (pk_buf pk1)) remote CliHandler (memo_ctx memo)]"
proof -
  obtain go t where r: "resp_report env memo pk s = (go, t)" by fastforce
  note frame = resp_report_frame [OF r]
  have "unat (word_of_int n :: u32) = nat n"
    using unat_small_sum [of n 0] assms(10,12) by simp
  with assms frame r show ?thesis
    by (cases "get_type env pk = COAP_TYPE_ACK") (simp_all add: resp_handler_def gcoap_req_send_def Let_def)
qed

theorem resp_next_block_witness:
  "\<exists>s' msg. resp_handler gcoap_demo \<lparr>memo_st = GCOAP_MEMO_RESP, memo_ctx = NoCtx\<rparr>
     ((demo_pkt 128 0)\<lparr>pk_opts := [Block2 \<lparr>blknum = 2, szx = 6, more_blocks = True\<rparr>]\<rparr>) zero_ep
     (gcoap_start\<lparr>last_req_path := ''/a'' @ replicate 62 NUL\<rparr>) = Some s' \<and>
   reqs s' = [GReq msg zero_ep CliHandler NoCtx]"
proof -
  let ?memo = "\<lparr>memo_st = GCOAP_MEMO_RESP, memo_ctx = NoCtx\<rparr>"
  let ?b = "\<lparr>blknum = 2, szx = 6, more_blocks = True\<rparr>"
  let ?pk = "(demo_pkt 128 0)\<lparr>pk_opts := [Block2 ?b]\<rparr>"
  let ?s = "gcoap_start\<lparr>last_req_path := ''/a'' @ replicate 62 NUL\<rparr>"
  let ?f = "opt_finish gcoap_demo False (opt_add gcoap_demo (Block2 (?b\<lparr>blknum := blknum ?b + 1\<rparr>))
      (if get_type gcoap_demo ?pk = COAP_TYPE_ACK then set_type gcoap_demo COAP_TYPE_CON (demo_pkt 128 1)
       else demo_pkt 128 1))"
  have "cstr (last_req_path ?s) = ''/a''" "nul_terminated (last_req_path ?s)" "\<not> proxied ?s" "reqs ?s = []"
    by (simp_all add: cstr_def nul_terminated_def gcoap_start_def reqs_def)
  moreover have "fst ?f = 6" "length (pk_buf (snd ?f)) = 128"
    by (simp_all add: gcoap_demo_def demo_finish_def demo_pkt_def)
  moreover from this have "?f = (6, snd ?f)" by (metis prod.collapse)
  moreover have "get_block2 gcoap_demo ?pk = Some ?b"
    "demo_pkt 128 1 = req_init gcoap_demo (g_log (snd (resp_report gcoap_demo ?memo ?pk ?s)))
       (pk_buf ?pk) 1 (Some ''/a'')"
    by (simp_all add: gcoap_demo_def demo_pkt_def)
  ultimately have "\<exists>s'. resp_handler gcoap_demo ?memo ?pk zero_ep ?s = Some s' \<and>
      reqs s' = [] @ [GReq (take (nat 6) (pk_buf (snd ?f))) zero_ep CliHandler (memo_ctx ?memo)]"
    using resp_next_block [of ?memo gcoap_demo ?pk ?b ?s "''/a''" "demo_pkt 128 1" 6 "snd ?f" zero_ep]
    by simp
  then show ?thesis by fastforce
qed

text \<open>
  The response handler sends a request only when there is another block to fetch: never
  after a timeout, an error, a response without a Block2 option or the last block, and not for
  the first block of a path that was too long to be retained.
\<close>

lemma resp_requests_iff:
  assumes "resp_handler env memo pk remote s = Some s'"
  shows "reqs s' \<noteq> reqs s \<longleftrightarrow> memo_st memo \<in> {GCOAP_MEMO_RESP, GCOAP_MEMO_RESP_TRUNC} \<and>
     (\<exists>b. get_block2 env pk = Some b \<and> more_blocks b \<and> \<not> (blknum b = 0 \<and> cstr (last_req_path s) = []))"
proof -
  obtain go t where r: "resp_report env memo pk s = (go, t)" by fastforce
  note frame = resp_report_frame [OF r]
  from assms frame r show ?thesis
    by (auto simp: resp_handler_def gcoap_req_send_def Let_def split: if_splits option.splits prod.splits)
qed

lemma resp_requests_iff_witness:
  "\<exists>s'. resp_handler gcoap_demo \<lparr>memo_st = GCOAP_MEMO_TIMEOUT, memo_ctx = NoCtx\<rparr> (demo_pkt 128 0) zero_ep
     gcoap_start = Some s' \<and> reqs s' = reqs gcoap_start"
proof -
  have "resp_handler gcoap_demo \<lparr>memo_st = GCOAP_MEMO_TIMEOUT, memo_ctx = NoCtx\<rparr> (demo_pkt 128 0) zero_ep
      gcoap_start \<noteq> None"
    by (simp add: resp_handler_def resp_report_def)
  then obtain s' where "resp_handler gcoap_demo \<lparr>memo_st = GCOAP_MEMO_TIMEOUT, memo_ctx = NoCtx\<rparr>
      (demo_pkt 128 0) zero_ep gcoap_start = Some s'" by blast
  with resp_requests_iff [OF this] show ?thesis by simp
qed

text \<open>
  \<^verbatim>\<open>ping\<close> while a proxy is configured is undefined: a ping has no URI, and the proxy branch
  prints the null pointer with \<^verbatim>\<open>%s\<close> as soon as the host resolves.
\<close>

lemma cli_ping_proxied_undefined:
  assumes "proxied s" and "fst (name2ep env (g_log s) zero_ep host) = 0" and "host \<noteq> ''-c''"
  shows "gcoap_cli_cmd env [c, ''ping'', host] s = None"
  using assms
  by (cases "name2ep env (g_log s) zero_ep host")
     (simp add: gcoap_cli_cmd_def cli_request_def cli_uri_def bad_uri_def request_uri_def resolve_def)

lemma cli_ping_proxied_undefined_witness:
  "gcoap_cli_cmd gcoap_demo [''gcoap'', ''ping'', ''::1''] (gcoap_start\<lparr>proxied := True\<rparr>) = None"
  by (rule cli_ping_proxied_undefined) (simp_all add: gcoap_demo_def)

text \<open>
  A failed \<^verbatim>\<open>proxy set\<close> does not leave the old proxy in place. The name is resolved straight
  into the static endpoint, so whatever a failing resolution has written there becomes the
  proxy, while the proxy stays switched on if it was: the next request goes to that endpoint.
\<close>

lemma proxy_set_failure_clobbers:
  assumes "name2ep env (g_log s) (proxy_remote s) a = (r, ep)" and "r \<noteq> 0" and "proxied s"
    and "unat len \<le> length buf"
  shows "\<exists>s' n s''. gcoap_cli_cmd env [c, ''proxy'', ''set'', a] s = Some (1, s') \<and> proxied s' \<and>
     send env buf len host s' = Some (n, s'') \<and>
     reqs s'' = reqs s @ [GReq (take (unat len) buf) ep CliHandler NoCtx]"
proof -
  let ?s = "gputs ''Could not set proxy'' ((gemit (GName2ep a) s)\<lparr>proxy_remote := ep\<rparr>)"
  have cmd: "gcoap_cli_cmd env [c, ''proxy'', ''set'', a] s = Some (1, ?s)"
    using assms(1,2) by (simp add: gcoap_cli_cmd_def cli_proxy_def)
  have p: "proxied ?s" "proxy_remote ?s = ep" using assms(3) by simp_all
  then have "if proxied ?s then ep = proxy_remote ?s
     else (\<exists>ep0. (\<forall>log. name2ep env log zero_ep host = (0, ep0)) \<and> ep = default_port env ep0)" by simp
  from send_request [OF assms(4) this] obtain n s'' where
    "send env buf len host ?s = Some (n, s'')" "reqs s'' = reqs ?s @ [GReq (take (unat len) buf) ep CliHandler NoCtx]"
    by blast
  moreover have "reqs ?s = reqs s" by (simp add: reqs_def gemit_def)
  ultimately show ?thesis using cmd p(1) by fastforce
qed

lemma proxy_set_failure_clobbers_witness:
  "\<exists>s' n s''. gcoap_cli_cmd (gcoap_demo\<lparr>name2ep := (\<lambda>_ _ _. (- 22, zero_ep))\<rparr>) [''gcoap'', ''proxy'', ''set'', ''x'']
       (gcoap_start\<lparr>proxied := True, proxy_remote := zero_ep\<lparr>port := 5683\<rparr>\<rparr>) = Some (1, s') \<and> proxied s' \<and>
     send (gcoap_demo\<lparr>name2ep := (\<lambda>_ _ _. (- 22, zero_ep))\<rparr>) [1, 2] 2 ''::1'' s' = Some (n, s'') \<and>
     reqs s'' = [GReq [1, 2] zero_ep CliHandler NoCtx]"
proof -
  let ?env = "gcoap_demo\<lparr>name2ep := (\<lambda>_ _ _. (- 22, zero_ep))\<rparr>"
  let ?s = "gcoap_start\<lparr>proxied := True, proxy_remote := zero_ep\<lparr>port := 5683\<rparr>\<rparr>"
  have "name2ep ?env (g_log ?s) (proxy_remote ?s) ''x'' = (- 22, zero_ep)" "proxied ?s" "reqs ?s = []"
    by (simp_all add: gcoap_start_def reqs_def)
  then show ?thesis
    using proxy_set_failure_clobbers [of ?env ?s "''x''" "- 22" zero_ep 2 "[1, 2]" "''gcoap''" "''::1''"]
    by simp
qed

text \<open>
  A proxied request whose URI does not fit the 64-byte array is sent all the same, with the
  URI cut off after 63 characters: nothing compares the result of \<^verbatim>\<open>snprintf\<close> with the size of
  the array before the option is added.
\<close>

lemma proxy_uri_truncated:
  assumes "proxied s" and "name2ep env (g_log s) zero_ep host = (0, ep)" and "family ep = AF_INET6"
    and "t = ''coap://['' @ ntop env (default_port env ep) @ '']:'' @ dec (unat (port (default_port env ep))) @ u"
    and "NUL \<notin> set t" and "PROXY_URI_MAX \<le> length t" and "length (proxy_uri s) = PROXY_URI_MAX"
  shows "\<exists>s'. request_uri env host (Some u) s = Some (Some (Some (take 63 t), length t), s')"
proof -
  have "family (default_port env ep) = AF_INET6" using assms(3) by (simp add: default_port_def)
  moreover have "proxy_uri s \<noteq> []" using assms(7) by (auto simp: PROXY_URI_MAX_def)
  ultimately show ?thesis
    using assms(1,2) snprintf_cstr [OF assms(5), of "proxy_uri s"] assms(4,7)
    by (simp add: request_uri_def resolve_def Let_def PROXY_URI_MAX_def)
qed

lemma proxy_uri_truncated_witness:
  "\<exists>s' t. request_uri gcoap_demo ''::1'' (Some (CHR ''/'' # replicate 60 CHR ''a'')) (gcoap_start\<lparr>proxied := True\<rparr>) =
     Some (Some (Some (take 63 t), length t), s') \<and> 63 < length t"
proof -
  let ?s = "gcoap_start\<lparr>proxied := True\<rparr>"
  let ?u = "CHR ''/'' # replicate 60 CHR ''a''"
  let ?ep = "default_port gcoap_demo (zero_ep\<lparr>family := AF_INET6\<rparr>)"
  let ?t = "''coap://['' @ ntop gcoap_demo ?ep @ '']:'' @ dec (unat (port ?ep)) @ ?u"
  have n: "name2ep gcoap_demo (g_log ?s) zero_ep ''::1'' = (0, zero_ep\<lparr>family := AF_INET6\<rparr>)"
    "ntop gcoap_demo ?ep = ''::1''" by (simp_all add: gcoap_demo_def)
  have t: "NUL \<notin> set ?t" using n(2) NUL_notin_dec by auto
  have len: "PROXY_URI_MAX \<le> length ?t" using n(2) by (simp add: PROXY_URI_MAX_def)
  have s: "proxied ?s" "length (proxy_uri ?s) = PROXY_URI_MAX" "family (zero_ep\<lparr>family := AF_INET6\<rparr>) = AF_INET6"
    by (simp_all add: gcoap_start_def)
  from len have "63 < length ?t" unfolding PROXY_URI_MAX_def by linarith
  with proxy_uri_truncated [OF s(1) n(1) s(3) refl t len s(2)] show ?thesis by blast
qed

text \<open>
  A request that fails counts as sent. \<^verbatim>\<open>gcoap_req_send\<close> answers some failures with a
  negative number; the code keeps it in an unsigned variable, so the request counter goes up
  and the caller takes the message as sent.
\<close>

lemma negative_send_counted:
  assumes "proxied s" and "unat len \<le> length buf"
    and "\<forall>log msg ep. req_send env log msg ep = - int e" and "0 < e" and "e < 2 ^ 31"
  shows "\<exists>n s'. send env buf len host s = Some (n, s') \<and> n \<noteq> 0 \<and> req_count s' = req_count s + 1"
proof -
  have "unat (word_of_nat e :: u32) = e"
    using assms(5) by (simp add: unat_of_nat take_bit_nat_eq_self)
  then have "(word_of_int (- int e) :: u32) \<noteq> 0" using assms(4) by auto
  then have "(word_of_int (- int e) :: u32) \<noteq> 0 \<and> 0 < (word_of_int (- int e) :: u32)"
    by (simp only: word_neq_0_conv simp_thms)
  then show ?thesis using assms(1-3)
    by (auto simp: send_def gcoap_req_send_def count_sent_def Let_def)
qed

lemma negative_send_counted_witness:
  "\<exists>n s'. send (gcoap_demo\<lparr>req_send := (\<lambda>_ _ _. - 107)\<rparr>) [1, 2] 2 ''::1'' (gcoap_start\<lparr>proxied := True\<rparr>) =
     Some (n, s') \<and> n \<noteq> 0 \<and> req_count s' = 1"
  using negative_send_counted [of "gcoap_start\<lparr>proxied := True\<rparr>" 2 "[1, 2]"
      "gcoap_demo\<lparr>req_send := (\<lambda>_ _ _. - 107)\<rparr>" 107 "''::1''"]
  by (simp add: gcoap_start_def)

end
