(* ===== verification/Hex2ints.thy ===== *)
theory Hex2ints
  imports Studio_Prelude
begin

text \<open>
  The hexadecimal reader of the lwIP test application,
  \<^verbatim>\<open>examples/native-lwip/main/common.c\<close>. The output array is explicit memory: the loop
  writes through \<^verbatim>\<open>out\<close> with no length check, so a write past the array is
  \<^const>\<open>None\<close>. The reader is proved equal to a reference definition (collect the
  hexadecimal digits, pack them in pairs), inverse to printing bytes in hexadecimal, and
  safe on every line the shell can hand to it.
\<close>

section \<open>The code\<close>

text \<open>The value \<^verbatim>\<open>c\<close> that the if-chain of the loop chooses, \<^const>\<open>None\<close> for \<^verbatim>\<open>continue\<close>.\<close>

definition hex_base :: "char \<Rightarrow> byte option" where
  "hex_base ch =
     (let n = (of_char ch :: nat) in
      if 48 \<le> n \<and> n \<le> 57 then Some 48
      else if 97 \<le> n \<and> n \<le> 102 then Some (97 - 10)
      else if 65 \<le> n \<and> n \<le> 70 then Some (65 - 10)
      else None)"

text \<open>The loop: memory, the index \<^verbatim>\<open>out\<close> points at, \<^verbatim>\<open>upper\<close>, \<^verbatim>\<open>out_size\<close>, the rest of \<^verbatim>\<open>in\<close>.\<close>

fun hex2ints_loop :: "bytes \<Rightarrow> nat \<Rightarrow> bool \<Rightarrow> nat \<Rightarrow> string \<Rightarrow> (bytes \<times> bool \<times> nat) option" where
  "hex2ints_loop mem p upper out_size [] = Some (mem, upper, out_size)"
| "hex2ints_loop mem p upper out_size (ch # rest) =
     (case hex_base ch of
        None \<Rightarrow> hex2ints_loop mem p upper out_size rest
      | Some c \<Rightarrow>
          if length mem \<le> p then None
          else if upper then
            hex2ints_loop (mem[p := push_bit 4 (of_char ch - c)]) p False out_size rest
          else
            hex2ints_loop (mem[p := mem ! p OR (of_char ch - c)]) (Suc p) True (Suc out_size) rest)"

definition hex2ints :: "bytes \<Rightarrow> string \<Rightarrow> (nat \<times> bytes) option" where
  "hex2ints out s =
     (case hex2ints_loop out 0 True 0 s of
        None \<Rightarrow> None
      | Some (mem, upper, out_size) \<Rightarrow> Some (if \<not> upper then Suc out_size else out_size, mem))"

section \<open>The reference definition\<close>

definition hexval :: "char \<Rightarrow> byte option" where
  "hexval ch = map_option (\<lambda>c. of_char ch - c) (hex_base ch)"

definition nibbles :: "string \<Rightarrow> bytes" where
  "nibbles s = List.map_filter hexval s"

fun pack :: "bytes \<Rightarrow> bytes" where
  "pack [] = []"
| "pack [h] = [push_bit 4 h]"
| "pack (h # l # r) = (push_bit 4 h OR l) # pack r"

lemma nibbles_Nil [simp]: "nibbles [] = []"
  by (simp add: nibbles_def)

lemma nibbles_Cons [simp]:
  "nibbles (ch # s) = (case hexval ch of None \<Rightarrow> nibbles s | Some v \<Rightarrow> v # nibbles s)"
  by (simp add: nibbles_def List.map_filter_simps split: option.splits)

lemma nibbles_append [simp]: "nibbles (s @ t) = nibbles s @ nibbles t"
  by (induction s) (auto split: option.splits)

lemma length_nibbles_le: "length (nibbles s) \<le> length s"
  by (induction s) (auto split: option.splits)

lemma length_pack: "length (pack ns) = (length ns + 1) div 2"
  by (induction ns rule: pack.induct) auto

text \<open>The loop on the digits alone; characters that are no digits leave it unchanged.\<close>

fun nibble_loop :: "bytes \<Rightarrow> nat \<Rightarrow> bool \<Rightarrow> nat \<Rightarrow> bytes \<Rightarrow> (bytes \<times> bool \<times> nat) option" where
  "nibble_loop mem p upper k [] = Some (mem, upper, k)"
| "nibble_loop mem p upper k (v # vs) =
     (if length mem \<le> p then None
      else if upper then nibble_loop (mem[p := push_bit 4 v]) p False k vs
      else nibble_loop (mem[p := mem ! p OR v]) (Suc p) True (Suc k) vs)"

lemma hex2ints_loop_nibbles: "hex2ints_loop mem p upper k s = nibble_loop mem p upper k (nibbles s)"
  by (induction mem p upper k s rule: hex2ints_loop.induct)
     (auto simp: hexval_def split: option.splits)

lemma update_then_drop:
  "p < length mem \<Longrightarrow> take (Suc p) (mem[p := x]) = take p mem @ [x]"
  by (simp add: take_Suc_conv_app_nth)

lemma nibble_loop_pack:
  "nibble_loop mem p True k ns =
     (let bs = pack ns in
      if p + length bs \<le> length mem
      then Some (take p mem @ bs @ drop (p + length bs) mem, even (length ns), k + length ns div 2)
      else None)" if "p \<le> length mem"
  using that
proof (induction ns arbitrary: mem p k rule: pack.induct)
  case 1
  then show ?case by simp
next
  case (2 h)
  then show ?case by (simp add: upd_conv_take_nth_drop Let_def)
next
  case (3 h l r)
  show ?case
  proof (cases "p < length mem")
    case False
    then show ?thesis by (simp add: Let_def)
  next
    case True
    let ?x = "push_bit 4 h OR l"
    from True have "Suc p \<le> length (mem[p := ?x])" by simp
    note IH = "3.IH" [OF this, of "Suc k"]
    have "take (Suc p) (mem[p := ?x]) = take p mem @ [?x]"
      using True by (rule update_then_drop)
    with IH True show ?thesis by (simp add: Let_def)
  qed
qed

section \<open>Properties\<close>

lemma hex2ints_spec_aux:
  "hex2ints out s =
     (let bs = pack (nibbles s) in
      if length bs \<le> length out then Some (length bs, bs @ drop (length bs) out) else None)"
proof -
  have "nibble_loop out 0 True 0 (nibbles s) =
     (let bs = pack (nibbles s) in
      if length bs \<le> length out
      then Some (bs @ drop (length bs) out, even (length (nibbles s)), length (nibbles s) div 2)
      else None)"
    using nibble_loop_pack [of 0 out 0 "nibbles s"] by (simp add: Let_def)
  then show ?thesis
    by (auto simp: hex2ints_def hex2ints_loop_nibbles length_pack Let_def)
qed


text \<open>Printing a byte as two lower-case digits, and a byte string with a separator.\<close>

definition hex_digit :: "nat \<Rightarrow> char" where
  "hex_digit d = (if d < 10 then char_of (48 + d) else char_of (87 + d))"

definition to_hex :: "string \<Rightarrow> bytes \<Rightarrow> string" where
  "to_hex sep bs = concat (map (\<lambda>b. hex_digit (unat b div 16) # hex_digit (unat b mod 16) # sep) bs)"

lemma of_char_char_of_byte: "n < 256 \<Longrightarrow> (of_char (char_of n) :: byte) = word_of_nat n"
  by (metis mod_less of_char_of of_nat_of_char)

lemma hexval_hex_digit: "d < 16 \<Longrightarrow> hexval (hex_digit d) = Some (word_of_nat d)"
  by (auto simp: hexval_def hex_base_def hex_digit_def Let_def of_char_char_of_byte)

lemma byte_of_halves: "push_bit 4 (word_of_nat (unat b div 16)) OR word_of_nat (unat b mod 16) = (b :: byte)"
proof -
  have hi: "word_of_nat (unat b div 16) = drop_bit 4 b"
    by (simp add: drop_bit_eq_div word_arith_nat_div unat_div_distrib flip: unat_drop_bit_eq)
  have lo: "word_of_nat (unat b mod 16) = take_bit 4 b"
    by (simp add: take_bit_eq_mod word_arith_nat_mod)
  show ?thesis unfolding hi lo by (rule bit_word_eqI) (auto simp: bit_simps)
qed

lemma nibbles_to_hex:
  assumes "nibbles sep = []"
  shows "nibbles (to_hex sep bs) =
     concat (map (\<lambda>b. [word_of_nat (unat b div 16), word_of_nat (unat b mod 16)]) bs)"
proof (induction bs)
  case Nil
  then show ?case by (simp add: to_hex_def)
next
  case (Cons b bs)
  have "unat b < 256" using unsigned_less [of b] by simp
  then have "unat b div 16 < 16" "unat b mod 16 < 16" by auto
  with Cons assms show ?case by (simp add: to_hex_def hexval_hex_digit)
qed

lemma pack_halves:
  "pack (concat (map (\<lambda>b. [word_of_nat (unat b div 16), word_of_nat (unat b mod 16)]) bs)) = bs"
  by (induction bs) (simp_all add: byte_of_halves)

text \<open>
  Reading is inverse to printing: whatever byte string is written in hexadecimal, with
  any separator that has no hexadecimal digit in it (such as the colons of the test
  suite), comes back as the same bytes with its own length, if the array has room.
\<close>

lemma hex2ints_roundtrip:
  assumes "nibbles sep = []" and "length bs \<le> length out"
  shows "hex2ints out (to_hex sep bs) = Some (length bs, bs @ drop (length bs) out)"
  using assms by (simp add: hex2ints_spec_aux nibbles_to_hex pack_halves Let_def)

lemma hex2ints_roundtrip_witness:
  "nibbles '':'' = [] \<and>
   hex2ints (replicate 4 0) (to_hex '':'' [0xAB, 0xCD, 0xEF]) = Some (3, [0xAB, 0xCD, 0xEF, 0])"
proof -
  have sep: "nibbles '':'' = []" by (simp add: hexval_def hex_base_def)
  have "length [0xAB, 0xCD, 0xEF :: byte] \<le> length (replicate 4 (0 :: byte))" by simp
  from hex2ints_roundtrip [OF sep this] sep show ?thesis by (simp add: numeral_eq_Suc)
qed

text \<open>
  A string of at most 127 characters, which is all a shell line of
  \<^verbatim>\<open>SHELL_DEFAULT_BUFSIZE\<close> = 128 bytes holds, never overruns the
  \<^verbatim>\<open>SHELL_DEFAULT_BUFSIZE / 2\<close> bytes of \<^verbatim>\<open>byte_data\<close>: the reader returns, and the
  length it returns is at most half of the string's, rounded up.
\<close>

lemma hex2ints_shell_safe:
  assumes "length s \<le> 127" and "length out = 64"
  shows "\<exists>n out'. hex2ints out s = Some (n, out') \<and> length out' = 64 \<and> n \<le> (length s + 1) div 2"
proof -
  have "length (pack (nibbles s)) \<le> (length s + 1) div 2"
    using length_nibbles_le [of s] by (simp add: length_pack)
  moreover from this have "length (pack (nibbles s)) \<le> length out" using assms by simp
  ultimately show ?thesis using assms by (simp add: hex2ints_spec_aux Let_def)
qed

lemma hex2ints_shell_safe_witness:
  "length ''affe:abe'' \<le> 127 \<and> length (replicate 64 (0 :: byte)) = 64 \<and>
   (\<exists>n out'. hex2ints (replicate 64 0) ''affe:abe'' = Some (n, out') \<and> length out' = 64 \<and>
      n \<le> (length ''affe:abe'' + 1) div 2)"
  using hex2ints_shell_safe [of "''affe:abe''" "replicate 64 0"] by simp

end
