(* ===== verification/Lwip_App.thy ===== *)
theory Lwip_App
  imports Hex2ints
begin

text \<open>
  What the three shell commands of the lwIP application (\<^verbatim>\<open>ip.c\<close>, \<^verbatim>\<open>udp.c\<close> and \<^verbatim>\<open>tcp.c\<close>
  of \<^verbatim>\<open>examples/native-lwip/main\<close>) share: endpoints, the static variables of the three
  files as one record, and the log of everything the program does that its environment
  can see, in order.

  RIOT and lwIP are not part of the repository. Each function of theirs that the program
  calls is a field of the record \<open>lwip_env\<close>; its answer may depend on the whole log, so a
  field stands for any behaviour of the network stack over time, and a theorem for all
  \<open>lwip_env\<close> holds whatever the stack does.
\<close>

section \<open>Data\<close>

text \<open>The sockets the program passes on: none (\<^verbatim>\<open>NULL\<close>) or the static one of a file.\<close>

datatype sock_ref = NoSock | IpServer | UdpServer | TcpServer | TcpClient | TcpAccepted nat

datatype lwip_ev =
    Out string
  | IpSend sock_ref bytes u8 sock_ep
  | UdpSend sock_ref bytes sock_ep
  | TcpWrite sock_ref bytes
  | TcpConnect sock_ep u16
  | TcpDisconnect sock_ref
  | Usleep u32
  | ThreadCreate string string
  | SockOpen sock_ref sock_ep
  | EventLoop sock_ref
  | EventInit sock_ref
  | Recv sock_ref
  | Accept
  | Parse string
  | HexDump bytes

record lwip_app =
  ip_server_running :: bool
  udp_server_running :: bool
  tcp_server_running :: bool
  tcp_client_running :: bool
  app_log :: "lwip_ev list"

type_synonym lwip_log = "lwip_ev list"

text \<open>
  The configuration (\<^verbatim>\<open>MODULE_LWIP_IPV4\<close>, \<^verbatim>\<open>MODULE_LWIP_IPV6\<close>,
  \<^verbatim>\<open>SHELL_DEFAULT_BUFSIZE\<close>, \<^verbatim>\<open>KERNEL_PID_UNDEF\<close>) and the library.
\<close>

record lwip_env =
  lwip_ipv4 :: bool
  lwip_ipv6 :: bool
  shell_bufsize :: nat
  pid_undef :: int
  ep_any :: sock_ep
  str2ep :: "lwip_log \<Rightarrow> sock_ep \<Rightarrow> string \<Rightarrow> int \<times> sock_ep"
  ipv6_from_str :: "string \<Rightarrow> bytes option"
  ipv4_from_str :: "string \<Rightarrow> bytes option"
  ipv6_to_str :: "bytes \<Rightarrow> string"
  ipv4_to_str :: "bytes \<Rightarrow> string"
  ep_fmt :: "sock_ep \<Rightarrow> int \<times> string \<times> u16"
  ip_create :: "lwip_log \<Rightarrow> sock_ep \<Rightarrow> u8 \<Rightarrow> int"
  udp_create :: "lwip_log \<Rightarrow> sock_ep \<Rightarrow> int"
  tcp_listen :: "lwip_log \<Rightarrow> sock_ep \<Rightarrow> int"
  ip_send_to :: "lwip_log \<Rightarrow> sock_ref \<Rightarrow> bytes \<Rightarrow> u8 \<Rightarrow> sock_ep \<Rightarrow> int"
  udp_send_to :: "lwip_log \<Rightarrow> sock_ref \<Rightarrow> bytes \<Rightarrow> sock_ep \<Rightarrow> int"
  ip_recv_from :: "lwip_log \<Rightarrow> int \<times> bytes \<times> sock_ep"
  udp_recv_from :: "lwip_log \<Rightarrow> int \<times> bytes \<times> sock_ep"
  tcp_read :: "lwip_log \<Rightarrow> int \<times> bytes"
  tcp_write :: "lwip_log \<Rightarrow> sock_ref \<Rightarrow> bytes \<Rightarrow> int"
  tcp_open :: "lwip_log \<Rightarrow> sock_ep \<Rightarrow> u16 \<Rightarrow> int"
  tcp_accept :: "lwip_log \<Rightarrow> int \<times> nat"
  tcp_remote :: "lwip_log \<Rightarrow> sock_ref \<Rightarrow> int \<times> sock_ep"
  thread_create :: "lwip_log \<Rightarrow> string \<Rightarrow> int"

section \<open>Output and arguments\<close>

definition emit :: "lwip_ev \<Rightarrow> lwip_app \<Rightarrow> lwip_app" where
  "emit e s = s\<lparr>app_log := app_log s @ [e]\<rparr>"

abbreviation lprintf :: "string \<Rightarrow> lwip_app \<Rightarrow> lwip_app" where
  "lprintf t \<equiv> emit (Out t)"

abbreviation lputs :: "string \<Rightarrow> lwip_app \<Rightarrow> lwip_app" where
  "lputs t \<equiv> emit (Out (t @ nl))"

lemma emit_simps [simp]:
  "app_log (emit e s) = app_log s @ [e]"
  "ip_server_running (emit e s) = ip_server_running s"
  "udp_server_running (emit e s) = udp_server_running s"
  "tcp_server_running (emit e s) = tcp_server_running s"
  "tcp_client_running (emit e s) = tcp_client_running s"
  by (simp_all add: emit_def)

text \<open>Reading \<^verbatim>\<open>argv[i]\<close>; past \<^verbatim>\<open>argc\<close> the read is undefined.\<close>

definition arg :: "string list \<Rightarrow> nat \<Rightarrow> string option" where
  "arg argv i = (if i < length argv then Some (argv ! i) else None)"

lemma arg_Some [simp]: "i < length argv \<Longrightarrow> arg argv i = Some (argv ! i)"
  by (simp add: arg_def)

text \<open>\<^verbatim>\<open>for (unsigned i = 0; i < num; i++) body\<close> with a body that does not use \<^verbatim>\<open>i\<close>.\<close>

definition repeat :: "u32 \<Rightarrow> ('s \<Rightarrow> 's) \<Rightarrow> 's \<Rightarrow> 's" where
  "repeat num body s = (body ^^ unat num) s"

lemma repeat_induct:
  assumes "P 0 s" and "\<And>i t. P i t \<Longrightarrow> P (Suc i) (body t)"
  shows "P (unat num) (repeat num body s)"
proof -
  have "P n ((body ^^ n) s)" for n
    by (induction n) (auto intro: assms)
  then show ?thesis by (simp add: repeat_def)
qed

text \<open>The part of the log that left the device.\<close>

fun is_tx :: "lwip_ev \<Rightarrow> bool" where
  "is_tx (IpSend _ _ _ _) = True"
| "is_tx (UdpSend _ _ _) = True"
| "is_tx (TcpWrite _ _) = True"
| "is_tx _ = False"

definition tx :: "lwip_app \<Rightarrow> lwip_ev list" where
  "tx s = filter is_tx (app_log s)"

lemma tx_emit [simp]: "tx (emit e s) = (if is_tx e then tx s @ [e] else tx s)"
  by (simp add: tx_def)

text \<open>A record of the four flags: what a command may and may not change.\<close>

definition flags :: "lwip_app \<Rightarrow> bool \<times> bool \<times> bool \<times> bool" where
  "flags s = (ip_server_running s, udp_server_running s, tcp_server_running s, tcp_client_running s)"

lemma flags_emit [simp]: "flags (emit e s) = flags s"
  by (simp add: flags_def)

text \<open>
  The contract of the body of a send loop, whichever transport it uses: it transmits the
  same event each time and leaves the flags. The lemma counts the transmissions of the
  whole loop.
\<close>

locale send_loop_body =
  fixes body :: "lwip_app \<Rightarrow> lwip_app"
    and event :: "lwip_app \<Rightarrow> lwip_ev"
  assumes body_tx: "tx (body s) = tx s @ [event s]"
    and body_flags: "flags (body s) = flags s"
    and event_flags: "flags s = flags t \<Longrightarrow> event s = event t"
begin

lemma loop_tx:
  "tx (repeat num body s) = tx s @ replicate (unat num) (event s) \<and>
   flags (repeat num body s) = flags s"
proof (rule repeat_induct [where P = "\<lambda>i t. tx t = tx s @ replicate i (event s) \<and> flags t = flags s"])
  fix i t
  assume "tx t = tx s @ replicate i (event s) \<and> flags t = flags s"
  then show "tx (body t) = tx s @ replicate (Suc i) (event s) \<and> flags (body t) = flags s"
    by (auto simp: body_tx body_flags event_flags [of t s] replicate_append_same)
qed simp_all

end

end
