(* ===== verification/Lwip_Ip.thy ===== *)
theory Lwip_Ip
  imports Lwip_App
begin

text \<open>
  The raw IP command, \<^verbatim>\<open>examples/native-lwip/main/ip.c\<close>. The conditional compilation on
  \<^verbatim>\<open>MODULE_LWIP_IPV4\<close> and \<^verbatim>\<open>MODULE_LWIP_IPV6\<close> is a condition on the configuration.
\<close>

section \<open>The code\<close>

text \<open>
  The destination parsing of \<^verbatim>\<open>ip_send\<close>, \<^const>\<open>None\<close> for its error return. An IPv6-only
  build has no \<^verbatim>\<open>else\<close> for an address without a colon: \<^verbatim>\<open>dst\<close> then stays as initialised.
\<close>

definition ip_parse_dst :: "lwip_env \<Rightarrow> string \<Rightarrow> sock_ep option" where
  "ip_parse_dst env addr_str =
     (if lwip_ipv6 env \<and> CHR '':'' \<in> set addr_str then
        (case ipv6_from_str env addr_str of
           None \<Rightarrow> None
         | Some a \<Rightarrow> Some ((ep_any env)\<lparr>addr := a, family := AF_INET6\<rparr>))
      else if lwip_ipv4 env then
        (case ipv4_from_str env addr_str of
           None \<Rightarrow> None
         | Some a \<Rightarrow> Some ((ep_any env)\<lparr>addr := a, family := AF_INET\<rparr>))
      else Some (ep_any env))"

definition ip_send_once ::
  "lwip_env \<Rightarrow> bytes \<Rightarrow> string \<Rightarrow> u8 \<Rightarrow> sock_ep \<Rightarrow> u32 \<Rightarrow> lwip_app \<Rightarrow> lwip_app" where
  "ip_send_once env data addr_str protocol dst delay s =
     (let sock = (if ip_server_running s then IpServer else NoSock);
          res = ip_send_to env (app_log s) sock data protocol dst;
          s = emit (IpSend sock data protocol dst) s;
          s = (if res < 0 then lputs ''could not send'' s
               else lprintf (''Success: send '' @ dec (length data) @ '' byte over ''
                      @ (if family dst = AF_INET6 then ''IPv6'' else ''IPv4'') @ '' to '' @ addr_str
                      @ '' (next header: '' @ dec (unat protocol) @ '')'' @ nl) s)
      in emit (Usleep delay) s)"

definition ip_send ::
  "lwip_env \<Rightarrow> string \<Rightarrow> string \<Rightarrow> string \<Rightarrow> u32 \<Rightarrow> u32 \<Rightarrow> lwip_app \<Rightarrow> (int \<times> lwip_app) option" where
  "ip_send env addr_str port_str data num delay s =
     (case ip_parse_dst env addr_str of
        None \<Rightarrow> Some (1, lputs ''Error: unable to parse destination address'' s)
      | Some dst \<Rightarrow> do {
          let protocol = word_of_int (atoi port_str);
          (data_len, byte_data) \<leftarrow> hex2ints (replicate (shell_bufsize env div 2) 0) data;
          Some (0, repeat num (ip_send_once env (take data_len byte_data) addr_str protocol dst delay) s)
        })"

definition ip_start_server :: "lwip_env \<Rightarrow> string \<Rightarrow> lwip_app \<Rightarrow> int \<times> lwip_app" where
  "ip_start_server env port_str s =
     (let pid = thread_create env (app_log s) ''IP server'';
          s = emit (ThreadCreate ''IP server'' port_str) s
      in if pid \<le> pid_undef env then (1, s) else (0, s))"

definition ip_server_thread :: "lwip_env \<Rightarrow> string \<Rightarrow> lwip_app \<Rightarrow> bool \<times> lwip_app" where
  "ip_server_thread env args s =
     (let protocol = word_of_int (atoi args);
          res = ip_create env (app_log s) (ep_any env) protocol;
          s = emit (SockOpen IpServer (ep_any env)) s
      in if res < 0 then (False, s)
         else (True, emit (EventLoop IpServer) (emit (EventInit IpServer)
                (lprintf (''Success: started IP server on protocol '' @ dec (unat protocol) @ nl)
                  (s\<lparr>ip_server_running := True\<rparr>)))))"

definition ip_recv :: "lwip_env \<Rightarrow> bool \<Rightarrow> string \<Rightarrow> lwip_app \<Rightarrow> lwip_app option" where
  "ip_recv env msg_recv cb_arg s =
     (if cb_arg \<noteq> ''test'' then None
      else if \<not> msg_recv then Some s
      else
        (let (res, sock_inbuf, src) = ip_recv_from env (app_log s);
             s = emit (Recv IpServer) s
         in if res < 0 then Some (lputs ''Error on receive'' s)
            else if res = 0 then Some (lputs ''No data received'' s)
            else
              (let s = lprintf ''Received IP data from '' s;
                   s = (if lwip_ipv4 env \<and> family src = AF_INET
                        then lprintf (''['' @ ipv4_to_str env (addr src) @ '']:'' @ nl) s
                        else if lwip_ipv6 env \<and> family src = AF_INET6
                        then lprintf (''['' @ ipv6_to_str env (addr src) @ '']:'' @ nl) s
                        else lprintf (''unspecified source'' @ nl) s)
               in Some (emit (HexDump (take (nat res) sock_inbuf)) s))))"

definition ip_cmd :: "lwip_env \<Rightarrow> string list \<Rightarrow> lwip_app \<Rightarrow> (int \<times> lwip_app) option" where
  "ip_cmd env argv s = do {
     argv0 \<leftarrow> arg argv 0;
     if length argv < 2 then Some (1, lprintf (''usage: '' @ argv0 @ '' [send|server]'' @ nl) s)
     else if argv ! 1 = ''send'' then
       (if length argv < 5
        then Some (1, lprintf (''usage: '' @ argv0 @
               '' send <addr> <protocol> <hex data> [<num> [<delay in us>]]'' @ nl) s)
        else
          (let num = (if length argv > 5 then word_of_int (atoi (argv ! 5)) else 1);
               delay = (if length argv > 6 then word_of_int (atoi (argv ! 6)) else 1000000)
           in ip_send env (argv ! 2) (argv ! 3) (argv ! 4) num delay s))
     else if argv ! 1 = ''server'' then
       (if length argv < 3
        then Some (1, lprintf (''usage: '' @ argv0 @ '' server [start|stop]'' @ nl) s)
        else if argv ! 2 = ''start'' then
          (if length argv < 4
           then Some (1, lprintf (''usage '' @ argv0 @ '' server start <protocol>'' @ nl) s)
           else Some (ip_start_server env (argv ! 3) s))
        else Some (1, lputs ''error: invalid command'' s))
     else Some (1, lputs ''error: invalid command'' s)
   }"

section \<open>The send loop\<close>

definition ip_event :: "bytes \<Rightarrow> u8 \<Rightarrow> sock_ep \<Rightarrow> lwip_app \<Rightarrow> lwip_ev" where
  "ip_event data protocol dst s =
     IpSend (if ip_server_running s then IpServer else NoSock) data protocol dst"

interpretation ip_loop: send_loop_body "ip_send_once env data addr_str protocol dst delay"
    "ip_event data protocol dst"
  for env data addr_str protocol dst delay
  by unfold_locales (auto simp: ip_send_once_def Let_def ip_event_def flags_def)

end
