(* ===== verification/Lwip_Udp.thy ===== *)
theory Lwip_Udp
  imports Lwip_App
begin

text \<open>
  The UDP command, \<^verbatim>\<open>examples/native-lwip/main/udp.c\<close>: sending a decoded hexadecimal
  string a number of times, starting the server thread, and the receive handler.
\<close>

section \<open>The code\<close>

text \<open>The loop body of \<^verbatim>\<open>udp_send\<close>.\<close>

definition udp_send_once :: "lwip_env \<Rightarrow> bytes \<Rightarrow> string \<Rightarrow> sock_ep \<Rightarrow> u32 \<Rightarrow> lwip_app \<Rightarrow> lwip_app" where
  "udp_send_once env data addr_str dst delay s =
     (let sock = (if udp_server_running s then UdpServer else NoSock);
          res = udp_send_to env (app_log s) sock data dst;
          s = emit (UdpSend sock data dst) s;
          s = (if res < 0 then lputs ''could not send'' s
               else lprintf (''Success: send '' @ dec (length data) @ '' byte over UDP to ''
                             @ addr_str @ nl) s)
      in emit (Usleep delay) s)"

definition udp_send :: "lwip_env \<Rightarrow> string \<Rightarrow> string \<Rightarrow> u32 \<Rightarrow> u32 \<Rightarrow> lwip_app \<Rightarrow> (int \<times> lwip_app) option" where
  "udp_send env addr_str data num delay s =
     (let (res, dst) = str2ep env (app_log s) (ep_any env) addr_str;
          s = emit (Parse addr_str) s
      in if res < 0 then Some (1, lputs ''Error: unable to parse destination address'' s)
         else if port dst = 0 then Some (1, lputs ''Error: no port or illegal port value provided'' s)
         else do {
           (data_len, byte_data) \<leftarrow> hex2ints (replicate (shell_bufsize env div 2) 0) data;
           Some (0, repeat num (udp_send_once env (take data_len byte_data) addr_str dst delay) s)
         })"

definition udp_start_server :: "lwip_env \<Rightarrow> string \<Rightarrow> lwip_app \<Rightarrow> int \<times> lwip_app" where
  "udp_start_server env port_str s =
     (let pid = thread_create env (app_log s) ''UDP server'';
          s = emit (ThreadCreate ''UDP server'' port_str) s
      in if pid \<le> pid_undef env then (1, s) else (0, s))"

text \<open>The thread body up to \<^verbatim>\<open>event_loop\<close>, which never returns; the Boolean says whether it got there.\<close>

definition udp_server_thread :: "lwip_env \<Rightarrow> string \<Rightarrow> lwip_app \<Rightarrow> bool \<times> lwip_app" where
  "udp_server_thread env args s =
     (let server_addr = (ep_any env)\<lparr>port := word_of_int (atoi args)\<rparr>;
          res = udp_create env (app_log s) server_addr;
          s = emit (SockOpen UdpServer server_addr) s
      in if res < 0
         then (False, lprintf (''Unable to open UDP server on port '' @ dec (unat (port server_addr))
                               @ '' (error code '' @ dec_int (- res) @ '')'' @ nl) s)
         else (True, emit (EventLoop UdpServer) (emit (EventInit UdpServer)
                (lprintf (''Success: started UDP server on port '' @ dec (unat (port server_addr)) @ nl)
                  (s\<lparr>udp_server_running := True\<rparr>)))))"

text \<open>The receive handler; \<open>msg_recv\<close> is \<^verbatim>\<open>flags & SOCK_ASYNC_MSG_RECV\<close>.\<close>

definition udp_recv :: "lwip_env \<Rightarrow> bool \<Rightarrow> string \<Rightarrow> lwip_app \<Rightarrow> lwip_app option" where
  "udp_recv env msg_recv cb_arg s =
     (if cb_arg \<noteq> ''test'' then None
      else if \<not> msg_recv then Some s
      else
        (let (res, sock_inbuf, src) = udp_recv_from env (app_log s);
             s = emit (Recv UdpServer) s
         in if res < 0 then Some (lputs ''Error on receive'' s)
            else if res = 0 then Some (lputs ''No data received'' s)
            else
              (let s = lprintf ''Received UDP data from '' s;
                   (fres, addrstr, prt) = ep_fmt env src;
                   s = (if fres \<ge> 0
                        then lprintf (''['' @ addrstr @ '']:'' @ dec (unat prt) @ nl) s
                        else lprintf (''unspecified source'' @ nl) s)
               in Some (emit (HexDump (take (nat res) sock_inbuf)) s))))"

definition udp_cmd :: "lwip_env \<Rightarrow> string list \<Rightarrow> lwip_app \<Rightarrow> (int \<times> lwip_app) option" where
  "udp_cmd env argv s = do {
     argv0 \<leftarrow> arg argv 0;
     if length argv < 2 then Some (1, lprintf (''usage: '' @ argv0 @ '' [send|server]'' @ nl) s)
     else if argv ! 1 = ''send'' then
       (if length argv < 4
        then Some (1, lprintf (''usage: '' @ argv0 @
               '' send <addr>:<port> <hex data> [<num> [<delay in us>]]'' @ nl) s)
        else
          (let num = (if length argv > 4 then word_of_int (atoi (argv ! 4)) else 1);
               delay = (if length argv > 5 then word_of_int (atoi (argv ! 5)) else 1000000)
           in udp_send env (argv ! 2) (argv ! 3) num delay s))
     else if argv ! 1 = ''server'' then
       (if length argv < 3
        then Some (1, lprintf (''usage: '' @ argv0 @ '' server [start|stop]'' @ nl) s)
        else if argv ! 2 = ''start'' then
          (if length argv < 4
           then Some (1, lprintf (''usage '' @ argv0 @ '' server start <port>'' @ nl) s)
           else Some (udp_start_server env (argv ! 3) s))
        else Some (1, lputs ''error: invalid command'' s))
     else Some (1, lputs ''error: invalid command'' s)
   }"

section \<open>The send loop\<close>

definition udp_event :: "bytes \<Rightarrow> sock_ep \<Rightarrow> lwip_app \<Rightarrow> lwip_ev" where
  "udp_event data dst s = UdpSend (if udp_server_running s then UdpServer else NoSock) data dst"

lemma udp_event_is_tx [simp]: "is_tx (udp_event data dst s)"
  by (simp add: udp_event_def)

interpretation udp_loop: send_loop_body "udp_send_once env data addr_str dst delay" "udp_event data dst"
  for env data addr_str dst delay
  by unfold_locales (auto simp: udp_send_once_def Let_def udp_event_def flags_def)

end
