(* ===== verification/Lwip_Tcp.thy ===== *)
theory Lwip_Tcp
  imports Lwip_App
begin

text \<open>
  The TCP command, \<^verbatim>\<open>examples/native-lwip/main/tcp.c\<close>: one client connection, guarded by
  \<^verbatim>\<open>client_running\<close>, the server thread with its accept handler, and the receive handler,
  whose read loop ends only when a read fails.
\<close>

section \<open>The code\<close>

text \<open>
  The read loop of \<^verbatim>\<open>_tcp_recv\<close>: its body, and the loop, which runs as long as
  \<^verbatim>\<open>sock_tcp_read\<close> returns no error, so nothing in the code bounds it.
  \<^const>\<open>None\<close> is a loop that does not end.
\<close>

definition tcp_read_round :: "lwip_env \<Rightarrow> string \<Rightarrow> u16 \<Rightarrow> sock_ref \<Rightarrow> lwip_app \<Rightarrow> lwip_app" where
  "tcp_read_round env addr_str prt sock s =
     (let (res, sock_inbuf) = tcp_read env (app_log s);
          s = emit (Recv sock) s;
          s = lprintf (''Received TCP data from client ['' @ addr_str @ '']:'' @ dec (unat prt) @ nl) s
      in if res > 0 then emit (HexDump (take (nat res) sock_inbuf)) s else lputs ''(nul)'' s)"

partial_function (option) tcp_read_loop ::
  "lwip_env \<Rightarrow> string \<Rightarrow> u16 \<Rightarrow> sock_ref \<Rightarrow> lwip_app \<Rightarrow> lwip_app option" where
  "tcp_read_loop env addr_str prt sock s =
     (if fst (tcp_read env (app_log s)) < 0 then Some (emit (Recv sock) s)
      else tcp_read_loop env addr_str prt sock (tcp_read_round env addr_str prt sock s))"

definition tcp_recv ::
  "lwip_env \<Rightarrow> sock_ref \<Rightarrow> bool \<Rightarrow> bool \<Rightarrow> string \<Rightarrow> lwip_app \<Rightarrow> lwip_app option" where
  "tcp_recv env sock msg_recv conn_fin cb_arg s =
     (if cb_arg \<noteq> ''test'' then None
      else
        (let (res, client) = tcp_remote env (app_log s) sock in
         if res < 0 then Some s
         else
           (let (_, addr_str, prt) = ep_fmt env client in do {
              s \<leftarrow> (if msg_recv then tcp_read_loop env addr_str prt sock s else Some s);
              Some (if conn_fin
                    then emit (TcpDisconnect sock)
                           (lprintf (''TCP connection to ['' @ addr_str @ '']:'' @ dec (unat prt)
                              @ '' reset'' @ nl) s)
                    else s)
            })))"

definition tcp_accept_cb :: "lwip_env \<Rightarrow> bool \<Rightarrow> string \<Rightarrow> lwip_app \<Rightarrow> lwip_app option" where
  "tcp_accept_cb env conn_recv cb_arg s =
     (if cb_arg \<noteq> ''test'' then None
      else if \<not> conn_recv then Some s
      else
        (let (res, n) = tcp_accept env (app_log s);
             s = emit Accept s
         in if res < 0
            then Some (lprintf (''Error on TCP accept ['' @ dec_int res @ '']'' @ nl) s)
            else
              (let s = emit (EventInit (TcpAccepted n)) s;
                   (_, client) = tcp_remote env (app_log s) (TcpAccepted n);
                   (_, addr_str, prt) = ep_fmt env client
               in Some (lprintf (''TCP client ['' @ addr_str @ '']:'' @ dec (unat prt)
                          @ '' connected'' @ nl) s))))"

definition tcp_server_thread :: "lwip_env \<Rightarrow> string \<Rightarrow> lwip_app \<Rightarrow> bool \<times> lwip_app" where
  "tcp_server_thread env args s =
     (let server_addr = (ep_any env)\<lparr>port := word_of_int (atoi args)\<rparr>;
          res = tcp_listen env (app_log s) server_addr;
          s = emit (SockOpen TcpServer server_addr) s
      in if res < 0
         then (False, lprintf (''Unable to open TCP server on port '' @ dec (unat (port server_addr))
                               @ '' (error code '' @ dec_int (- res) @ '')'' @ nl) s)
         else (True, emit (EventLoop TcpServer) (emit (EventInit TcpServer)
                (lprintf (''Success: started TCP server on port '' @ dec (unat (port server_addr)) @ nl)
                  (s\<lparr>tcp_server_running := True\<rparr>)))))"

definition tcp_connect :: "lwip_env \<Rightarrow> string \<Rightarrow> string option \<Rightarrow> lwip_app \<Rightarrow> int \<times> lwip_app" where
  "tcp_connect env addr_str local_port_str s =
     (if tcp_client_running s then (1, lputs ''Client already connected'' s)
      else
        (let (res, dst) = str2ep env (app_log s) (ep_any env) addr_str;
             s = emit (Parse addr_str) s
         in if res < 0 then (1, lputs ''Error: unable to parse destination address'' s)
            else if port dst = 0 then (1, lputs ''Error: no port or illegal port value provided'' s)
            else
              (let local_port = (case local_port_str of None \<Rightarrow> 0 | Some p \<Rightarrow> word_of_int (atoi p))
               in if local_port_str \<noteq> None \<and> local_port = 0
                  then (1, lputs ''Error: Illegal local port 0'' s)
                  else
                    (let res = tcp_open env (app_log s) dst local_port;
                         s = emit (TcpConnect dst local_port) s
                     in if res < 0 then (1, lputs ''Error: unable to connect'' s)
                        else (0, s\<lparr>tcp_client_running := True\<rparr>)))))"

definition tcp_disconnect :: "lwip_app \<Rightarrow> int \<times> lwip_app" where
  "tcp_disconnect s = (0, (emit (TcpDisconnect TcpClient) s)\<lparr>tcp_client_running := False\<rparr>)"

definition tcp_send_once :: "lwip_env \<Rightarrow> bytes \<Rightarrow> u32 \<Rightarrow> lwip_app \<Rightarrow> lwip_app" where
  "tcp_send_once env data delay s =
     (let res = tcp_write env (app_log s) TcpClient data;
          s = emit (TcpWrite TcpClient data) s;
          s = (if res < 0 then lputs ''could not send'' s
               else lprintf (''Success: send '' @ dec (length data) @ '' byte over TCP to server'' @ nl) s)
      in emit (Usleep delay) s)"

definition tcp_send :: "lwip_env \<Rightarrow> string \<Rightarrow> u32 \<Rightarrow> u32 \<Rightarrow> lwip_app \<Rightarrow> (int \<times> lwip_app) option" where
  "tcp_send env data num delay s = do {
     (data_len, byte_data) \<leftarrow> hex2ints (replicate (shell_bufsize env div 2) 0) data;
     Some (0, repeat num (tcp_send_once env (take data_len byte_data) delay) s)
   }"

definition tcp_start_server :: "lwip_env \<Rightarrow> string \<Rightarrow> lwip_app \<Rightarrow> int \<times> lwip_app" where
  "tcp_start_server env port_str s =
     (let pid = thread_create env (app_log s) ''TCP server'';
          s = emit (ThreadCreate ''TCP server'' port_str) s
      in if pid \<le> pid_undef env then (1, s) else (0, s))"

definition tcp_cmd :: "lwip_env \<Rightarrow> string list \<Rightarrow> lwip_app \<Rightarrow> (int \<times> lwip_app) option" where
  "tcp_cmd env argv s = do {
     argv0 \<leftarrow> arg argv 0;
     if length argv < 2
     then Some (1, lprintf (''usage: '' @ argv0 @ '' [connect|disconnect|send|server]'' @ nl) s)
     else if argv ! 1 = ''connect'' then
       (if length argv < 3
        then Some (1, lprintf (''usage: '' @ argv0 @ '' connect <addr>:<port> [local_port]'' @ nl) s)
        else Some (tcp_connect env (argv ! 2)
                    (if length argv > 3 then Some (argv ! 3) else None) s))
     else if argv ! 1 = ''disconnect'' then Some (tcp_disconnect s)
     else if argv ! 1 = ''send'' then
       (if length argv < 3
        then Some (1, lprintf (''usage: '' @ argv0 @ '' send <hex data> [<num> [<delay in us>]]'' @ nl) s)
        else
          (let num = (if length argv > 3 then word_of_int (atoi (argv ! 3)) else 1);
               delay = (if length argv > 4 then word_of_int (atoi (argv ! 4)) else 1000000)
           in tcp_send env (argv ! 2) num delay s))
     else if argv ! 1 = ''server'' then
       (if length argv < 3
        then Some (1, lprintf (''usage: '' @ argv0 @ '' server [start|stop]'' @ nl) s)
        else if argv ! 2 = ''start'' then
          (if length argv < 4
           then Some (1, lprintf (''usage '' @ argv0 @ '' server start <port>'' @ nl) s)
           else Some (tcp_start_server env (argv ! 3) s))
        else Some (1, lputs ''error: invalid command'' s))
     else Some (1, lputs ''error: invalid command'' s)
   }"

section \<open>The send loop\<close>

definition tcp_event :: "bytes \<Rightarrow> lwip_app \<Rightarrow> lwip_ev" where
  "tcp_event data s = TcpWrite TcpClient data"

interpretation tcp_loop: send_loop_body "tcp_send_once env data delay" "tcp_event data"
  for env data delay
  by unfold_locales (auto simp: tcp_send_once_def Let_def tcp_event_def flags_def)

end
