(* ===== verification/Lwip_System.thy ===== *)
theory Lwip_System
  imports Lwip_Ip Lwip_Udp Lwip_Tcp
begin

text \<open>
  The lwIP application as a whole: the calls that reach it (shell commands, the three
  server threads, the receive and accept handlers) in any order, as steps on the state
  of \<^theory_text>\<open>Lwip_App\<close>; what every run keeps; and what the commands send.
\<close>

section \<open>Runs\<close>

datatype lwip_call =
    IpCmd "string list" | UdpCmd "string list" | TcpCmd "string list"
  | IpThread string | UdpThread string | TcpThread string
  | IpRecv bool | UdpRecv bool | TcpRecv nat bool bool | TcpAcceptEv bool

text \<open>
  The command table of \<^verbatim>\<open>main.c\<close>, with what a line of each command calls; the arguments say which of the
  three socket modules are built in.
\<close>

definition lwip_shell_commands :: "bool \<Rightarrow> bool \<Rightarrow> bool \<Rightarrow> (string \<times> (string list \<Rightarrow> lwip_call)) list" where
  "lwip_shell_commands sock_ip sock_tcp sock_udp =
     (if sock_ip then [(''ip'', IpCmd)] else []) @ (if sock_tcp then [(''tcp'', TcpCmd)] else []) @
     (if sock_udp then [(''udp'', UdpCmd)] else [])"

fun lwip_step :: "lwip_env \<Rightarrow> lwip_call \<Rightarrow> lwip_app \<Rightarrow> lwip_app option" where
  "lwip_step env (IpCmd argv) s = map_option snd (ip_cmd env argv s)"
| "lwip_step env (UdpCmd argv) s = map_option snd (udp_cmd env argv s)"
| "lwip_step env (TcpCmd argv) s = map_option snd (tcp_cmd env argv s)"
| "lwip_step env (IpThread args) s = Some (snd (ip_server_thread env args s))"
| "lwip_step env (UdpThread args) s = Some (snd (udp_server_thread env args s))"
| "lwip_step env (TcpThread args) s = Some (snd (tcp_server_thread env args s))"
| "lwip_step env (IpRecv b) s = ip_recv env b ''test'' s"
| "lwip_step env (UdpRecv b) s = udp_recv env b ''test'' s"
| "lwip_step env (TcpRecv n b c) s = tcp_recv env (TcpAccepted n) b c ''test'' s"
| "lwip_step env (TcpAcceptEv b) s = tcp_accept_cb env b ''test'' s"

definition lwip_init :: lwip_app where
  "lwip_init = \<lparr>ip_server_running = False, udp_server_running = False,
     tcp_server_running = False, tcp_client_running = False, app_log = []\<rparr>"

section \<open>Server sockets are opened before they are used\<close>

text \<open>The static socket an event hands to the stack, and whether a log has set it up.\<close>

fun uses :: "lwip_ev \<Rightarrow> sock_ref option" where
  "uses (IpSend r _ _ _) = (if r = NoSock then None else Some r)"
| "uses (UdpSend r _ _) = (if r = NoSock then None else Some r)"
| "uses _ = None"

definition opened :: "sock_ref \<Rightarrow> lwip_log \<Rightarrow> bool" where
  "opened r log \<longleftrightarrow> EventInit r \<in> set log"

definition use_after_open :: "lwip_log \<Rightarrow> bool" where
  "use_after_open log \<longleftrightarrow>
     (\<forall>i < length log. \<forall>r. uses (log ! i) = Some r \<longrightarrow> opened r (take i log))"

lemma use_after_open_Nil [simp]: "use_after_open []"
  by (simp add: use_after_open_def)

lemma use_after_open_snoc [simp]:
  "use_after_open (log @ [e]) \<longleftrightarrow>
     use_after_open log \<and> (\<forall>r. uses e = Some r \<longrightarrow> opened r log)"
  by (auto simp: use_after_open_def nth_append less_Suc_eq)

lemma opened_snoc [simp]: "opened r (log @ [e]) \<longleftrightarrow> opened r log \<or> e = EventInit r"
  by (auto simp: opened_def)

definition lwip_ok :: "lwip_app \<Rightarrow> bool" where
  "lwip_ok s \<longleftrightarrow>
     (ip_server_running s \<longrightarrow> opened IpServer (app_log s)) \<and>
     (udp_server_running s \<longrightarrow> opened UdpServer (app_log s)) \<and>
     (tcp_server_running s \<longrightarrow> opened TcpServer (app_log s)) \<and>
     use_after_open (app_log s)"

lemma lwip_ok_emit_use:
  "lwip_ok s \<Longrightarrow> (\<And>r. uses e = Some r \<Longrightarrow> opened r (app_log s)) \<Longrightarrow> lwip_ok (emit e s)"
  by (auto simp: lwip_ok_def)

lemma lwip_ok_emit: "lwip_ok s \<Longrightarrow> uses e = None \<Longrightarrow> lwip_ok (emit e s)"
  by (rule lwip_ok_emit_use) auto

lemma lwip_ok_client [simp]: "lwip_ok (s\<lparr>tcp_client_running := b\<rparr>) = lwip_ok s"
  by (simp add: lwip_ok_def)

lemma lwip_ok_udp_event: "lwip_ok s \<Longrightarrow> lwip_ok (emit (udp_event d dst s) s)"
  by (rule lwip_ok_emit_use) (auto simp: udp_event_def lwip_ok_def split: if_splits)

lemma lwip_ok_ip_event: "lwip_ok s \<Longrightarrow> lwip_ok (emit (ip_event d q dst s) s)"
  by (rule lwip_ok_emit_use) (auto simp: ip_event_def lwip_ok_def split: if_splits)

lemma lwip_ok_udp_send_once: "lwip_ok s \<Longrightarrow> lwip_ok (udp_send_once env d a dst w s)"
  unfolding udp_send_once_def Let_def udp_event_def [symmetric]
  by (auto intro!: lwip_ok_emit lwip_ok_udp_event)

lemma lwip_ok_ip_send_once: "lwip_ok s \<Longrightarrow> lwip_ok (ip_send_once env d a q dst w s)"
  unfolding ip_send_once_def Let_def ip_event_def [symmetric]
  by (auto intro!: lwip_ok_emit lwip_ok_ip_event)

lemma lwip_ok_tcp_send_once: "lwip_ok s \<Longrightarrow> lwip_ok (tcp_send_once env d w s)"
  unfolding tcp_send_once_def Let_def by (auto intro!: lwip_ok_emit)

lemma lwip_ok_repeat:
  "(\<And>t. lwip_ok t \<Longrightarrow> lwip_ok (body t)) \<Longrightarrow> lwip_ok s \<Longrightarrow> lwip_ok (repeat num body s)"
  by (rule repeat_induct [where P = "\<lambda>_. lwip_ok"]) auto

lemmas lwip_ok_intros =
  lwip_ok_emit lwip_ok_repeat lwip_ok_udp_send_once lwip_ok_ip_send_once lwip_ok_tcp_send_once

text \<open>The result of a command, if there is one, satisfies \<open>P\<close>: a goal simplification can follow.\<close>

definition result_ok :: "(int \<Rightarrow> lwip_app \<Rightarrow> bool) \<Rightarrow> (int \<times> lwip_app) option \<Rightarrow> bool" where
  "result_ok P m \<longleftrightarrow> (\<forall>r t. m = Some (r, t) \<longrightarrow> P r t)"

lemma result_ok_simps [simp]:
  "result_ok P None"
  "result_ok P (Some rt) \<longleftrightarrow> P (fst rt) (snd rt)"
  by (cases rt; simp add: result_ok_def)+

lemma result_ok_bind:
  "(\<And>x. m = Some x \<Longrightarrow> result_ok P (f x)) \<Longrightarrow> result_ok P (m \<bind> f)"
  by (cases m) simp_all

lemma result_okD: "result_ok P m \<Longrightarrow> m = Some (r, t) \<Longrightarrow> P r t"
  by simp

lemma ok_start_server:
  assumes "lwip_ok s"
  shows "lwip_ok (snd (ip_start_server env a s))" "lwip_ok (snd (udp_start_server env a s))"
    "lwip_ok (snd (tcp_start_server env a s))"
  using assms
  by (simp_all add: ip_start_server_def udp_start_server_def tcp_start_server_def Let_def lwip_ok_emit)

lemma ok_ip_send: "lwip_ok s \<Longrightarrow> result_ok (\<lambda>_. lwip_ok) (ip_send env a q d n w s)"
  by (auto simp: ip_send_def Let_def lwip_ok_emit split: option.split
      intro!: result_ok_bind lwip_ok_intros)

lemma ok_udp_send: "lwip_ok s \<Longrightarrow> result_ok (\<lambda>_. lwip_ok) (udp_send env a d n w s)"
  by (auto simp: udp_send_def Let_def lwip_ok_emit split: prod.split
      intro!: result_ok_bind lwip_ok_intros)

lemma ok_tcp_send: "lwip_ok s \<Longrightarrow> result_ok (\<lambda>_. lwip_ok) (tcp_send env d n w s)"
  by (auto simp: tcp_send_def intro!: result_ok_bind lwip_ok_intros)

lemma ok_tcp_connect:
  "lwip_ok s \<Longrightarrow> lwip_ok (snd (tcp_connect env a lp s))"
  "lwip_ok s \<Longrightarrow> lwip_ok (snd (tcp_disconnect s))"
  by (simp_all add: tcp_connect_def tcp_disconnect_def Let_def lwip_ok_emit split: prod.split)

lemmas ok_ops = ok_start_server ok_ip_send ok_udp_send ok_tcp_send ok_tcp_connect lwip_ok_emit

lemma ok_cmd:
  assumes "lwip_ok s"
  shows "result_ok (\<lambda>_. lwip_ok) (ip_cmd env argv s)"
    and "result_ok (\<lambda>_. lwip_ok) (udp_cmd env argv s)"
    and "result_ok (\<lambda>_. lwip_ok) (tcp_cmd env argv s)"
  unfolding ip_cmd_def udp_cmd_def tcp_cmd_def Let_def
  by (rule result_ok_bind, simp add: ok_ops assms)+

lemmas lwip_ok_cmd = ok_cmd [THEN result_okD]

text \<open>A thread marks its server as running and sets its socket up before any other step.\<close>

lemma lwip_ok_started:
  assumes "lwip_ok s" and "uses e = None"
  shows "lwip_ok (emit (EventInit IpServer) (emit e (s\<lparr>ip_server_running := True\<rparr>)))"
    and "lwip_ok (emit (EventInit UdpServer) (emit e (s\<lparr>udp_server_running := True\<rparr>)))"
    and "lwip_ok (emit (EventInit TcpServer) (emit e (s\<lparr>tcp_server_running := True\<rparr>)))"
  using assms by (auto simp: lwip_ok_def emit_def simp del: append_assoc)

lemma lwip_ok_threads:
  "lwip_ok s \<Longrightarrow> lwip_ok (snd (ip_server_thread env args s))"
  "lwip_ok s \<Longrightarrow> lwip_ok (snd (udp_server_thread env args s))"
  "lwip_ok s \<Longrightarrow> lwip_ok (snd (tcp_server_thread env args s))"
  by (auto simp: ip_server_thread_def udp_server_thread_def tcp_server_thread_def Let_def
      lwip_ok_started lwip_ok_emit)

lemma lwip_ok_recv:
  "lwip_ok s \<Longrightarrow> ip_recv env b a s = Some t \<Longrightarrow> lwip_ok t"
  "lwip_ok s \<Longrightarrow> udp_recv env b a s = Some t \<Longrightarrow> lwip_ok t"
  "lwip_ok s \<Longrightarrow> tcp_accept_cb env b a s = Some t \<Longrightarrow> lwip_ok t"
  by (auto simp: ip_recv_def udp_recv_def tcp_accept_cb_def Let_def lwip_ok_emit
      split: if_splits prod.splits)

section \<open>The TCP read loop\<close>

lemma tcp_read_loop_inv:
  assumes ret: "tcp_read_loop env a p r s = Some t" and "I s"
    and rd: "\<And>u. I u \<Longrightarrow> I (tcp_read_round env a p r u)"
    and fin: "\<And>u. I u \<Longrightarrow> fst (tcp_read env (app_log u)) < 0 \<Longrightarrow> J (emit (Recv r) u)"
  shows "J t"
proof -
  have "env = env \<longrightarrow> a = a \<longrightarrow> p = p \<longrightarrow> r = r \<longrightarrow> I s \<longrightarrow> J t"
  proof (rule tcp_read_loop.raw_induct [where P = "\<lambda>e b q k u t.
            e = env \<longrightarrow> b = a \<longrightarrow> q = p \<longrightarrow> k = r \<longrightarrow> I u \<longrightarrow> J t", OF _ ret])
    fix f e b q k u t
    assume "\<And>e b q k u t. f e b q k u = Some t \<Longrightarrow>
        e = env \<longrightarrow> b = a \<longrightarrow> q = p \<longrightarrow> k = r \<longrightarrow> I u \<longrightarrow> J t"
      and "(if fst (tcp_read e (app_log u)) < 0 then Some (emit (Recv k) u)
        else f e b q k (tcp_read_round e b q k u)) = Some t"
    then show "e = env \<longrightarrow> b = a \<longrightarrow> q = p \<longrightarrow> k = r \<longrightarrow> I u \<longrightarrow> J t"
      using fin rd by (auto split: if_splits)
  qed
  with \<open>I s\<close> show ?thesis by simp
qed

lemma lwip_ok_tcp_recv: "lwip_ok s \<Longrightarrow> tcp_recv env r b c a s = Some t \<Longrightarrow> lwip_ok t"
proof -
  have rd: "lwip_ok u \<Longrightarrow> lwip_ok (tcp_read_round env x p r u)" for u x p
    by (auto simp: tcp_read_round_def Let_def lwip_ok_emit split: prod.splits)
  have "lwip_ok s \<Longrightarrow> tcp_read_loop env x p r s = Some u \<Longrightarrow> lwip_ok u" for x p u
    by (erule tcp_read_loop_inv [where I = lwip_ok]) (auto simp: rd lwip_ok_emit)
  then show "lwip_ok s \<Longrightarrow> tcp_recv env r b c a s = Some t \<Longrightarrow> lwip_ok t"
    by (auto simp: tcp_recv_def Let_def bind_eq_Some_conv lwip_ok_emit
        split: if_splits prod.splits)
qed

lemma lwip_ok_step: "lwip_ok s \<Longrightarrow> lwip_step env c s = Some t \<Longrightarrow> lwip_ok t"
  by (cases c)
     (auto intro: lwip_ok_cmd lwip_ok_recv lwip_ok_tcp_recv simp: lwip_ok_threads)

interpretation lwip: invariant_steps "lwip_step env" lwip_ok for env
  by unfold_locales (rule lwip_ok_step)

section \<open>A concrete stack for the witnesses\<close>

definition demo_ep :: sock_ep where
  "demo_ep = \<lparr>family = AF_INET6, addr = replicate 16 0, netif = 0, port = 0\<rparr>"

text \<open>An IPv6-only stack on which every call succeeds; one TCP read has data, the next fails.\<close>

definition lwip_demo :: lwip_env where
  "lwip_demo = \<lparr>lwip_ipv4 = False, lwip_ipv6 = True, shell_bufsize = 128, pid_undef = 0,
     ep_any = demo_ep,
     str2ep = (\<lambda>_ ep _. (0, ep\<lparr>port := 1337\<rparr>)),
     ipv6_from_str = (\<lambda>_. Some (replicate 16 1)),
     ipv4_from_str = (\<lambda>_. None),
     ipv6_to_str = (\<lambda>_. ''::1''), ipv4_to_str = (\<lambda>_. ''127.0.0.1''),
     ep_fmt = (\<lambda>ep. (0, ''::1'', port ep)),
     ip_create = (\<lambda>_ _ _. 0), udp_create = (\<lambda>_ _. 0), tcp_listen = (\<lambda>_ _. 0),
     ip_send_to = (\<lambda>_ _ data _ _. int (length data)), udp_send_to = (\<lambda>_ _ data _. int (length data)),
     ip_recv_from = (\<lambda>_. (1, [7], demo_ep)), udp_recv_from = (\<lambda>_. (1, [7], demo_ep)),
     tcp_read = (\<lambda>log. if Recv (TcpAccepted 0) \<in> set log then (- 1, []) else (2, [7, 8])),
     tcp_write = (\<lambda>_ _ data. int (length data)), tcp_open = (\<lambda>_ _ _. 0),
     tcp_accept = (\<lambda>_. (0, 0)), tcp_remote = (\<lambda>_ _. (0, demo_ep)),
     thread_create = (\<lambda>_ _. 1)\<rparr>"

section \<open>Properties\<close>



text \<open>
  \<^verbatim>\<open>udp send\<close> to an address that parses with a port transmits the decoded bytes exactly
  \<^verbatim>\<open>num\<close> times, each through the server socket if the server runs and through no socket
  otherwise, and nothing else; it returns 0 and leaves the server and connection flags.
  \<^verbatim>\<open>num\<close> is \<^verbatim>\<open>atoi\<close> of the argument as an unsigned 32-bit number.
\<close>

lemma udp_cmd_send:
  assumes "str2ep env (app_log s) (ep_any env) a = (res, dst)" and "0 \<le> res" and "port dst \<noteq> 0"
    and "length (pack (nibbles d)) \<le> shell_bufsize env div 2"
  shows "\<exists>s'. udp_cmd env [c, ''send'', a, d, n] s = Some (0, s') \<and>
     tx s' = tx s @ replicate (unat (word_of_int (atoi n) :: u32))
       (UdpSend (if udp_server_running s then UdpServer else NoSock) (pack (nibbles d)) dst) \<and>
     flags s' = flags s"
proof -
  let ?body = "udp_send_once env (pack (nibbles d)) a dst 1000000"
  let ?t = "repeat (word_of_int (atoi n)) ?body (emit (Parse a) s)"
  have run: "udp_cmd env [c, ''send'', a, d, n] s = Some (0, ?t)"
    using assms by (simp add: udp_cmd_def udp_send_def hex2ints_spec_aux Let_def)
  have "tx ?t = tx (emit (Parse a) s) @ replicate (unat (word_of_int (atoi n) :: u32))
      (udp_event (pack (nibbles d)) dst (emit (Parse a) s)) \<and> flags ?t = flags (emit (Parse a) s)"
    by (rule udp_loop.loop_tx)
  with run show ?thesis by (simp add: udp_event_def)
qed

lemma udp_cmd_send_witness:
  "\<exists>s'. udp_cmd lwip_demo [''udp'', ''send'', ''[::1]:1337'', ''abcd'', ''3''] lwip_init = Some (0, s') \<and>
     tx s' = replicate 3 (UdpSend NoSock [0xAB, 0xCD] (demo_ep\<lparr>port := 1337\<rparr>))"
proof -
  have p: "str2ep lwip_demo (app_log lwip_init) (ep_any lwip_demo) ''[::1]:1337'' = (0, demo_ep\<lparr>port := 1337\<rparr>)"
    by (simp add: lwip_demo_def)
  have d: "pack (nibbles ''abcd'') = [0xAB, 0xCD]" by code_simp
  have n: "unat (word_of_int (atoi ''3'') :: u32) = 3" by code_simp
  have l: "length (pack (nibbles ''abcd'')) \<le> shell_bufsize lwip_demo div 2"
    unfolding d by (simp add: lwip_demo_def)
  have q: "port (demo_ep\<lparr>port := 1337\<rparr>) \<noteq> 0" by simp
  have t: "tx lwip_init = []" "\<not> udp_server_running lwip_init" by (simp_all add: lwip_init_def tx_def)
  from udp_cmd_send [OF p order_refl q l, of "''udp''" "''3''"] show ?thesis
    unfolding d n t(1) using t(2) by auto
qed

definition silent_error :: "lwip_app \<Rightarrow> int \<Rightarrow> lwip_app \<Rightarrow> bool" where
  "silent_error s r t \<longleftrightarrow> (r \<noteq> 0 \<longrightarrow> tx t = tx s \<and> flags t = flags s)"

lemma silent_emit: "\<not> is_tx e \<Longrightarrow> silent_error s r (emit e t) = silent_error s r t"
  by (simp add: silent_error_def)

lemma silent_refl: "silent_error s 0 t" "silent_error s r s"
  by (simp_all add: silent_error_def)

lemma silent_start_server:
  "silent_error s (fst (ip_start_server env a s)) (snd (ip_start_server env a s))"
  "silent_error s (fst (udp_start_server env a s)) (snd (udp_start_server env a s))"
  "silent_error s (fst (tcp_start_server env a s)) (snd (tcp_start_server env a s))"
  by (simp_all add: ip_start_server_def udp_start_server_def tcp_start_server_def Let_def
      silent_emit silent_refl)

lemma silent_ip_send: "result_ok (silent_error s) (ip_send env a q d n w s)"
  by (auto simp: ip_send_def Let_def silent_emit silent_refl split: option.split
      intro!: result_ok_bind)

lemma silent_udp_send: "result_ok (silent_error s) (udp_send env a d n w s)"
  by (auto simp: udp_send_def Let_def silent_emit silent_refl split: prod.split
      intro!: result_ok_bind)

lemma silent_tcp:
  "result_ok (silent_error s) (tcp_send env d n w s)"
  "silent_error s (fst (tcp_connect env a lp s)) (snd (tcp_connect env a lp s))"
  "silent_error s (fst (tcp_disconnect s)) (snd (tcp_disconnect s))"
  by (auto simp: tcp_send_def tcp_connect_def tcp_disconnect_def Let_def silent_emit silent_refl
      split: prod.split intro!: result_ok_bind)

lemmas silent_ops = silent_start_server silent_ip_send silent_udp_send silent_tcp silent_emit silent_refl

lemma silent_cmd:
  "result_ok (silent_error s) (ip_cmd env argv s)"
  "result_ok (silent_error s) (udp_cmd env argv s)"
  "result_ok (silent_error s) (tcp_cmd env argv s)"
  unfolding ip_cmd_def udp_cmd_def tcp_cmd_def Let_def
  by (rule result_ok_bind, simp add: silent_ops)+

text \<open>
  A command that reports failure has done nothing: whenever \<^verbatim>\<open>ip\<close>, \<^verbatim>\<open>udp\<close> or \<^verbatim>\<open>tcp\<close>
  returns a value other than 0, no packet has been transmitted and no server or connection
  flag has changed.
\<close>

lemma lwip_cmd_error_silent:
  assumes "ip_cmd env argv s = Some (r, s') \<or> udp_cmd env argv s = Some (r, s') \<or>
      tcp_cmd env argv s = Some (r, s')"
    and "r \<noteq> 0"
  shows "tx s' = tx s \<and> flags s' = flags s"
proof -
  from assms(1) have "silent_error s r s'"
    by (auto dest: silent_cmd [THEN result_okD])
  with assms(2) show ?thesis by (simp add: silent_error_def)
qed

lemma lwip_cmd_error_silent_witness:
  "\<exists>s'. tcp_cmd lwip_demo [''tcp'', ''connect'', ''[::1]:80''] (lwip_init\<lparr>tcp_client_running := True\<rparr>)
        = Some (1, s') \<and>
     tx s' = tx (lwip_init\<lparr>tcp_client_running := True\<rparr>) \<and>
     flags s' = flags (lwip_init\<lparr>tcp_client_running := True\<rparr>)"
proof -
  let ?s = "lwip_init\<lparr>tcp_client_running := True\<rparr>"
  have a: "tcp_cmd lwip_demo [''tcp'', ''connect'', ''[::1]:80''] ?s
      = Some (1, lputs ''Client already connected'' ?s)"
    by (simp add: tcp_cmd_def tcp_connect_def)
  then have b: "ip_cmd lwip_demo [''tcp'', ''connect'', ''[::1]:80''] ?s
        = Some (1, lputs ''Client already connected'' ?s) \<or>
      udp_cmd lwip_demo [''tcp'', ''connect'', ''[::1]:80''] ?s
        = Some (1, lputs ''Client already connected'' ?s) \<or>
      tcp_cmd lwip_demo [''tcp'', ''connect'', ''[::1]:80''] ?s
        = Some (1, lputs ''Client already connected'' ?s)" by blast
  have "(1::int) \<noteq> 0" by simp
  from lwip_cmd_error_silent [OF b this] a show ?thesis by blast
qed

text \<open>
  C34: No command line the shell can produce overruns a buffer: with the default shell
  buffer of 128 bytes and arguments that fit into it, each of the three commands returns.
\<close>

theorem lwip_cmd_memory_safe:
  assumes "argv \<noteq> []" and "\<forall>a \<in> set argv. length a \<le> 127" and "shell_bufsize env = 128"
  shows "ip_cmd env argv s \<noteq> None \<and> udp_cmd env argv s \<noteq> None \<and> tcp_cmd env argv s \<noteq> None"
proof -
  have hex: "hex2ints (replicate 64 0) (argv ! i) \<noteq> None" if "i < length argv" for i
  proof -
    from that assms(2) have "length (nibbles (argv ! i)) \<le> 127"
      using length_nibbles_le [of "argv ! i"] by (metis le_trans nth_mem)
    then show ?thesis by (simp add: hex2ints_spec_aux length_pack Let_def)
  qed
  have "ip_cmd env argv s \<noteq> None" and "udp_cmd env argv s \<noteq> None" and "tcp_cmd env argv s \<noteq> None"
    using hex [of 2] hex [of 3] hex [of 4] assms(1,3)
    by (auto simp: ip_cmd_def ip_send_def udp_cmd_def udp_send_def tcp_cmd_def tcp_send_def Let_def
        split: option.splits prod.splits)
  then show ?thesis by blast
qed

theorem lwip_cmd_memory_safe_witness:
  "ip_cmd lwip_demo [''ip'', ''send'', ''fe80::1'', ''17'', ''01:23:4''] lwip_init \<noteq> None"
  using lwip_cmd_memory_safe [of "[''ip'', ''send'', ''fe80::1'', ''17'', ''01:23:4'']" lwip_demo lwip_init]
  by (simp add: lwip_demo_def)

lemma tcp_read_loop_rounds:
  assumes "\<forall>i < k. 0 \<le> fst (tcp_read env (app_log ((tcp_read_round env a p r ^^ i) s)))"
  shows "tcp_read_loop env a p r s = tcp_read_loop env a p r ((tcp_read_round env a p r ^^ k) s)"
  using assms
proof (induction k)
  case 0
  then show ?case by simp
next
  case (Suc k)
  then have "tcp_read_loop env a p r s = tcp_read_loop env a p r ((tcp_read_round env a p r ^^ k) s)"
    by simp
  with Suc.prems show ?case by (subst (asm) (2) tcp_read_loop.simps) (auto simp: not_less)
qed

text \<open>
  C36: The read loop of the TCP receive handler ends exactly if some read fails: after \<open>k\<close>
  rounds that returned data or zero bytes, a negative result. A socket that keeps returning
  zero bytes keeps the handler, and with it the event thread, in the loop for ever.
\<close>

theorem tcp_read_loop_returns_iff:
  "(\<exists>t. tcp_read_loop env a p r s = Some t) \<longleftrightarrow>
   (\<exists>k. fst (tcp_read env (app_log ((tcp_read_round env a p r ^^ k) s))) < 0)"
proof
  assume "\<exists>t. tcp_read_loop env a p r s = Some t"
  then obtain t where "tcp_read_loop env a p r s = Some t" ..
  then show "\<exists>k. fst (tcp_read env (app_log ((tcp_read_round env a p r ^^ k) s))) < 0"
  proof (rule tcp_read_loop_inv [where I = "\<lambda>u. \<exists>k. u = (tcp_read_round env a p r ^^ k) s"])
    show "\<exists>k. s = (tcp_read_round env a p r ^^ k) s" by (rule exI [of _ 0]) simp
    show "\<exists>k. tcp_read_round env a p r u = (tcp_read_round env a p r ^^ k) s"
      if "\<exists>k. u = (tcp_read_round env a p r ^^ k) s" for u
      using that by (metis funpow.simps(2) o_apply)
  qed blast
next
  assume ex: "\<exists>k. fst (tcp_read env (app_log ((tcp_read_round env a p r ^^ k) s))) < 0"
  define k where "k = (LEAST k. fst (tcp_read env (app_log ((tcp_read_round env a p r ^^ k) s))) < 0)"
  from ex have stop: "fst (tcp_read env (app_log ((tcp_read_round env a p r ^^ k) s))) < 0"
    unfolding k_def by (rule LeastI_ex)
  have "\<forall>i < k. 0 \<le> fst (tcp_read env (app_log ((tcp_read_round env a p r ^^ i) s)))"
    unfolding k_def using not_less_Least by (metis not_less)
  then have "tcp_read_loop env a p r s = tcp_read_loop env a p r ((tcp_read_round env a p r ^^ k) s)"
    by (rule tcp_read_loop_rounds)
  with stop show "\<exists>t. tcp_read_loop env a p r s = Some t"
    by (auto simp: tcp_read_loop.simps [of env a p r "(tcp_read_round env a p r ^^ k) s"])
qed

text \<open>
  In the default, IPv6-only build, \<^verbatim>\<open>ip send\<close> does not reject a destination that has no
  colon in it: the text is never parsed, and the packet goes out to the initial value
  \<^verbatim>\<open>SOCK_IP_EP_ANY\<close>, the unspecified address, with a message that names the text given.
\<close>

lemma ip_send_unparsed_destination:
  assumes "lwip_ipv6 env" and "\<not> lwip_ipv4 env" and "CHR '':'' \<notin> set a"
    and "length (pack (nibbles d)) \<le> shell_bufsize env div 2"
  shows "\<exists>s'. ip_cmd env [c, ''send'', a, q, d] s = Some (0, s') \<and>
     tx s' = tx s @ [IpSend (if ip_server_running s then IpServer else NoSock) (pack (nibbles d))
                       (word_of_int (atoi q)) (ep_any env)]"
proof -
  let ?body = "ip_send_once env (pack (nibbles d)) a (word_of_int (atoi q)) (ep_any env) 1000000"
  have "ip_cmd env [c, ''send'', a, q, d] s = Some (0, repeat 1 ?body s)"
    using assms by (simp add: ip_cmd_def ip_send_def ip_parse_dst_def hex2ints_spec_aux Let_def)
  moreover have "tx (repeat 1 ?body s) =
      tx s @ replicate (unat (1 :: u32)) (ip_event (pack (nibbles d)) (word_of_int (atoi q)) (ep_any env) s)"
    using ip_loop.loop_tx by blast
  ultimately show ?thesis by (simp add: ip_event_def)
qed

lemma ip_send_unparsed_destination_witness:
  "\<exists>s'. ip_cmd lwip_demo [''ip'', ''send'', ''nonsense'', ''17'', ''0a''] lwip_init = Some (0, s') \<and>
     tx s' = [IpSend NoSock [10] 17 demo_ep]"
proof -
  have d: "pack (nibbles ''0a'') = [10]" by code_simp
  have q: "word_of_int (atoi ''17'') = (17 :: u8)" by code_simp
  have e: "lwip_ipv6 lwip_demo" "\<not> lwip_ipv4 lwip_demo" "shell_bufsize lwip_demo = 128"
      "ep_any lwip_demo = demo_ep"
    by (simp_all add: lwip_demo_def)
  have a: "CHR '':'' \<notin> set ''nonsense''" by simp
  have l: "length (pack (nibbles ''0a'')) \<le> shell_bufsize lwip_demo div 2" unfolding d e by simp
  have "tx lwip_init = []" "\<not> ip_server_running lwip_init" by (simp_all add: lwip_init_def tx_def)
  with ip_send_unparsed_destination [OF e(1,2) a l, of "''ip''" "''17''" lwip_init] show ?thesis
    unfolding d q e by simp
qed

text \<open>
  The usage texts of the three commands offer \<^verbatim>\<open>server [start|stop]\<close>, but none of them
  has a stop: \<^verbatim>\<open>server stop\<close> prints an error, returns 1 and leaves every server running.
\<close>

lemma lwip_server_stop_rejected:
  "ip_cmd env [c, ''server'', ''stop''] s = Some (1, lputs ''error: invalid command'' s) \<and>
   udp_cmd env [c, ''server'', ''stop''] s = Some (1, lputs ''error: invalid command'' s) \<and>
   tcp_cmd env [c, ''server'', ''stop''] s = Some (1, lputs ''error: invalid command'' s)"
  by (simp add: ip_cmd_def udp_cmd_def tcp_cmd_def)

end
