(* ===== verification/Posix_Udp.thy ===== *)
theory Posix_Udp
  imports Studio_Prelude
begin

text \<open>
  The UDP example over POSIX sockets, \<^verbatim>\<open>examples/native-sockets/main/udp.c\<close>: the send
  command, the start command with its already-running check, the start-up of the server
  thread, and one round of the thread's receive loop. The static variables are a record;
  the receive buffer is an explicit array, because \<^verbatim>\<open>puts(server_buffer)\<close> prints whatever
  is in it up to the first NUL. RIOT's socket layer is the record \<open>posix_env\<close>, whose
  answers may depend on everything the program has done so far.
\<close>

section \<open>Data\<close>

record sockaddr_in6 =
  sin6_addr :: bytes
  sin6_port :: u16
  sin6_scope_id :: "u32 option"  \<comment> \<open>\<^const>\<open>None\<close>: never assigned\<close>

datatype posix_ev =
    POut string
  | PSocket int
  | PBind int u16
  | PRecvfrom int
  | PSendto int string sockaddr_in6
  | PUsleep u32
  | PClose int
  | PThreadCreate string

type_synonym posix_log = "posix_ev list"

record posix_env =
  sock_has_ipv6 :: bool
  p_pid_undef :: int
  p_thread_create :: "posix_log \<Rightarrow> int"
  p_socket :: "posix_log \<Rightarrow> int"
  p_bind :: "posix_log \<Rightarrow> int \<Rightarrow> u16 \<Rightarrow> int"
  p_recvfrom :: "posix_log \<Rightarrow> int \<times> char list"  \<comment> \<open>result and the characters stored\<close>
  p_sendto :: "posix_log \<Rightarrow> int \<Rightarrow> string \<Rightarrow> sockaddr_in6 \<Rightarrow> int"
  p_inet_pton6 :: "string \<Rightarrow> bytes option"
  p_split_iface :: "string \<Rightarrow> string \<times> string option"
  p_netif_id :: "string \<Rightarrow> u32 option"

definition SERVER_BUFFER_SIZE :: nat where "SERVER_BUFFER_SIZE = 64"

record posix_app =
  server_socket :: int
  server_buffer :: "char list"
  p_log :: posix_log

definition posix_init :: posix_app where
  "posix_init = \<lparr>server_socket = - 1, server_buffer = replicate SERVER_BUFFER_SIZE NUL, p_log = []\<rparr>"

definition pemit :: "posix_ev \<Rightarrow> posix_app \<Rightarrow> posix_app" where
  "pemit e s = s\<lparr>p_log := p_log s @ [e]\<rparr>"

abbreviation pputs :: "string \<Rightarrow> posix_app \<Rightarrow> posix_app" where
  "pputs t \<equiv> pemit (POut (t @ nl))"

abbreviation pprintf :: "string \<Rightarrow> posix_app \<Rightarrow> posix_app" where
  "pprintf t \<equiv> pemit (POut t)"

lemma pemit_simps [simp]:
  "p_log (pemit e s) = p_log s @ [e]"
  "server_socket (pemit e s) = server_socket s"
  "server_buffer (pemit e s) = server_buffer s"
  by (simp_all add: pemit_def)

text \<open>Network byte order on the little-endian targets.\<close>

definition htons :: "u16 \<Rightarrow> u16" where
  "htons p = push_bit 8 p OR drop_bit 8 p"

section \<open>The server thread\<close>

text \<open>\<^verbatim>\<open>_server_thread\<close> up to its loop; the Boolean says whether the loop is entered.\<close>

definition posix_server_start :: "posix_env \<Rightarrow> string \<Rightarrow> posix_app \<Rightarrow> bool \<times> posix_app" where
  "posix_server_start env args s =
     (let fd = p_socket env (p_log s);
          s = (pemit (PSocket fd) s)\<lparr>server_socket := fd\<rparr>;
          prt = (word_of_int (atoi args) :: u16)
      in if prt = 0 then (False, pputs ''Error: invalid port specified'' s)
         else if server_socket s < 0 then
           (False, (pputs ''error initializing socket'' s)\<lparr>server_socket := 0\<rparr>)
         else
           (let res = p_bind env (p_log s) (server_socket s) (htons prt);
                s = pemit (PBind (server_socket s) (htons prt)) s
            in if res < 0 then (False, pputs ''error binding socket'' (s\<lparr>server_socket := - 1\<rparr>))
               else (True, pprintf (''Success: started UDP server on port '' @ dec (unat prt) @ nl) s)))"

text \<open>
  One round of \<^verbatim>\<open>while (1)\<close>. \<^verbatim>\<open>puts\<close> reads the array up to a NUL; if the array has none it
  reads past the end, which is undefined.
\<close>

definition posix_recv_round :: "posix_env \<Rightarrow> posix_app \<Rightarrow> posix_app option" where
  "posix_recv_round env s =
     (let (res, data) = p_recvfrom env (p_log s);
          s = pemit (PRecvfrom (server_socket s)) s
      in if res < 0 then Some (pputs ''Error on receive'' s)
         else if res = 0 then Some (pputs ''Peer did shut down'' s)
         else do {
           buf \<leftarrow> mem_write 0 data (server_buffer s);
           let s = pprintf ''Received data: '' (s\<lparr>server_buffer := buf\<rparr>);
           if nul_terminated buf then Some (pputs (cstr buf) s) else None
         })"

section \<open>The commands\<close>

definition posix_udp_send_once ::
  "posix_env \<Rightarrow> int \<Rightarrow> string \<Rightarrow> sockaddr_in6 \<Rightarrow> string \<Rightarrow> u16 \<Rightarrow> u32 \<Rightarrow> posix_app \<Rightarrow> posix_app" where
  "posix_udp_send_once env fd data dst addr_str prt delay s =
     (let res = p_sendto env (p_log s) fd data dst;
          s = pemit (PSendto fd data dst) s;
          s = (if res < 0 then pputs ''could not send'' s
               else pprintf (''Success: send '' @ dec (length data) @ '' byte to '' @ addr_str @ '':''
                             @ dec (unat prt) @ nl) s)
      in pemit (PUsleep delay) s)"

text \<open>The parsing of the interface suffix (\<^verbatim>\<open>#ifdef SOCK_HAS_IPV6\<close>): address, scope, state.\<close>

definition posix_parse_iface ::
  "posix_env \<Rightarrow> string \<Rightarrow> posix_app \<Rightarrow> string \<times> u32 option \<times> posix_app" where
  "posix_parse_iface env addr_str s =
     (if sock_has_ipv6 env then
        (case p_split_iface env addr_str of
           (a, None) \<Rightarrow> (a, None, s)
         | (a, Some iface) \<Rightarrow>
             (case p_netif_id env iface of
                Some i \<Rightarrow> (a, Some i, s)
              | None \<Rightarrow> (a, None, pprintf (''unknown network interface '' @ iface @ nl) s)))
      else (addr_str, None, s))"

definition posix_udp_send ::
  "posix_env \<Rightarrow> string \<Rightarrow> string \<Rightarrow> string \<Rightarrow> u32 \<Rightarrow> u32 \<Rightarrow> posix_app \<Rightarrow> int \<times> posix_app" where
  "posix_udp_send env addr_str port_str data num delay s =
     (let (addr_str, scope, s) = posix_parse_iface env addr_str s
      in case p_inet_pton6 env addr_str of
           None \<Rightarrow> (1, pputs ''Error: unable to parse destination address'' s)
         | Some a \<Rightarrow>
             (let prt = (word_of_int (atoi port_str) :: u16);
                  dst = \<lparr>sin6_addr = a, sin6_port = htons prt, sin6_scope_id = scope\<rparr>;
                  fd = p_socket env (p_log s);
                  s = pemit (PSocket fd) s
              in if fd < 0 then (1, pputs ''error initializing socket'' s)
                 else
                   (let s = (posix_udp_send_once env fd data dst addr_str prt delay ^^ unat num) s
                    in (0, pemit (PClose fd) s))))"

definition posix_start_server :: "posix_env \<Rightarrow> string \<Rightarrow> posix_app \<Rightarrow> int \<times> posix_app" where
  "posix_start_server env port_str s =
     (if server_socket s \<ge> 0 then (1, pputs ''Error: server already running'' s)
      else
        (let pid = p_thread_create env (p_log s);
             s = pemit (PThreadCreate port_str) s
         in if pid \<le> p_pid_undef env
            then (1, pputs ''error initializing thread'' (s\<lparr>server_socket := - 1\<rparr>))
            else (0, s)))"

definition posix_udp_cmd :: "posix_env \<Rightarrow> string list \<Rightarrow> posix_app \<Rightarrow> (int \<times> posix_app) option" where
  "posix_udp_cmd env argv s =
     (if argv = [] then None
      else if length argv < 2
      then Some (1, pprintf (''usage: '' @ argv ! 0 @ '' [send|server]'' @ nl) s)
      else if argv ! 1 = ''send'' then
        (if length argv < 5
         then Some (1, pprintf (''usage: '' @ argv ! 0 @
                '' send <addr> <port> <data> [<num> [<delay in us>]]'' @ nl) s)
         else
           (let num = (if length argv > 5 then word_of_int (atoi (argv ! 5)) else 1);
                delay = (if length argv > 6 then word_of_int (atoi (argv ! 6)) else 1000000)
            in Some (posix_udp_send env (argv ! 2) (argv ! 3) (argv ! 4) num delay s)))
      else if argv ! 1 = ''server'' then
        (if length argv < 3
         then Some (1, pprintf (''usage: '' @ argv ! 0 @ '' server [start|stop]'' @ nl) s)
         else if argv ! 2 = ''start'' then
           (if length argv < 4
            then Some (1, pprintf (''usage '' @ argv ! 0 @ '' server start <port>'' @ nl) s)
            else Some (posix_start_server env (argv ! 3) s))
         else Some (1, pputs ''error: invalid command'' s))
      else Some (1, pputs ''error: invalid command'' s))"

section \<open>The socket calls of a command\<close>

fun is_sock :: "posix_ev \<Rightarrow> bool" where
  "is_sock (POut _) = False"
| "is_sock (PUsleep _) = False"
| "is_sock _ = True"

definition sock_calls :: "posix_app \<Rightarrow> posix_ev list" where
  "sock_calls s = filter is_sock (p_log s)"

lemma sock_calls_pemit [simp]:
  "sock_calls (pemit e s) = (if is_sock e then sock_calls s @ [e] else sock_calls s)"
  by (simp add: sock_calls_def)

lemma sock_calls_send_once [simp]:
  "sock_calls (posix_udp_send_once env fd d dst a q w s) = sock_calls s @ [PSendto fd d dst]"
  by (simp add: posix_udp_send_once_def Let_def)

lemma sock_calls_send_loop:
  "sock_calls ((posix_udp_send_once env fd d dst a q w ^^ n) s) =
     sock_calls s @ replicate n (PSendto fd d dst)"
  by (induction n) (simp_all add: replicate_append_same)

lemma server_socket_send_loop:
  "server_socket ((posix_udp_send_once env fd d dst a q w ^^ n) s) = server_socket s"
  by (induction n) (simp_all add: posix_udp_send_once_def Let_def)

section \<open>The receive buffer\<close>

text \<open>Every datagram leaves room for the terminating NUL the buffer starts with.\<close>

definition short_datagrams :: "posix_env \<Rightarrow> bool" where
  "short_datagrams env \<longleftrightarrow> (\<forall>log. length (snd (p_recvfrom env log)) < SERVER_BUFFER_SIZE)"

definition buffer_ok :: "posix_env \<Rightarrow> posix_app \<Rightarrow> bool" where
  "buffer_ok env s \<longleftrightarrow> short_datagrams env \<and>
     length (server_buffer s) = SERVER_BUFFER_SIZE \<and> last (server_buffer s) = NUL"

lemma buffer_ok_pemit [simp]: "buffer_ok env (pemit e s) = buffer_ok env s"
  by (simp add: buffer_ok_def)

lemma mem_write_0_last:
  assumes "length d < length buf"
  shows "\<exists>buf'. mem_write 0 d buf = Some buf' \<and> length buf' = length buf \<and> last buf' = last buf"
  using assms by (auto simp: mem_write_def last_append)

lemma posix_recv_round_ok:
  assumes "buffer_ok env s"
  shows "\<exists>s'. posix_recv_round env s = Some s' \<and> buffer_ok env s'"
proof -
  obtain res d where r: "p_recvfrom env (p_log s) = (res, d)" by (cases "p_recvfrom env (p_log s)")
  with assms have "length d < length (server_buffer s)"
    by (metis buffer_ok_def short_datagrams_def snd_conv)
  then obtain buf where w: "mem_write 0 d (server_buffer s) = Some buf"
      "length buf = length (server_buffer s)" "last buf = last (server_buffer s)"
    using mem_write_0_last by blast
  with assms have l: "last buf = NUL" and n: "buf \<noteq> []"
    by (auto simp: buffer_ok_def SERVER_BUFFER_SIZE_def)
  then have "nul_terminated buf" by (metis last_in_set nul_terminated_def)
  moreover from assms w l have "buffer_ok env (s\<lparr>server_buffer := buf\<rparr>)"
    by (simp add: buffer_ok_def)
  then have "buffer_ok env ((pemit e s)\<lparr>server_buffer := buf\<rparr>)" for e
    by (simp add: pemit_def buffer_ok_def)
  ultimately show ?thesis using assms r w(1) by (auto simp: posix_recv_round_def Let_def)
qed

interpretation posix_loop: total_steps "\<lambda>_ :: unit. posix_recv_round env" "buffer_ok env" for env
proof
  show "buffer_ok env s \<Longrightarrow> posix_recv_round env s = Some s' \<Longrightarrow> buffer_ok env s'" for s s' and e :: unit
    using posix_recv_round_ok by fastforce
  show "buffer_ok env s \<Longrightarrow> \<exists>s'. posix_recv_round env s = Some s'" for s and e :: unit
    using posix_recv_round_ok by blast
qed

section \<open>Properties\<close>

text \<open>A stack for the witnesses: it delivers the datagram \<^verbatim>\<open>by\<close> and accepts everything.\<close>

definition posix_demo :: posix_env where
  "posix_demo = \<lparr>sock_has_ipv6 = True, p_pid_undef = 0, p_thread_create = (\<lambda>_. 5),
     p_socket = (\<lambda>_. 3), p_bind = (\<lambda>_ _ _. 0), p_recvfrom = (\<lambda>_. (2, ''by'')),
     p_sendto = (\<lambda>_ _ d _. int (length d)), p_inet_pton6 = (\<lambda>_. Some (replicate 16 1)),
     p_split_iface = (\<lambda>a. (a, None)), p_netif_id = (\<lambda>_. None)\<rparr>"

text \<open>
  The receive loop is safe for any number of rounds as long as every datagram is shorter
  than the 64-byte buffer: each round returns, and the buffer keeps a terminating NUL, so
  \<^verbatim>\<open>puts\<close> never reads past it.
\<close>

lemma posix_recv_loop_safe:
  assumes "short_datagrams env" and "length (server_buffer s) = SERVER_BUFFER_SIZE"
    and "last (server_buffer s) = NUL"
  shows "\<exists>s'. run_steps (\<lambda>_ :: unit. posix_recv_round env) rounds s = Some s' \<and>
     nul_terminated (server_buffer s')"
proof -
  from assms have "buffer_ok env s" by (simp add: buffer_ok_def)
  from posix_loop.run_returns [OF this] obtain s' where
      run: "run_steps (\<lambda>_ :: unit. posix_recv_round env) rounds s = Some s'" and ok: "buffer_ok env s'"
    by blast
  from ok have "server_buffer s' \<noteq> []" and "last (server_buffer s') = NUL"
    by (auto simp: buffer_ok_def SERVER_BUFFER_SIZE_def)
  then have "nul_terminated (server_buffer s')" by (metis last_in_set nul_terminated_def)
  with run show ?thesis by blast
qed

lemma posix_recv_loop_safe_witness:
  "\<exists>s'. run_steps (\<lambda>_ :: unit. posix_recv_round posix_demo) [(), (), ()] posix_init = Some s' \<and>
     nul_terminated (server_buffer s')"
proof -
  have "short_datagrams posix_demo"
    by (simp add: short_datagrams_def posix_demo_def SERVER_BUFFER_SIZE_def)
  moreover have "length (server_buffer posix_init) = SERVER_BUFFER_SIZE"
    and "last (server_buffer posix_init) = NUL"
    by (simp_all add: posix_init_def SERVER_BUFFER_SIZE_def)
  ultimately show ?thesis by (rule posix_recv_loop_safe)
qed

text \<open>
  The receive loop does not terminate the datagram it prints: a datagram shorter than an
  earlier one is printed with the rest of the earlier one behind it.
\<close>

lemma posix_recv_stale_tail:
  assumes "p_recvfrom env (p_log s) = (int (length d), d)" and "d \<noteq> []" and "NUL \<notin> set d"
    and "server_buffer s = old @ NUL # rest" and "NUL \<notin> set old" and "length d \<le> length old"
  shows "\<exists>s'. posix_recv_round env s = Some s' \<and>
     p_log s' = p_log s @ [PRecvfrom (server_socket s), POut ''Received data: '',
       POut (d @ drop (length d) old @ nl)]"
proof -
  let ?buf = "(d @ drop (length d) old) @ NUL # rest"
  from assms(4,6) have w: "mem_write 0 d (server_buffer s) = Some ?buf" by (simp add: mem_write_def)
  have "NUL \<notin> set (d @ drop (length d) old)" using assms(3,5) by (auto dest: in_set_dropD)
  then have "cstr ?buf = d @ drop (length d) old" by (rule cstr_append_NUL)
  moreover have "nul_terminated ?buf" by (simp add: nul_terminated_def)
  ultimately show ?thesis using assms(1,2) w by (simp add: posix_recv_round_def)
qed

lemma posix_recv_stale_tail_witness:
  "\<exists>s'. posix_recv_round posix_demo (posix_init\<lparr>server_buffer := ''hello'' @ NUL # replicate 58 NUL\<rparr>) = Some s' \<and>
     p_log s' = [PRecvfrom (- 1), POut ''Received data: '', POut (''byllo'' @ nl)]"
proof -
  let ?s = "posix_init\<lparr>server_buffer := ''hello'' @ NUL # replicate 58 NUL\<rparr>"
  have "p_recvfrom posix_demo (p_log ?s) = (int (length ''by''), ''by'')" by (simp add: posix_demo_def)
  from posix_recv_stale_tail [OF this, of "''hello''" "replicate 58 NUL"] show ?thesis
    by (simp add: posix_init_def)
qed

text \<open>
  A datagram that fills the receive buffer and has no NUL in it makes \<^verbatim>\<open>puts\<close> read past
  the end of the buffer: the round is undefined.
\<close>

lemma posix_recv_overread:
  assumes "p_recvfrom env (p_log s) = (int (length d), d)" and "d \<noteq> []" and "NUL \<notin> set d"
    and "length d = length (server_buffer s)"
  shows "posix_recv_round env s = None"
proof -
  from assms(4) have "mem_write 0 d (server_buffer s) = Some d" by (simp add: mem_write_def)
  then show ?thesis using assms(1-3) by (simp add: posix_recv_round_def nul_terminated_def)
qed

lemma posix_recv_overread_witness:
  "posix_recv_round (posix_demo\<lparr>p_recvfrom := (\<lambda>_. (64, replicate 64 CHR ''x''))\<rparr>) posix_init = None"
  using posix_recv_overread [of "posix_demo\<lparr>p_recvfrom := (\<lambda>_. (64, replicate 64 CHR ''x''))\<rparr>"
      posix_init "replicate 64 CHR ''x''"]
  by (simp add: posix_init_def SERVER_BUFFER_SIZE_def)

text \<open>
  \<^verbatim>\<open>udp send\<close> on an address that parses opens one socket, sends the text \<^verbatim>\<open>num\<close> times
  through it to the port in network byte order, closes it again, and returns 0; if the
  socket cannot be opened nothing is sent and it returns 1. The server's socket is not
  touched in either case.
\<close>

lemma posix_udp_send_calls:
  assumes "sock_has_ipv6 env" and "p_split_iface env a = (a', None)"
    and "p_inet_pton6 env a' = Some ip" and "p_socket env (p_log s) = fd"
  shows "fst (posix_udp_send env a q d num w s) = (if fd < 0 then 1 else 0) \<and>
   server_socket (snd (posix_udp_send env a q d num w s)) = server_socket s \<and>
   sock_calls (snd (posix_udp_send env a q d num w s)) = sock_calls s @
     (if fd < 0 then [PSocket fd]
      else PSocket fd # replicate (unat num) (PSendto fd d
             \<lparr>sin6_addr = ip, sin6_port = htons (word_of_int (atoi q)), sin6_scope_id = None\<rparr>) @ [PClose fd])"
  using assms
  by (simp add: posix_udp_send_def posix_parse_iface_def Let_def sock_calls_send_loop
      server_socket_send_loop)

lemma posix_udp_send_calls_witness:
  "sock_calls (snd (posix_udp_send posix_demo ''fe80::1'' ''1337'' ''uiaeue'' 2 0 posix_init)) =
     [PSocket 3, PSendto 3 ''uiaeue''
        \<lparr>sin6_addr = replicate 16 1, sin6_port = htons (word_of_int (atoi ''1337'')), sin6_scope_id = None\<rparr>,
      PSendto 3 ''uiaeue''
        \<lparr>sin6_addr = replicate 16 1, sin6_port = htons (word_of_int (atoi ''1337'')), sin6_scope_id = None\<rparr>,
      PClose 3]"
proof -
  have "sock_has_ipv6 posix_demo" and "p_split_iface posix_demo ''fe80::1'' = (''fe80::1'', None)"
    and "p_inet_pton6 posix_demo ''fe80::1'' = Some (replicate 16 1)"
    and "p_socket posix_demo (p_log posix_init) = 3"
    by (simp_all add: posix_demo_def)
  note calls = posix_udp_send_calls [OF this, of "''1337''" "''uiaeue''" 2 0]
  have "sock_calls posix_init = []" by (simp add: sock_calls_def posix_init_def)
  moreover have "replicate 2 e = [e, e]" for e :: posix_ev by (simp add: numeral_2_eq_2)
  ultimately show ?thesis using calls by simp
qed

text \<open>
  A start that fails on its port locks the server out. \<^verbatim>\<open>_server_thread\<close> opens the socket
  before it checks the port and leaves \<^verbatim>\<open>server_socket\<close> set when the port is 0, and sets it
  to 0 when the socket itself cannot be opened: in both cases no server runs, yet every
  later start is refused as already running.
\<close>

lemma posix_failed_start_locks_out:
  assumes "word_of_int (atoi args) = (0 :: u16) \<and> 0 \<le> p_socket env (p_log s) \<or>
     word_of_int (atoi args) \<noteq> (0 :: u16) \<and> p_socket env (p_log s) < 0"
  shows "\<exists>s'. posix_server_start env args s = (False, s') \<and>
     posix_start_server env port_str s' = (1, pputs ''Error: server already running'' s')"
  using assms by (auto simp: posix_server_start_def posix_start_server_def Let_def)

lemma posix_failed_start_locks_out_witness:
  "\<exists>s'. posix_server_start posix_demo ''0'' posix_init = (False, s') \<and>
     posix_start_server posix_demo ''1337'' s' = (1, pputs ''Error: server already running'' s')"
proof -
  have "word_of_int (atoi ''0'') = (0 :: u16) \<and> 0 \<le> p_socket posix_demo (p_log posix_init)"
    by (simp add: posix_demo_def c_lib)
  then show ?thesis using posix_failed_start_locks_out [of "''0''" posix_demo posix_init "''1337''"]
    by blast
qed

text \<open>
  The start command creates no second thread on the server's stack: while
  \<^verbatim>\<open>server_socket\<close> holds a descriptor, as it does from a successful start on, the command
  prints its error, returns 1 and changes nothing else.
\<close>

lemma posix_no_second_server:
  assumes "posix_server_start env args s = (True, s')"
  shows "0 \<le> server_socket s' \<and>
     posix_udp_cmd env [c, ''server'', ''start'', p] s' =
       Some (1, pputs ''Error: server already running'' s')"
proof -
  from assms have "0 \<le> server_socket s'"
    by (auto simp: posix_server_start_def Let_def split: if_splits)
  then show ?thesis by (simp add: posix_udp_cmd_def posix_start_server_def)
qed

lemma posix_no_second_server_witness:
  "\<exists>s'. posix_server_start posix_demo ''1337'' posix_init = (True, s') \<and>
     posix_udp_cmd posix_demo [''udp'', ''server'', ''start'', ''1338''] s' =
       Some (1, pputs ''Error: server already running'' s')"
proof -
  have "fst (posix_server_start posix_demo ''1337'' posix_init)"
    by (simp add: posix_server_start_def posix_demo_def posix_init_def c_lib)
  then have "posix_server_start posix_demo ''1337'' posix_init =
      (True, snd (posix_server_start posix_demo ''1337'' posix_init))" by (metis prod.collapse)
  from posix_no_second_server [OF this] this show ?thesis by blast
qed

end
