(* ===== verification/Rust_Executor.thy ===== *)
theory Rust_Executor
  imports Async_Shell Xbd_Events "HOL-Library.Extended_Nat"
begin

text \<open>
  The executors that run the asynchronous tasks of \<^verbatim>\<open>examples/xbd-net\<close>: the two of \<^verbatim>\<open>src/blogos12\<close>, with
  tasks, wakers and the stream of scan codes, and the wrapper of \<^verbatim>\<open>src/embassy\<close> around the executor of
  a third-party crate, which is the one a constant of \<^verbatim>\<open>src/lib.rs\<close> selects. A future is a parameter: what a
  poll with the waker of a task gives, with the task identifiers that are woken meanwhile, in order. A panic is
  \<^const>\<open>None\<close>. The properties are about \<^verbatim>\<open>blogos12\<close>: its executor with any futures, with the tasks of the
  firmware, each of which handles the items of its stream, and the simple executor.
\<close>

section \<open>Tasks\<close>

type_synonym task_id = u32

text \<open>\<^verbatim>\<open>Result<(), i8>\<close>\<close>

type_synonym task_result = "int + unit"

type_synonym ('f, 'w) future =
  "task_id \<Rightarrow> 'f \<Rightarrow> 'w \<Rightarrow> (task_result poll \<times> 'f \<times> 'w \<times> task_id list) option"

text \<open>\<open>next_id\<close> is the counter \<^verbatim>\<open>NEXT_ID\<close>, which wraps; a cached waker is the identifier it wakes.\<close>

record 'f executor =
  next_id :: task_id
  tasks :: "task_id \<rightharpoonup> 'f"
  task_queue :: "task_id list"
  waker_cache :: "task_id \<rightharpoonup> task_id"

definition TASK_QUEUE_SIZE :: nat where "TASK_QUEUE_SIZE = 100"

definition executor_new :: "task_id \<Rightarrow> 'f executor" where
  "executor_new n = \<lparr>next_id = n, tasks = Map.empty, task_queue = [], waker_cache = Map.empty\<rparr>"

definition wake_task :: "task_id \<Rightarrow> 'f executor \<Rightarrow> 'f executor option" where
  "wake_task i ex =
     (if length (task_queue ex) < TASK_QUEUE_SIZE then Some (ex\<lparr>task_queue := task_queue ex @ [i]\<rparr>) else None)"

fun wake_tasks :: "task_id list \<Rightarrow> 'f executor \<Rightarrow> 'f executor option" where
  "wake_tasks [] ex = Some ex"
| "wake_tasks (i # is) ex = wake_task i ex \<bind> wake_tasks is"

definition task_new :: "'f executor \<Rightarrow> task_id \<times> 'f executor" where
  "task_new ex = (next_id ex, ex\<lparr>next_id := next_id ex + 1\<rparr>)"

definition spawn :: "'f \<Rightarrow> 'f executor \<Rightarrow> 'f executor option" where
  "spawn f ex =
     (let (i, ex) = task_new ex in
      if tasks ex i \<noteq> None then None else wake_task i (ex\<lparr>tasks := (tasks ex)(i \<mapsto> f)\<rparr>))"

text \<open>One turn of the loop of \<^verbatim>\<open>run_ready_tasks\<close>, and the loop, which need not end.\<close>

definition cached_waker :: "task_id \<Rightarrow> 'f executor \<Rightarrow> task_id \<times> 'f executor" where
  "cached_waker i ex =
     (case waker_cache ex i of
        Some j \<Rightarrow> (j, ex)
      | None \<Rightarrow> (i, ex\<lparr>waker_cache := (waker_cache ex)(i \<mapsto> i)\<rparr>))"

definition ready_step :: "('f, 'w) future \<Rightarrow> 'f executor \<times> 'w \<Rightarrow> ('f executor \<times> 'w) option" where
  "ready_step future s =
     (case s of (ex, w) \<Rightarrow>
        (case task_queue ex of
           [] \<Rightarrow> Some (ex, w)
         | i # q \<Rightarrow>
             (let ex = ex\<lparr>task_queue := q\<rparr> in
              case tasks ex i of
                None \<Rightarrow> Some (ex, w)
              | Some f \<Rightarrow>
                  (let (j, ex) = cached_waker i ex in
                   do {
                     (r, f, w, woken) \<leftarrow> future j f w;
                     ex \<leftarrow> wake_tasks woken ex;
                     case r of
                       Ready _ \<Rightarrow> Some (ex\<lparr>tasks := (tasks ex)(i := None), waker_cache := (waker_cache ex)(i := None)\<rparr>, w)
                     | Pending \<Rightarrow> Some (ex\<lparr>tasks := (tasks ex)(i \<mapsto> f)\<rparr>, w)
                   }))))"

partial_function (option) run_ready_tasks :: "('f, 'w) future \<Rightarrow> 'f executor \<times> 'w \<Rightarrow> ('f executor \<times> 'w) option" where
  "run_ready_tasks future s =
     (if task_queue (fst s) = [] then Some s
      else do { t \<leftarrow> ready_step future s; run_ready_tasks future t })"

text \<open>
  \<^verbatim>\<open>run\<close> alternates passes and pauses for ever; in a pause the callbacks of C change the world and wake
  tasks. A history of it is a list of these events.
\<close>

datatype 'c exec_ev = Pass | Callback 'c

fun exec_event :: "('f, 'w) future \<Rightarrow> ('c \<Rightarrow> 'w \<Rightarrow> ('w \<times> task_id list) option) \<Rightarrow> 'c exec_ev \<Rightarrow>
    'f executor \<times> 'w \<Rightarrow> ('f executor \<times> 'w) option" where
  "exec_event future cb Pass s = run_ready_tasks future s"
| "exec_event future cb (Callback c) s =
     do { (w, woken) \<leftarrow> cb c (snd s); ex \<leftarrow> wake_tasks woken (fst s); Some (ex, w) }"

section \<open>The simple executor\<close>

text \<open>
  \<^verbatim>\<open>SimpleExecutor::run\<close>: its waker does nothing, so what is woken is ignored; a task that is pending goes
  to the end of the queue. The result counts the polls.
\<close>

partial_function (option) simple_run :: "('f, 'w) future \<Rightarrow> (task_id \<times> 'f) list \<Rightarrow> 'w \<Rightarrow> (nat \<times> 'w) option" where
  "simple_run future q w =
     (case q of
        [] \<Rightarrow> Some (0, w)
      | (i, f) # q \<Rightarrow> do {
          (r, f, w, _) \<leftarrow> future 0 f w;
          (n, w) \<leftarrow> (case r of Ready _ \<Rightarrow> simple_run future q w | Pending \<Rightarrow> simple_run future (q @ [(i, f)]) w);
          Some (Suc n, w)
        })"

section \<open>The stream of scan codes\<close>

text \<open>The queue is \<^const>\<open>None\<close> before \<^verbatim>\<open>ScancodeStream::new\<close>, which panics when called again.\<close>

record scancodes =
  sc_queue :: "u8 list option"
  sc_waker :: "task_id option"

definition SCANCODE_QUEUE_SIZE :: nat where "SCANCODE_QUEUE_SIZE = 100"

definition scancode_stream_new :: "scancodes \<Rightarrow> scancodes option" where
  "scancode_stream_new s = (case sc_queue s of None \<Rightarrow> Some (s\<lparr>sc_queue := Some []\<rparr>) | Some _ \<Rightarrow> None)"

datatype scancode_added = Added "task_id option" | Dropped | Uninitialized

definition scancode_push :: "u8 \<Rightarrow> u8 list \<Rightarrow> u8 list option" where
  "scancode_push c q = (if length q < SCANCODE_QUEUE_SIZE then Some (q @ [c]) else None)"

definition add_scancode :: "u8 \<Rightarrow> scancodes \<Rightarrow> scancode_added \<times> scancodes" where
  "add_scancode c s =
     (case sc_queue s of
        None \<Rightarrow> (Uninitialized, s)
      | Some q \<Rightarrow>
          (case scancode_push c q of
             None \<Rightarrow> (Dropped, s)
           | Some q \<Rightarrow> (Added (sc_waker s), s\<lparr>sc_queue := Some q, sc_waker := None\<rparr>)))"

text \<open>Nothing comes between the two looks at the queue here; the theory of streams cuts them apart.\<close>

definition scancode_poll_next :: "task_id \<Rightarrow> scancodes \<Rightarrow> (u8 poll \<times> scancodes) option" where
  "scancode_poll_next i s =
     (case sc_queue s of
        None \<Rightarrow> None
      | Some (c # q) \<Rightarrow> Some (Ready c, s\<lparr>sc_queue := Some q\<rparr>)
      | Some [] \<Rightarrow> Some (Pending, s\<lparr>sc_waker := Some i\<rparr>))"

text \<open>
  The two demonstration tasks: \<^verbatim>\<open>example_task\<close>, ready at its first poll, and \<^verbatim>\<open>print_keypresses\<close>, whose loop prints
  each scan code; \<open>out\<close> is what they have printed.
\<close>

datatype demo_task = Example_task | Print_keypresses bool

function keypress_loop :: "task_id \<Rightarrow> scancodes \<Rightarrow> u8 list \<Rightarrow> (scancodes \<times> u8 list) option" where
  "keypress_loop i s out =
     (case scancode_poll_next i s of
        None \<Rightarrow> None
      | Some (Pending, s) \<Rightarrow> Some (s, out)
      | Some (Ready c, s) \<Rightarrow> keypress_loop i s (out @ [c]))"
  by pat_completeness auto
termination
  by (relation "measure (\<lambda>(i, s, out). case sc_queue s of None \<Rightarrow> 0 | Some q \<Rightarrow> length q)")
     (auto simp: scancode_poll_next_def split: option.splits list.splits)

fun poll_demo :: "(demo_task, scancodes \<times> u8 list) future" where
  "poll_demo i Example_task (s, out) = Some (Ready (Inr ()), Example_task, (s, out @ [42]), [])"
| "poll_demo i (Print_keypresses started) (s, out) = do {
     s \<leftarrow> (if started then Some s else scancode_stream_new s);
     (s, out) \<leftarrow> keypress_loop i s out;
     Some (Pending, Print_keypresses True, (s, out), [])
   }"

section \<open>The tasks of the firmware\<close>

text \<open>
  The task of a stream keeps the item it is handling while it awaits something, with the number of times it
  still has to: a line of the shell that is a function alias runs a test, which awaits timers and responses.
\<close>

datatype app_stream = Shell_stream | Gcoap_server_stream | Api_stream

datatype 'i app_task = Stream_task app_stream bool "('i \<times> nat) option" | Main_task

text \<open>
  The streams with their wakers, what the tasks have handled, and what the C functions return with
  which two of the tasks begin. The handling of an item awaits \<open>item_awaits\<close> times; what it awaits has the waker
  of the task and is resolved by a callback.
\<close>

record 'i app_world =
  stream_items :: "app_stream \<Rightarrow> 'i list"
  stream_waker :: "app_stream \<Rightarrow> task_id option"
  handled_items :: "app_stream \<Rightarrow> 'i list"
  init_ret :: "app_stream \<Rightarrow> int"
  item_awaits :: "'i \<Rightarrow> nat"
  inner_waker :: "app_stream \<Rightarrow> task_id option"
  inner_resolved :: "app_stream \<Rightarrow> bool"

definition stream_size :: "app_stream \<Rightarrow> nat" where
  "stream_size x = (case x of Shell_stream \<Rightarrow> SHELL_STREAM_SIZE | Gcoap_server_stream \<Rightarrow> SERVER_STREAM_SIZE
     | Api_stream \<Rightarrow> API_STREAM_SIZE)"

text \<open>
  \<^verbatim>\<open>while let Some(item) = xs.next().await { ... }\<close>, up to the poll that is pending: the items handled, the one
  whose handling awaits, and the rest of the queue.
\<close>

function take_items :: "('i \<Rightarrow> nat) \<Rightarrow> 'i list \<Rightarrow> 'i list \<times> ('i \<times> nat) option \<times> 'i list" where
  "take_items awaits q =
     (case xs_poll_next q of
        (Ready x, r) \<Rightarrow>
          (if awaits x = 0 then (case take_items awaits r of (xs, c, r) \<Rightarrow> (x # xs, c, r)) else ([], Some (x, awaits x), r))
      | (Pending, r) \<Rightarrow> ([], None, r))"
  by pat_completeness auto
termination by (relation "measure (\<lambda>(_, q). length q)") (auto simp: xs_poll_next_def split: list.splits)

definition stream_loop :: "task_id \<Rightarrow> app_stream \<Rightarrow> 'i app_world \<Rightarrow> ('i \<times> nat) option \<times> 'i app_world" where
  "stream_loop i x w =
     (case take_items (item_awaits w) (stream_items w x) of (done, cur, rest) \<Rightarrow>
        (let w = w\<lparr>stream_items := (stream_items w)(x := rest), handled_items := (handled_items w)(x := handled_items w x @ done)\<rparr> in
         (cur, if cur = None then w\<lparr>stream_waker := (stream_waker w)(x := Some i)\<rparr>
               else w\<lparr>inner_waker := (inner_waker w)(x := Some i)\<rparr>)))"

text \<open>A poll goes on where the last one was pending, in what the handling awaits or in the stream.\<close>

definition stream_poll ::
  "task_id \<Rightarrow> app_stream \<Rightarrow> ('i \<times> nat) option \<Rightarrow> 'i app_world \<Rightarrow> ('i \<times> nat) option \<times> 'i app_world" where
  "stream_poll i x cur w =
     (case cur of
        None \<Rightarrow> stream_loop i x w
      | Some (item, n) \<Rightarrow>
          (if \<not> inner_resolved w x then (cur, w\<lparr>inner_waker := (inner_waker w)(x := Some i)\<rparr>)
           else
             (let w = w\<lparr>inner_resolved := (inner_resolved w)(x := False)\<rparr> in
              if 1 < n then (Some (item, n - 1), w\<lparr>inner_waker := (inner_waker w)(x := Some i)\<rparr>)
              else stream_loop i x (w\<lparr>handled_items := (handled_items w)(x := handled_items w x @ [item])\<rparr>))))"

text \<open>
  \<^verbatim>\<open>process_shell_stream\<close>, \<^verbatim>\<open>process_gcoap_server_stream\<close>, \<^verbatim>\<open>process_api_stream\<close> and \<^verbatim>\<open>xbd_main\<close>. The shell
  task is done at once where there is no asynchronous input, and the main task in any case: all its
  demonstrations are disabled.
\<close>

fun poll_app :: "('i app_task, 'i app_world) future" where
  "poll_app i Main_task w = Some (Ready (Inr ()), Main_task, w, [])"
| "poll_app i (Stream_task x started cur) w =
     (let ret = (if started \<or> x = Api_stream then 0 else init_ret w x) in
      if ret = 0 then (case stream_poll i x cur w of (cur, w) \<Rightarrow> Some (Pending, Stream_task x True cur, w, []))
      else if x = Shell_stream \<and> ret = 2 then Some (Ready (Inr ()), Stream_task x True cur, w, [])
      else Some (Ready (Inl ret), Stream_task x True cur, w, []))"

text \<open>
  A C callback adds an item to a stream and wakes its task, or resolves what the handling of an item awaits; the
  latter panics if nothing is awaited, as \<^verbatim>\<open>FutureState::resolve\<close> does.
\<close>

datatype 'i app_event = Add_item app_stream 'i | Resolve app_stream

definition waking :: "task_id option \<Rightarrow> task_id list" where
  "waking k = (case k of None \<Rightarrow> [] | Some i \<Rightarrow> [i])"

definition add_item :: "app_stream \<Rightarrow> 'i \<Rightarrow> 'i app_world \<Rightarrow> ('i app_world \<times> task_id list) option" where
  "add_item x item w = do {
     q \<leftarrow> xs_add (stream_size x) item (stream_items w x);
     Some (w\<lparr>stream_items := (stream_items w)(x := q), stream_waker := (stream_waker w)(x := None)\<rparr>,
           waking (stream_waker w x))
   }"

fun app_callback :: "'i app_event \<Rightarrow> 'i app_world \<Rightarrow> ('i app_world \<times> task_id list) option" where
  "app_callback (Add_item x item) w = add_item x item w"
| "app_callback (Resolve x) w =
     (case inner_waker w x of
        None \<Rightarrow> None
      | Some i \<Rightarrow> Some (w\<lparr>inner_waker := (inner_waker w)(x := None), inner_resolved := (inner_resolved w)(x := True)\<rparr>, [i]))"

text \<open>\<^verbatim>\<open>Runtime::new\<close> followed by the \<^verbatim>\<open>spawn\<close> of \<^verbatim>\<open>block_on\<close>.\<close>

definition runtime_new :: "'i app_task executor option" where
  "runtime_new =
     spawn (Stream_task Shell_stream False None) (executor_new 0) \<bind>
     spawn (Stream_task Gcoap_server_stream False None) \<bind>
     spawn (Stream_task Api_stream False None)"

definition block_on :: "'f \<Rightarrow> 'f executor \<Rightarrow> 'f executor option" where
  "block_on f ex = spawn f ex"

definition world_new :: "(app_stream \<Rightarrow> int) \<Rightarrow> ('i \<Rightarrow> nat) \<Rightarrow> 'i app_world" where
  "world_new ret awaits = \<lparr>stream_items = (\<lambda>_. []), stream_waker = (\<lambda>_. None), handled_items = (\<lambda>_. []), init_ret = ret,
     item_awaits = awaits, inner_waker = (\<lambda>_. None), inner_resolved = (\<lambda>_. False)\<rparr>"

section \<open>The wrapper of the third-party executor\<close>

text \<open>
  \<^verbatim>\<open>SIGNALER\<close> is initialised by the first \<^verbatim>\<open>Executor::new\<close>, and a second one panics; \<^verbatim>\<open>pender\<close> only checks
  its argument, so a task that is woken waits for the end of the pause. The tasks unwrap the
  results of the functions they run: an error panics, where the executor above drops the task.
\<close>

definition SIGNALER_DUMMY_DATA :: u8 where "SIGNALER_DUMMY_DATA = 42"

datatype embassy_act = Embassy_spawn "app_stream option" | Embassy_throttle u32 | Embassy_poll | Embassy_msleep u32

record embassy_executor =
  em_signaler :: u8
  em_throttle :: "u32 option"

definition embassy_executor_new :: "u32 option \<Rightarrow> u8 option \<Rightarrow> (embassy_executor \<times> u8 option) option" where
  "embassy_executor_new throttle cell =
     (case cell of
        None \<Rightarrow> Some (\<lparr>em_signaler = SIGNALER_DUMMY_DATA, em_throttle = throttle\<rparr>, Some SIGNALER_DUMMY_DATA)
      | Some _ \<Rightarrow> None)"

definition pender :: "u8 \<Rightarrow> unit option" where
  "pender dummy = (if dummy = SIGNALER_DUMMY_DATA then Some () else None)"

definition embassy_runtime_new :: "u8 option \<Rightarrow> (embassy_executor \<times> u8 option) option" where
  "embassy_runtime_new = embassy_executor_new (Some 100)"

definition embassy_init :: "embassy_act list" where
  "embassy_init = [Embassy_spawn None, Embassy_spawn (Some Shell_stream), Embassy_spawn (Some Gcoap_server_stream),
     Embassy_spawn (Some Api_stream)]"

text \<open>What \<^verbatim>\<open>run\<close> does in its first \<open>n\<close> rounds; it never returns.\<close>

definition embassy_run :: "embassy_executor \<Rightarrow> nat \<Rightarrow> embassy_act list option" where
  "embassy_run ex n =
     (if em_signaler ex \<noteq> SIGNALER_DUMMY_DATA then None
      else Some (embassy_init @
        (case em_throttle ex of
           Some ms \<Rightarrow> Embassy_throttle ms # concat (replicate n [Embassy_poll, Embassy_msleep ms])
         | None \<Rightarrow> replicate n Embassy_poll)))"

definition embassy_task_poll :: "('i app_task, 'i app_world) future" where
  "embassy_task_poll i f w =
     (case poll_app i f w of Some (Ready (Inl e), _) \<Rightarrow> None | r \<Rightarrow> r)"

section \<open>Lemmas on the executor\<close>

declare take_items.simps [simp del] keypress_loop.simps [simp del]

lemma wake_tasks_Some:
  "wake_tasks is ex = Some ex' \<longleftrightarrow>
     (is = [] \<or> length (task_queue ex) + length is \<le> TASK_QUEUE_SIZE) \<and> ex' = ex\<lparr>task_queue := task_queue ex @ is\<rparr>"
proof (induction "is" arbitrary: ex)
  case Nil
  then show ?case by auto
next
  case (Cons i r)
  let ?ex = "ex\<lparr>task_queue := task_queue ex @ [i]\<rparr>"
  show ?case
  proof (cases "length (task_queue ex) < TASK_QUEUE_SIZE")
    case True
    then have "wake_tasks (i # r) ex = wake_tasks r ?ex" by (simp add: wake_task_def)
    moreover have "ex\<lparr>task_queue := task_queue ex @ i # r\<rparr> = ?ex\<lparr>task_queue := task_queue ?ex @ r\<rparr>" by simp
    ultimately show ?thesis using True Cons.IH [of ?ex] by (auto simp del: append_Cons)
  next
    case False
    then show ?thesis by (simp add: wake_task_def)
  qed
qed

lemma spawn_defined:
  "spawn f ex \<noteq> None \<longleftrightarrow> tasks ex (next_id ex) = None \<and> length (task_queue ex) < TASK_QUEUE_SIZE"
  by (simp add: spawn_def task_new_def wake_task_def)

text \<open>
  Well-formed: the queue fits, every cached waker belongs to a task and wakes it, and all futures satisfy
  \<open>P\<close>, for instance that they are not finished.
\<close>

definition exec_ok :: "('f \<Rightarrow> bool) \<Rightarrow> 'f executor \<Rightarrow> bool" where
  "exec_ok P ex \<longleftrightarrow> length (task_queue ex) \<le> TASK_QUEUE_SIZE \<and> (\<forall>i. waker_cache ex i \<noteq> None \<longrightarrow> tasks ex i \<noteq> None) \<and>
     (\<forall>i j. waker_cache ex i = Some j \<longrightarrow> j = i) \<and> (\<forall>i f. tasks ex i = Some f \<longrightarrow> P f)"

definition keeps :: "('f, 'w) future \<Rightarrow> ('f \<Rightarrow> bool) \<Rightarrow> bool" where
  "keeps future P \<longleftrightarrow> (\<forall>i f w f' w' woken. P f \<longrightarrow> future i f w = Some (Pending, f', w', woken) \<longrightarrow> P f')"

lemma exec_ok_new: "exec_ok P (executor_new n)"
  by (simp add: exec_ok_def executor_new_def)

lemma exec_ok_spawn: "exec_ok P ex \<Longrightarrow> P f \<Longrightarrow> spawn f ex = Some ex' \<Longrightarrow> exec_ok P ex'"
  by (auto simp: spawn_def task_new_def wake_task_def exec_ok_def split: if_splits)

lemma exec_ok_wake: "exec_ok P ex \<Longrightarrow> wake_tasks is ex = Some ex' \<Longrightarrow> exec_ok P ex'"
  by (auto simp: wake_tasks_Some exec_ok_def)

text \<open>What a turn of the loop does.\<close>

lemma ready_step_cases:
  assumes "ready_step future (ex, w) = Some (ex', w')" and "task_queue ex = i # q" and "exec_ok P ex"
  obtains (gone) "tasks ex i = None" "ex' = ex\<lparr>task_queue := q\<rparr>" "w' = w"
  | (finished) f r f' woken where "tasks ex i = Some f" "future i f w = Some (Ready r, f', w', woken)"
      "woken = [] \<or> length q + length woken \<le> TASK_QUEUE_SIZE"
      "ex' = ex\<lparr>tasks := (tasks ex)(i := None), task_queue := q @ woken, waker_cache := (waker_cache ex)(i := None)\<rparr>"
  | (pending) f f' woken where "tasks ex i = Some f" "future i f w = Some (Pending, f', w', woken)"
      "woken = [] \<or> length q + length woken \<le> TASK_QUEUE_SIZE"
      "ex' = ex\<lparr>tasks := (tasks ex)(i \<mapsto> f'), task_queue := q @ woken, waker_cache := (waker_cache ex)(i \<mapsto> i)\<rparr>"
proof (cases "tasks ex i")
  case None
  with assms gone show ?thesis by (simp add: ready_step_def Let_def)
next
  case (Some f)
  have c: "cached_waker i (ex\<lparr>task_queue := q\<rparr>) =
      (i, ex\<lparr>task_queue := q, waker_cache := (waker_cache ex)(i \<mapsto> i)\<rparr>)"
  proof (cases "waker_cache ex i")
    case None
    then show ?thesis by (simp add: cached_waker_def)
  next
    case (Some j)
    with assms(3) have "j = i" by (simp add: exec_ok_def)
    with Some show ?thesis by (simp add: cached_waker_def map_upd_triv)
  qed
  from assms(1,2) Some c obtain r f' w1 woken where p: "future i f w = Some (r, f', w1, woken)"
    by (cases "future i f w") (auto simp: ready_step_def Let_def)
  show ?thesis
  proof (cases r)
    case (Ready x)
    with assms(1,2) Some c p obtain ex1 where
        "wake_tasks woken (ex\<lparr>task_queue := q, waker_cache := (waker_cache ex)(i \<mapsto> i)\<rparr>) = Some ex1" "w1 = w'"
        "ex' = ex1\<lparr>tasks := (tasks ex1)(i := None), waker_cache := (waker_cache ex1)(i := None)\<rparr>"
      by (auto simp: ready_step_def Let_def bind_eq_Some_conv)
    with p Ready show ?thesis by (intro finished [OF Some, of x f' woken]) (auto simp: wake_tasks_Some)
  next
    case Pending
    with assms(1,2) Some c p obtain ex1 where
        "wake_tasks woken (ex\<lparr>task_queue := q, waker_cache := (waker_cache ex)(i \<mapsto> i)\<rparr>) = Some ex1" "w1 = w'"
        "ex' = ex1\<lparr>tasks := (tasks ex1)(i \<mapsto> f')\<rparr>"
      by (auto simp: ready_step_def Let_def bind_eq_Some_conv)
    with p Pending show ?thesis by (intro pending [OF Some, of f' woken]) (auto simp: wake_tasks_Some)
  qed
qed

lemma exec_ok_step:
  assumes "ready_step future (ex, w) = Some (ex', w')" and "exec_ok P ex" and "keeps future P"
  shows "exec_ok P ex'"
proof (cases "task_queue ex")
  case Nil
  with assms(1,2) show ?thesis by (simp add: ready_step_def)
next
  case (Cons i q)
  then have len: "length q < TASK_QUEUE_SIZE" using assms(2) by (simp add: exec_ok_def)
  from assms(1) Cons assms(2) show ?thesis
  proof (cases rule: ready_step_cases)
    case gone
    with assms(2) len show ?thesis by (simp add: exec_ok_def)
  next
    case (finished f r f' woken)
    with assms(2) len show ?thesis by (auto simp: exec_ok_def)
  next
    case (pending f f' woken)
    moreover from this assms(2,3) have "P f'" unfolding keeps_def exec_ok_def by blast
    ultimately show ?thesis using assms(2) len by (auto simp: exec_ok_def)
  qed
qed

text \<open>Induction over a pass that ends.\<close>

lemma pass_induct [consumes 1, case_names stop turn]:
  assumes "run_ready_tasks future s = Some t"
    and stop: "\<And>s. task_queue (fst s) = [] \<Longrightarrow> Q s s"
    and turn: "\<And>s u t. task_queue (fst s) \<noteq> [] \<Longrightarrow> ready_step future s = Some u \<Longrightarrow> Q u t \<Longrightarrow> Q s t"
  shows "Q s t"
proof -
  have "future = future \<longrightarrow> Q s t"
  proof (rule run_ready_tasks.raw_induct [where P = "\<lambda>g s t. g = future \<longrightarrow> Q s t", OF _ assms(1)], rule impI)
    fix rec g s t
    assume IH: "\<And>g s t. rec g s = Some t \<Longrightarrow> g = future \<longrightarrow> Q s t"
      and body: "(if task_queue (fst s) = [] then Some s else ready_step g s \<bind> rec g) = Some t"
      and g: "g = future"
    show "Q s t"
    proof (cases "task_queue (fst s) = []")
      case True
      with body stop show ?thesis by simp
    next
      case False
      with body g obtain u where "ready_step future s = Some u" "rec future u = Some t" by (auto simp: bind_eq_Some_conv)
      with IH turn False show ?thesis by blast
    qed
  qed
  then show ?thesis by simp
qed

lemma exec_ok_pass:
  assumes "run_ready_tasks future s = Some t" and "exec_ok P (fst s)" and "keeps future P"
  shows "exec_ok P (fst t)"
  using assms(1,2)
proof (induction rule: pass_induct)
  case (stop s)
  then show ?case by simp
next
  case (turn s u t)
  with exec_ok_step [of future "fst s" "snd s" "fst u" "snd u" P] assms(3) show ?case by simp
qed

lemma exec_ok_event:
  assumes "exec_event future cb e s = Some t" and "exec_ok P (fst s)" and "keeps future P"
  shows "exec_ok P (fst t)"
proof (cases e)
  case Pass
  with assms exec_ok_pass [of future s t P] show ?thesis by simp
next
  case (Callback c)
  with assms(1,2) show ?thesis by (auto simp: bind_eq_Some_conv dest: exec_ok_wake)
qed

text \<open>A pass that ends leaves nothing ready.\<close>

lemma pass_unfold:
  "task_queue (fst s) = [] \<Longrightarrow> run_ready_tasks future s = Some s"
  "task_queue (fst s) \<noteq> [] \<Longrightarrow> run_ready_tasks future s = ready_step future s \<bind> run_ready_tasks future"
  by (subst run_ready_tasks.simps, simp)+

text \<open>
  A pass ends if what is left to do is bounded: every poll returns, and wakes no more tasks than it takes
  off a budget, and the queue has room for all of them.
\<close>

definition budget :: "('f, 'w) future \<Rightarrow> ('w \<Rightarrow> nat) \<Rightarrow> bool" where
  "budget future m \<longleftrightarrow> (\<forall>i f w. \<exists>r f' w' woken. future i f w = Some (r, f', w', woken) \<and> m w' + length woken \<le> m w)"

lemma ready_step_budget:
  assumes "budget future m" and "task_queue ex = i # q" and "length q + m w \<le> TASK_QUEUE_SIZE"
  shows "\<exists>ex' w'. ready_step future (ex, w) = Some (ex', w') \<and> length (task_queue ex') + m w' \<le> length q + m w"
proof (cases "tasks ex i")
  case None
  with assms show ?thesis by (simp add: ready_step_def)
next
  case (Some f)
  obtain j ex1 where c: "cached_waker i (ex\<lparr>task_queue := q\<rparr>) = (j, ex1)" and q: "task_queue ex1 = q"
    by (cases "waker_cache ex i") (auto simp: cached_waker_def)
  from assms(1) obtain r f' w' woken where p: "future j f w = Some (r, f', w', woken)" "m w' + length woken \<le> m w"
    unfolding budget_def by blast
  have "wake_tasks woken ex1 = Some (ex1\<lparr>task_queue := q @ woken\<rparr>)"
    using p(2) assms(3) q by (simp add: wake_tasks_Some)
  with Some c p assms(2) show ?thesis by (cases r) (simp_all add: ready_step_def)
qed

lemma pass_budget:
  assumes "budget future m" and "length (task_queue ex) + m w \<le> TASK_QUEUE_SIZE"
  shows "\<exists>ex' w'. run_ready_tasks future (ex, w) = Some (ex', w') \<and> task_queue ex' = []"
  using assms(2)
proof (induction "length (task_queue ex) + m w" arbitrary: ex w rule: less_induct)
  case less
  show ?case
  proof (cases "task_queue ex")
    case Nil
    then show ?thesis by (simp add: pass_unfold)
  next
    case (Cons i q)
    with less.prems have "length q + m w \<le> TASK_QUEUE_SIZE" by simp
    from ready_step_budget [OF assms(1) Cons this] obtain ex1 w1 where s: "ready_step future (ex, w) = Some (ex1, w1)"
        "length (task_queue ex1) + m w1 \<le> length q + m w" by blast
    with Cons less.prems have "length (task_queue ex1) + m w1 < length (task_queue ex) + m w"
        "length (task_queue ex1) + m w1 \<le> TASK_QUEUE_SIZE" by simp_all
    from less.hyps [OF this] s(1) Cons show ?thesis by (simp add: pass_unfold)
  qed
qed

text \<open>A task that wakes itself whenever it is polled keeps the pass, and so the firmware, busy for ever.\<close>

lemma self_waking_task_starves:
  fixes ex :: "'f executor" and future :: "('f, 'w) future"
  assumes "\<And>i f w. \<exists>f' w'. future i f w = Some (Pending, f', w', [i])"
    and "task_queue ex = [i]" and "tasks ex i \<noteq> None" and "exec_ok (\<lambda>_. True) ex"
  shows "run_ready_tasks future (ex, w) = None"
proof -
  define busy where "busy ex \<longleftrightarrow> task_queue ex = [i] \<and> tasks ex i \<noteq> None \<and> exec_ok (\<lambda>_. True) ex"
    for ex :: "'f executor"
  have "\<not> busy (fst s)" if "run_ready_tasks future s = Some t" for s t
    using that
  proof (induction rule: pass_induct)
    case (stop s)
    then show ?case by (simp add: busy_def)
  next
    case (turn s u t)
    show ?case
    proof
      assume b: "busy (fst s)"
      obtain ex1 w1 ex2 w2 where s: "s = (ex1, w1)" "u = (ex2, w2)" by fastforce
      with b have q: "task_queue ex1 = [i]" "exec_ok (\<lambda>_. True) ex1" "tasks ex1 i \<noteq> None" by (simp_all add: busy_def)
      from turn(2) have st: "ready_step future (ex1, w1) = Some (ex2, w2)" by (simp add: s)
      have "exec_ok (\<lambda>_. True) ex2" using exec_ok_step [OF st q(2)] by (simp add: keeps_def)
      moreover from st q(1,2) have "task_queue ex2 = [i] \<and> tasks ex2 i \<noteq> None"
      proof (cases rule: ready_step_cases)
        case gone
        with q(3) show ?thesis by simp
      next
        case (finished g r f' woken)
        with assms(1) show ?thesis by (metis option.inject poll.distinct(1) prod.inject)
      next
        case (pending g f' woken)
        moreover from assms(1) this(2) have "woken = [i]" by (metis option.inject prod.inject)
        ultimately show ?thesis by simp
      qed
      ultimately show False using turn(3) s by (simp add: busy_def)
    qed
  qed
  moreover have "busy (fst (ex, w))" using assms(2-4) by (simp add: busy_def)
  ultimately show ?thesis by fastforce
qed

section \<open>Lemmas on the firmware's tasks\<close>

text \<open>What a task is handling.\<close>

definition in_hand :: "('i \<times> nat) option \<Rightarrow> 'i list" where
  "in_hand cur = (case cur of None \<Rightarrow> [] | Some (item, _) \<Rightarrow> [item])"

lemma in_hand_simps [simp]: "in_hand None = []" "in_hand (Some (item, n)) = [item]"
  by (simp_all add: in_hand_def)

lemma take_items_unfold:
  "take_items aw [] = ([], None, [])"
  "take_items aw (x # q) =
     (if aw x = 0 then (case take_items aw q of (xs, c, r) \<Rightarrow> (x # xs, c, r)) else ([], Some (x, aw x), q))"
  by (subst take_items.simps, simp add: xs_poll_next_def)+

lemma take_items_spec:
  "take_items aw q = (d, c, r) \<Longrightarrow> q = d @ in_hand c @ r \<and> (c = None \<longrightarrow> r = []) \<and> (\<forall>x n. c = Some (x, n) \<longrightarrow> n = aw x \<and> 0 < n)"
  by (induction q arbitrary: d c r) (auto simp: take_items_unfold split: if_splits prod.splits)

text \<open>
  The invariant of a stream and its task, where \<open>ready\<close> says that the task is in the queue: otherwise it is
  parked on its stream, which is empty, or on what it awaits, and nowhere else.
\<close>

definition stream_ok :: "task_id \<Rightarrow> bool \<Rightarrow> ('i \<times> nat) option \<Rightarrow> app_stream \<Rightarrow> 'i app_world \<Rightarrow> bool" where
  "stream_ok i ready cur x w \<longleftrightarrow> (\<forall>item n. cur = Some (item, n) \<longrightarrow> 0 < n) \<and>
     (if ready then stream_waker w x = None \<and> inner_waker w x = None \<and> (inner_resolved w x \<longleftrightarrow> cur \<noteq> None)
      else \<not> inner_resolved w x \<and>
        (if cur = None then stream_items w x = [] \<and> stream_waker w x = Some i \<and> inner_waker w x = None
         else stream_waker w x = None \<and> inner_waker w x = Some i))"

text \<open>How often the tasks have to be resolved until a stream is handled.\<close>

definition awaits_left :: "('i \<times> nat) option \<Rightarrow> app_stream \<Rightarrow> 'i app_world \<Rightarrow> nat" where
  "awaits_left cur x w = (case cur of None \<Rightarrow> 0 | Some (_, n) \<Rightarrow> n) + sum_list (map (item_awaits w) (stream_items w x))"

text \<open>Nothing but the stream \<open>x\<close> differs.\<close>

definition same_but :: "app_stream \<Rightarrow> 'i app_world \<Rightarrow> 'i app_world \<Rightarrow> bool" where
  "same_but x w w' \<longleftrightarrow> init_ret w' = init_ret w \<and> item_awaits w' = item_awaits w \<and>
     (\<forall>y. y \<noteq> x \<longrightarrow> stream_items w' y = stream_items w y \<and> stream_waker w' y = stream_waker w y \<and>
        handled_items w' y = handled_items w y \<and> inner_waker w' y = inner_waker w y \<and> inner_resolved w' y = inner_resolved w y)"

definition all_items :: "('i \<times> nat) option \<Rightarrow> app_stream \<Rightarrow> 'i app_world \<Rightarrow> 'i list" where
  "all_items cur x w = handled_items w x @ in_hand cur @ stream_items w x"

lemma same_but_stream_ok: "same_but x w w' \<Longrightarrow> y \<noteq> x \<Longrightarrow> stream_ok i b c y w' = stream_ok i b c y w"
  and same_but_all_items: "same_but x w w' \<Longrightarrow> y \<noteq> x \<Longrightarrow> all_items c y w' = all_items c y w"
  and same_but_awaits_left: "same_but x w w' \<Longrightarrow> y \<noteq> x \<Longrightarrow> awaits_left c y w' = awaits_left c y w"
  by (simp_all add: same_but_def stream_ok_def all_items_def awaits_left_def)

lemma stream_loop_ok:
  assumes "stream_loop i x w = (cur, w')" and "stream_waker w x = None" and "inner_waker w x = None" and "\<not> inner_resolved w x"
  shows "stream_ok i False cur x w'" and "same_but x w w'" and "all_items cur x w' = all_items None x w"
    and "awaits_left cur x w' \<le> awaits_left None x w"
proof -
  obtain d c r where t: "take_items (item_awaits w) (stream_items w x) = (d, c, r)" by (metis prod_cases3)
  note s = take_items_spec [OF t]
  from assms(1) t have e: "cur = c"
    "w' = (let w = w\<lparr>stream_items := (stream_items w)(x := r), handled_items := (handled_items w)(x := handled_items w x @ d)\<rparr> in
       if c = None then w\<lparr>stream_waker := (stream_waker w)(x := Some i)\<rparr> else w\<lparr>inner_waker := (inner_waker w)(x := Some i)\<rparr>)"
    by (auto simp: stream_loop_def Let_def)
  show "stream_ok i False cur x w'" "same_but x w w'" "all_items cur x w' = all_items None x w"
    using s assms(2-4) by (auto simp: e Let_def stream_ok_def same_but_def all_items_def)
  show "awaits_left cur x w' \<le> awaits_left None x w"
    using s by (auto simp: e Let_def awaits_left_def in_hand_def split: option.splits)
qed

text \<open>A poll of a task that is ready leaves it parked.\<close>

lemma stream_poll_ok:
  assumes "stream_poll i x cur w = (cur', w')" and ok: "stream_ok i True cur x w"
  shows "stream_ok i False cur' x w' \<and> same_but x w w' \<and> all_items cur' x w' = all_items cur x w \<and>
     (if cur = None then awaits_left cur' x w' \<le> awaits_left cur x w else awaits_left cur' x w' < awaits_left cur x w)"
proof (cases cur)
  case None
  with ok have "stream_waker w x = None" "inner_waker w x = None" "\<not> inner_resolved w x" by (simp_all add: stream_ok_def)
  with stream_loop_ok [of i x w cur' w'] assms(1) None show ?thesis by (simp add: stream_poll_def)
next
  case (Some c)
  obtain item n where c: "c = (item, n)" by fastforce
  with ok Some have w: "stream_waker w x = None" "inner_waker w x = None" "inner_resolved w x" "0 < n" by (simp_all add: stream_ok_def)
  let ?w = "w\<lparr>inner_resolved := (inner_resolved w)(x := False)\<rparr>"
  show ?thesis
  proof (cases "1 < n")
    case True
    with assms(1) Some c w have e: "cur' = Some (item, n - 1)" "w' = ?w\<lparr>inner_waker := (inner_waker w)(x := Some i)\<rparr>"
      by (simp_all add: stream_poll_def)
    show ?thesis using True w by (simp add: e Some c stream_ok_def same_but_def all_items_def awaits_left_def)
  next
    case False
    let ?v = "?w\<lparr>handled_items := (handled_items w)(x := handled_items w x @ [item])\<rparr>"
    from False assms(1) Some c w have l: "stream_loop i x ?v = (cur', w')" by (simp add: stream_poll_def)
    note k = stream_loop_ok [OF l]
    have "stream_ok i False cur' x w'" "same_but x ?v w'" "all_items cur' x w' = all_items None x ?v"
      "awaits_left cur' x w' \<le> awaits_left None x ?v" using k w by simp_all
    moreover have "same_but x w w'" using \<open>same_but x ?v w'\<close> by (simp add: same_but_def)
    moreover have "all_items None x ?v = all_items cur x w" by (simp add: all_items_def Some c)
    moreover have "awaits_left None x ?v < awaits_left cur x w" using w(4) by (simp add: awaits_left_def Some c)
    ultimately show ?thesis using Some by simp
  qed
qed

text \<open>The identifiers of the tasks, in the order in which they are spawned.\<close>

fun tid :: "app_stream \<Rightarrow> task_id" where
  "tid Shell_stream = 0"
| "tid Gcoap_server_stream = 1"
| "tid Api_stream = 2"

abbreviation main_tid :: task_id where "main_tid \<equiv> 3"

lemma tid_eq [simp]: "tid x = tid y \<longleftrightarrow> x = y"
  by (cases x; cases y) simp_all

lemma tid_not_main [simp]: "tid x \<noteq> main_tid" "main_tid \<noteq> tid x"
  by (cases x; simp)+

definition cur_of :: "'i app_task executor \<Rightarrow> app_stream \<Rightarrow> ('i \<times> nat) option" where
  "cur_of ex x = (case tasks ex (tid x) of Some (Stream_task _ _ cur) \<Rightarrow> cur | _ \<Rightarrow> None)"

text \<open>Every stream has its task, and every task is in the queue at most once.\<close>

definition runtime_ok :: "'i app_task executor \<Rightarrow> 'i app_world \<Rightarrow> bool" where
  "runtime_ok ex w \<longleftrightarrow> exec_ok (\<lambda>_. True) ex \<and> (\<forall>x. init_ret w x = 0) \<and>
     (\<forall>x. \<exists>b cur. tasks ex (tid x) = Some (Stream_task x b cur)) \<and> tasks ex main_tid \<in> {None, Some Main_task} \<and>
     distinct (task_queue ex) \<and> set (task_queue ex) \<subseteq> insert main_tid (range tid) \<and>
     (\<forall>x. stream_ok (tid x) (tid x \<in> set (task_queue ex)) (cur_of ex x) x w)"

lemma runtime_stream: "runtime_ok ex w \<Longrightarrow> stream_ok (tid x) (tid x \<in> set (task_queue ex)) (cur_of ex x) x w"
  unfolding runtime_ok_def by blast

lemma runtime_ready: "runtime_ok ex w \<Longrightarrow> tid x \<in> set (task_queue ex) \<Longrightarrow> stream_ok (tid x) True (cur_of ex x) x w"
  and runtime_parked: "runtime_ok ex w \<Longrightarrow> tid x \<notin> set (task_queue ex) \<Longrightarrow> stream_ok (tid x) False (cur_of ex x) x w"
  using runtime_stream [of ex w x] by simp_all

text \<open>Between two states no item is lost, and there is less to be resolved.\<close>

definition goes_on :: "'i app_task executor \<Rightarrow> 'i app_world \<Rightarrow> 'i app_task executor \<Rightarrow> 'i app_world \<Rightarrow> bool" where
  "goes_on ex w ex' w' \<longleftrightarrow> item_awaits w' = item_awaits w \<and>
     (\<forall>x. all_items (cur_of ex' x) x w' = all_items (cur_of ex x) x w \<and> awaits_left (cur_of ex' x) x w' \<le> awaits_left (cur_of ex x) x w)"

lemma goes_on_refl: "goes_on ex w ex w"
  by (simp add: goes_on_def)

lemma goes_on_trans: "goes_on ex w ex1 w1 \<Longrightarrow> goes_on ex1 w1 ex2 w2 \<Longrightarrow> goes_on ex w ex2 w2"
  unfolding goes_on_def by (metis le_trans)

lemma range_tid: "range tid = {0, 1, 2}"
proof -
  have "range tid = tid ` {Shell_stream, Gcoap_server_stream, Api_stream}"
    by (rule arg_cong [of _ _ "\<lambda>X. tid ` X"]) (auto intro: app_stream.exhaust)
  then show ?thesis by simp
qed

lemma runtime_queue: "runtime_ok ex w \<Longrightarrow> length (task_queue ex) \<le> 4"
proof -
  assume r: "runtime_ok ex w"
  then have "length (task_queue ex) = card (set (task_queue ex))" by (simp add: runtime_ok_def distinct_card)
  also have "\<dots> \<le> card (insert main_tid (range tid))" using r by (intro card_mono) (simp_all add: runtime_ok_def range_tid)
  also have "\<dots> \<le> 4" by (simp add: range_tid card_insert_if)
  finally show ?thesis .
qed

text \<open>A turn of the loop for the main task, and for the task of a stream.\<close>

lemma main_turn:
  assumes r: "runtime_ok ex w" and q: "task_queue ex = main_tid # q"
  shows "\<exists>ex'. ready_step poll_app (ex, w) = Some (ex', w) \<and> task_queue ex' = q \<and> runtime_ok ex' w \<and> (\<forall>x. cur_of ex' x = cur_of ex x)"
proof -
  have ok: "exec_ok (\<lambda>_. True) ex" using r by (simp add: runtime_ok_def)
  have "\<exists>ex'. ready_step poll_app (ex, w) = Some (ex', w) \<and> task_queue ex' = q \<and> (\<forall>x. tasks ex' (tid x) = tasks ex (tid x)) \<and>
      tasks ex' main_tid = None"
  proof (cases "tasks ex main_tid")
    case None
    with q show ?thesis by (simp add: ready_step_def)
  next
    case (Some f)
    with r have "f = Main_task" by (simp add: runtime_ok_def)
    with Some q show ?thesis by (auto simp: ready_step_def cached_waker_def Let_def split: option.split)
  qed
  then obtain ex' where s: "ready_step poll_app (ex, w) = Some (ex', w)" "task_queue ex' = q"
    "\<And>x. tasks ex' (tid x) = tasks ex (tid x)" "tasks ex' main_tid = None" by blast
  have "exec_ok (\<lambda>_. True) ex'" using exec_ok_step [OF s(1) ok] by (simp add: keeps_def)
  moreover have c: "cur_of ex' x = cur_of ex x" for x by (simp add: cur_of_def s(3))
  ultimately have "runtime_ok ex' w" using r q s(2-4) by (auto simp: runtime_ok_def)
  with s c show ?thesis by blast
qed

lemma stream_turn:
  assumes r: "runtime_ok ex w" and q: "task_queue ex = tid x # q"
  shows "\<exists>ex' cur' w'. ready_step poll_app (ex, w) = Some (ex', w') \<and> task_queue ex' = q \<and> runtime_ok ex' w' \<and>
    stream_poll (tid x) x (cur_of ex x) w = (cur', w') \<and> (\<forall>y. cur_of ex' y = (if y = x then cur' else cur_of ex y))"
proof -
  have ok: "exec_ok (\<lambda>_. True) ex" using r by (simp add: runtime_ok_def)
  obtain b where b: "tasks ex (tid x) = Some (Stream_task x b (cur_of ex x))" using r unfolding runtime_ok_def cur_of_def
    by (metis app_task.case(1) option.case(2))
  obtain cur' w' where p: "stream_poll (tid x) x (cur_of ex x) w = (cur', w')" by fastforce
  have f: "poll_app (tid x) (Stream_task x b (cur_of ex x)) w = Some (Pending, Stream_task x True cur', w', [])"
    using r p by (simp add: runtime_ok_def)
  obtain ex1 where c: "cached_waker (tid x) (ex\<lparr>task_queue := q\<rparr>) = (tid x, ex1)" "task_queue ex1 = q" "tasks ex1 = tasks ex"
    using ok by (cases "waker_cache ex (tid x)") (auto simp: cached_waker_def exec_ok_def)
  let ?ex = "ex1\<lparr>tasks := (tasks ex)(tid x \<mapsto> Stream_task x True cur')\<rparr>"
  have s: "ready_step poll_app (ex, w) = Some (?ex, w')"
    using q b c f by (simp add: ready_step_def del: poll_app.simps)
  have cur: "cur_of ?ex y = (if y = x then cur' else cur_of ex y)" for y by (simp add: cur_of_def)
  have o: "stream_ok (tid x) True (cur_of ex x) x w" using runtime_ready [OF r, of x] q by simp
  note k = stream_poll_ok [OF p o]
  have fresh: "tid x \<notin> set q" using r q by (simp add: runtime_ok_def)
  have "stream_ok (tid y) (tid y \<in> set (task_queue ?ex)) (cur_of ?ex y) y w'" for y
  proof (cases "y = x")
    case True
    with k fresh c show ?thesis by (simp add: cur)
  next
    case False
    then have "stream_ok (tid y) (tid y \<in> set q) (cur_of ex y) y w" using runtime_stream [OF r, of y] q by simp
    with False k c show ?thesis by (simp add: cur same_but_stream_ok [of x w w' y])
  qed
  moreover have "exec_ok (\<lambda>_. True) ?ex" using exec_ok_step [OF s ok] by (simp add: keeps_def)
  ultimately have "runtime_ok ?ex w'" using r q c k by (auto simp: runtime_ok_def same_but_def)
  with s c p cur show ?thesis by auto
qed

text \<open>A turn, and a pass: every ready task is polled, and nothing else is left in the queue.\<close>

lemma runtime_turn:
  assumes r: "runtime_ok ex w" and q: "task_queue ex = i # q"
  shows "\<exists>ex' w'. ready_step poll_app (ex, w) = Some (ex', w') \<and> task_queue ex' = q \<and> runtime_ok ex' w' \<and> goes_on ex w ex' w' \<and>
    (\<forall>x. tid x \<noteq> i \<longrightarrow> cur_of ex' x = cur_of ex x) \<and>
    (\<forall>x. tid x = i \<and> cur_of ex x \<noteq> None \<longrightarrow> awaits_left (cur_of ex' x) x w' < awaits_left (cur_of ex x) x w)"
proof (cases "i = main_tid")
  case True
  with main_turn [OF r, of q] q show ?thesis by (auto simp: goes_on_def)
next
  case False
  with r q obtain x where x: "i = tid x" by (auto simp: runtime_ok_def)
  from stream_turn [OF r, of x q] q x obtain ex' cur' w' where
    s: "ready_step poll_app (ex, w) = Some (ex', w')" "task_queue ex' = q" "runtime_ok ex' w'"
    and p: "stream_poll (tid x) x (cur_of ex x) w = (cur', w')" and c: "\<And>y. cur_of ex' y = (if y = x then cur' else cur_of ex y)"
    by auto
  have "stream_ok (tid x) True (cur_of ex x) x w" using runtime_ready [OF r, of x] q x by simp
  note k = stream_poll_ok [OF p this]
  have "all_items (cur_of ex' y) y w' = all_items (cur_of ex y) y w \<and> awaits_left (cur_of ex' y) y w' \<le> awaits_left (cur_of ex y) y w" for y
    using k by (cases "y = x") (auto simp: c same_but_all_items same_but_awaits_left split: if_splits)
  then have "goes_on ex w ex' w'" using k by (simp add: goes_on_def same_but_def)
  with s c x k show ?thesis by (auto split: if_splits)
qed

lemma runtime_pass:
  assumes "runtime_ok ex w"
  shows "\<exists>ex' w'. run_ready_tasks poll_app (ex, w) = Some (ex', w') \<and> task_queue ex' = [] \<and> runtime_ok ex' w' \<and> goes_on ex w ex' w' \<and>
    (\<forall>x. tid x \<in> set (task_queue ex) \<and> cur_of ex x \<noteq> None \<longrightarrow> awaits_left (cur_of ex' x) x w' < awaits_left (cur_of ex x) x w)"
  using assms
proof (induction "task_queue ex" arbitrary: ex w)
  case Nil
  then show ?case by (auto simp: pass_unfold goes_on_refl)
next
  case (Cons i q)
  from runtime_turn [OF Cons.prems Cons.hyps(2) [symmetric]] obtain ex1 w1 where
      t: "ready_step poll_app (ex, w) = Some (ex1, w1)" "task_queue ex1 = q" "runtime_ok ex1 w1" "goes_on ex w ex1 w1"
    and c: "\<And>x. tid x \<noteq> i \<Longrightarrow> cur_of ex1 x = cur_of ex x"
    and l: "\<And>x. tid x = i \<Longrightarrow> cur_of ex x \<noteq> None \<Longrightarrow> awaits_left (cur_of ex1 x) x w1 < awaits_left (cur_of ex x) x w"
    by blast
  from Cons.hyps(1) [OF t(2) [symmetric] t(3)] obtain ex2 w2 where
      r: "run_ready_tasks poll_app (ex1, w1) = Some (ex2, w2)" "task_queue ex2 = []" "runtime_ok ex2 w2" "goes_on ex1 w1 ex2 w2"
    and m: "\<And>x. tid x \<in> set q \<Longrightarrow> cur_of ex1 x \<noteq> None \<Longrightarrow> awaits_left (cur_of ex2 x) x w2 < awaits_left (cur_of ex1 x) x w1"
    using t(2) by blast
  have "awaits_left (cur_of ex2 x) x w2 < awaits_left (cur_of ex x) x w" if x: "tid x \<in> set (i # q)" "cur_of ex x \<noteq> None" for x
  proof (cases "tid x = i")
    case True
    with l x have "awaits_left (cur_of ex1 x) x w1 < awaits_left (cur_of ex x) x w" by blast
    moreover have "awaits_left (cur_of ex2 x) x w2 \<le> awaits_left (cur_of ex1 x) x w1" using r(4) by (simp add: goes_on_def)
    ultimately show ?thesis by linarith
  next
    case False
    with x c have "tid x \<in> set q" "cur_of ex1 x \<noteq> None" by simp_all
    from m [OF this] have "awaits_left (cur_of ex2 x) x w2 < awaits_left (cur_of ex1 x) x w1" .
    moreover have "awaits_left (cur_of ex1 x) x w1 \<le> awaits_left (cur_of ex x) x w" using t(4) by (simp add: goes_on_def)
    ultimately show ?thesis by linarith
  qed
  with r t(1) goes_on_trans [OF t(4) r(4)] Cons.hyps(2) [symmetric] show ?case by (auto simp: pass_unfold)
qed


text \<open>A callback puts the task it wakes into the queue; an item of a task that is ready or awaits wakes none.\<close>

lemma wake_runtime:
  assumes r: "runtime_ok ex w" and parked: "tid x \<notin> set (task_queue ex)" and w: "same_but x w w'"
    and ok: "stream_ok (tid x) True (cur_of ex x) x w'"
  shows "\<exists>ex'. wake_tasks [tid x] ex = Some ex' \<and> ex' = ex\<lparr>task_queue := task_queue ex @ [tid x]\<rparr> \<and> runtime_ok ex' w'"
proof -
  let ?ex = "ex\<lparr>task_queue := task_queue ex @ [tid x]\<rparr>"
  have wake: "wake_tasks [tid x] ex = Some ?ex"
    using runtime_queue [OF r] by (simp add: wake_task_def TASK_QUEUE_SIZE_def)
  have "exec_ok (\<lambda>_. True) ?ex" using exec_ok_wake [OF _ wake] r by (simp add: runtime_ok_def)
  moreover have "stream_ok (tid y) (tid y \<in> set (task_queue ?ex)) (cur_of ?ex y) y w'" for y
  proof (cases "y = x")
    case True
    with ok show ?thesis by (simp add: cur_of_def)
  next
    case False
    with r w show ?thesis by (simp add: cur_of_def same_but_stream_ok runtime_ok_def)
  qed
  ultimately have "runtime_ok ?ex w'" using r parked w by (auto simp: runtime_ok_def same_but_def)
  with wake show ?thesis by simp
qed

lemma runtime_add:
  assumes r: "runtime_ok ex w"
  shows "exec_event poll_app app_callback (Callback (Add_item x item)) (ex, w) \<noteq> None \<longleftrightarrow>
      length (stream_items w x) < stream_size x - 1"
    and "exec_event poll_app app_callback (Callback (Add_item x item)) (ex, w) = Some (ex', w') \<Longrightarrow>
      runtime_ok ex' w' \<and> item_awaits w' = item_awaits w \<and> (\<forall>y. cur_of ex' y = cur_of ex y \<and>
        all_items (cur_of ex' y) y w' = all_items (cur_of ex y) y w @ (if y = x then [item] else []) \<and>
        awaits_left (cur_of ex' y) y w' = awaits_left (cur_of ex y) y w + (if y = x then item_awaits w item else 0))"
proof -
  let ?w = "w\<lparr>stream_items := (stream_items w)(x := stream_items w x @ [item]), stream_waker := (stream_waker w)(x := None)\<rparr>"
  have other: "same_but x w ?w" by (simp add: same_but_def)
  have "\<exists>ex1. wake_tasks (waking (stream_waker w x)) ex = Some ex1 \<and> tasks ex1 = tasks ex \<and> runtime_ok ex1 ?w"
  proof (cases "tid x \<notin> set (task_queue ex) \<and> cur_of ex x = None")
    case True
    with runtime_parked [OF r, of x] have k: "stream_waker w x = Some (tid x)" "inner_waker w x = None" "\<not> inner_resolved w x"
      by (simp_all add: stream_ok_def)
    then have "stream_ok (tid x) True (cur_of ex x) x ?w" using True by (simp add: stream_ok_def)
    from wake_runtime [OF r _ other this] True k show ?thesis by (auto simp: waking_def)
  next
    case False
    have o: "stream_ok (tid x) (tid x \<in> set (task_queue ex)) (cur_of ex x) x w" using r by (simp add: runtime_ok_def)
    with False have k: "stream_waker w x = None" by (auto simp: stream_ok_def split: if_splits)
    then have "stream_ok (tid x) (tid x \<in> set (task_queue ex)) (cur_of ex x) x ?w" using o False by (auto simp: stream_ok_def)
    moreover have "stream_ok (tid y) (tid y \<in> set (task_queue ex)) (cur_of ex y) y ?w" if "y \<noteq> x" for y
      using r that same_but_stream_ok [OF other] by (simp add: runtime_ok_def)
    ultimately have "stream_ok (tid y) (tid y \<in> set (task_queue ex)) (cur_of ex y) y ?w" for y by (cases "y = x") auto
    then have "runtime_ok ex ?w" using r by (simp add: runtime_ok_def)
    with k show ?thesis by (simp add: waking_def)
  qed
  then obtain ex1 where wake: "wake_tasks (waking (stream_waker w x)) ex = Some ex1" and ex1: "tasks ex1 = tasks ex" "runtime_ok ex1 ?w"
    by blast
  show "exec_event poll_app app_callback (Callback (Add_item x item)) (ex, w) \<noteq> None \<longleftrightarrow>
      length (stream_items w x) < stream_size x - 1"
    using wake by (simp add: add_item_def xs_add_def)
  assume "exec_event poll_app app_callback (Callback (Add_item x item)) (ex, w) = Some (ex', w')"
  with wake have e: "ex' = ex1" "w' = ?w" by (auto simp: add_item_def xs_add_def bind_eq_Some_conv split: if_splits)
  have "cur_of ex' y = cur_of ex y" for y by (simp add: cur_of_def e ex1(1))
  then show "runtime_ok ex' w' \<and> item_awaits w' = item_awaits w \<and> (\<forall>y. cur_of ex' y = cur_of ex y \<and>
        all_items (cur_of ex' y) y w' = all_items (cur_of ex y) y w @ (if y = x then [item] else []) \<and>
        awaits_left (cur_of ex' y) y w' = awaits_left (cur_of ex y) y w + (if y = x then item_awaits w item else 0))"
    using ex1(2) by (simp add: e all_items_def awaits_left_def)
qed

lemma runtime_resolve:
  assumes r: "runtime_ok ex w"
  shows "exec_event poll_app app_callback (Callback (Resolve x)) (ex, w) \<noteq> None \<longleftrightarrow>
      tid x \<notin> set (task_queue ex) \<and> cur_of ex x \<noteq> None"
    and "exec_event poll_app app_callback (Callback (Resolve x)) (ex, w) = Some (ex', w') \<Longrightarrow>
      runtime_ok ex' w' \<and> item_awaits w' = item_awaits w \<and> tid x \<in> set (task_queue ex') \<and> (\<forall>y. cur_of ex' y = cur_of ex y \<and>
        all_items (cur_of ex' y) y w' = all_items (cur_of ex y) y w \<and> awaits_left (cur_of ex' y) y w' = awaits_left (cur_of ex y) y w)"
proof -
  let ?w = "w\<lparr>inner_waker := (inner_waker w)(x := None), inner_resolved := (inner_resolved w)(x := True)\<rparr>"
  let ?ev = "exec_event poll_app app_callback (Callback (Resolve x)) (ex, w)"
  have other: "same_but x w ?w" by (simp add: same_but_def)
  have o: "stream_ok (tid x) (tid x \<in> set (task_queue ex)) (cur_of ex x) x w" using r by (simp add: runtime_ok_def)
  have "if tid x \<notin> set (task_queue ex) \<and> cur_of ex x \<noteq> None
    then \<exists>ex1. ?ev = Some (ex1, ?w) \<and> tasks ex1 = tasks ex \<and> runtime_ok ex1 ?w \<and> tid x \<in> set (task_queue ex1) else ?ev = None"
  proof (cases "tid x \<notin> set (task_queue ex) \<and> cur_of ex x \<noteq> None")
    case True
    with o have k: "inner_waker w x = Some (tid x)" "stream_waker w x = None" by (auto simp: stream_ok_def)
    have "stream_ok (tid x) True (cur_of ex x) x ?w" using o True k by (simp add: stream_ok_def)
    from wake_runtime [OF r _ other this] True k show ?thesis by auto
  next
    case False
    with o have "inner_waker w x = None" by (auto simp: stream_ok_def split: if_splits)
    with False show ?thesis by simp
  qed
  note ev = this
  then show "?ev \<noteq> None \<longleftrightarrow> tid x \<notin> set (task_queue ex) \<and> cur_of ex x \<noteq> None" by (auto split: if_splits)
  assume "?ev = Some (ex', w')"
  with ev have e: "w' = ?w" "tasks ex' = tasks ex" "runtime_ok ex' ?w" "tid x \<in> set (task_queue ex')" by (auto split: if_splits)
  have "cur_of ex' y = cur_of ex y" for y by (simp add: cur_of_def e(2))
  then show "runtime_ok ex' w' \<and> item_awaits w' = item_awaits w \<and> tid x \<in> set (task_queue ex') \<and> (\<forall>y. cur_of ex' y = cur_of ex y \<and>
        all_items (cur_of ex' y) y w' = all_items (cur_of ex y) y w \<and> awaits_left (cur_of ex' y) y w' = awaits_left (cur_of ex y) y w)"
    using e by (simp add: all_items_def awaits_left_def)
qed

lemma runtime_start:
  fixes awaits :: "'i \<Rightarrow> nat"
  shows "\<exists>ex. runtime_new \<bind> block_on Main_task = Some ex \<and> runtime_ok ex (world_new (\<lambda>_. 0) awaits) \<and>
     task_queue ex = [0, 1, 2, 3] \<and> (\<forall>x. cur_of ex x = None)"
proof -
  let ?ex = "\<lparr>next_id = 4, tasks = [0 \<mapsto> Stream_task Shell_stream False None, 1 \<mapsto> Stream_task Gcoap_server_stream False None,
    2 \<mapsto> Stream_task Api_stream False None, 3 \<mapsto> Main_task], task_queue = [0, 1, 2, 3], waker_cache = Map.empty\<rparr> ::
    'i app_task executor"
  have "runtime_new \<bind> block_on Main_task = Some ?ex"
    by (simp add: runtime_new_def block_on_def spawn_def task_new_def wake_task_def executor_new_def TASK_QUEUE_SIZE_def)
  moreover have "exec_ok (\<lambda>_. True) ?ex" by (simp add: exec_ok_def TASK_QUEUE_SIZE_def)
  moreover have "tasks ?ex (tid x) = Some (Stream_task x False None)" for x by (cases x) simp_all
  moreover have "tasks ?ex main_tid = Some Main_task" "task_queue ?ex = [0, 1, 2, 3]" by simp_all
  ultimately obtain ex :: "'i app_task executor" where ex: "runtime_new \<bind> block_on Main_task = Some ex" "exec_ok (\<lambda>_. True) ex"
    "\<And>x. tasks ex (tid x) = Some (Stream_task x False None)" "tasks ex main_tid = Some Main_task" "task_queue ex = [0, 1, 2, 3]"
    by blast
  then have c: "cur_of ex x = None" for x by (simp add: cur_of_def)
  have t: "tid x \<in> {0, 1, 2, 3}" for x by (cases x) simp_all
  have "runtime_ok ex (world_new (\<lambda>_. 0) awaits)"
    using ex t by (auto simp: runtime_ok_def c range_tid world_new_def stream_ok_def)
  with ex(1,5) c show ?thesis by blast
qed

text \<open>What the callbacks of a history add to a stream.\<close>

fun added :: "app_stream \<Rightarrow> 'i app_event exec_ev list \<Rightarrow> 'i list" where
  "added x [] = []"
| "added x (Callback (Add_item y item) # es) = (if y = x then item # added x es else added x es)"
| "added x (_ # es) = added x es"

lemma runtime_run:
  assumes "run_steps (exec_event poll_app app_callback) es (ex, w) = Some (ex', w')" and "runtime_ok ex w"
  shows "runtime_ok ex' w' \<and> item_awaits w' = item_awaits w \<and>
    (\<forall>x. all_items (cur_of ex' x) x w' = all_items (cur_of ex x) x w @ added x es \<and>
       awaits_left (cur_of ex' x) x w' \<le> awaits_left (cur_of ex x) x w + sum_list (map (item_awaits w) (added x es)))"
  using assms
proof (induction es arbitrary: ex w)
  case Nil
  then show ?case by simp
next
  case (Cons e es)
  from Cons.prems(1) obtain ex1 w1 where e: "exec_event poll_app app_callback e (ex, w) = Some (ex1, w1)"
    and rest: "run_steps (exec_event poll_app app_callback) es (ex1, w1) = Some (ex', w')"
    by (auto split: option.splits)
  have step: "runtime_ok ex1 w1 \<and> item_awaits w1 = item_awaits w \<and>
    (\<forall>x. all_items (cur_of ex1 x) x w1 = all_items (cur_of ex x) x w @ added x [e] \<and>
       awaits_left (cur_of ex1 x) x w1 \<le> awaits_left (cur_of ex x) x w + sum_list (map (item_awaits w) (added x [e])))"
  proof (cases e)
    case Pass
    with e runtime_pass [OF Cons.prems(2)] show ?thesis by (auto simp: goes_on_def)
  next
    case (Callback c)
    show ?thesis
    proof (cases c)
      case (Add_item y item)
      with e Callback have "exec_event poll_app app_callback (Callback (Add_item y item)) (ex, w) = Some (ex1, w1)" by simp
      note f = runtime_add(2) [OF Cons.prems(2) this]
      then have "all_items (cur_of ex1 x) x w1 = all_items (cur_of ex x) x w @ (if x = y then [item] else [])"
        and "awaits_left (cur_of ex1 x) x w1 = awaits_left (cur_of ex x) x w + (if x = y then item_awaits w item else 0)" for x
        by blast+
      with f show ?thesis by (simp add: Callback Add_item)
    next
      case (Resolve y)
      with e Callback have "exec_event poll_app app_callback (Callback (Resolve y)) (ex, w) = Some (ex1, w1)" by simp
      note f = runtime_resolve(2) [OF Cons.prems(2) this]
      then have "all_items (cur_of ex1 x) x w1 = all_items (cur_of ex x) x w"
        and "awaits_left (cur_of ex1 x) x w1 = awaits_left (cur_of ex x) x w" for x
        by blast+
      with f show ?thesis by (simp add: Callback Resolve)
    qed
  qed
  have "added x (e # es) = added x [e] @ added x es" for x
    by (cases "(x, e # es)" rule: added.cases) auto
  moreover have "awaits_left (cur_of ex' x) x w' \<le> awaits_left (cur_of ex x) x w +
      sum_list (map (item_awaits w) (added x [e])) + sum_list (map (item_awaits w) (added x es))" for x
    using step Cons.IH [OF rest] by (metis add_right_mono le_trans)
  ultimately show ?case using step Cons.IH [OF rest] by (simp add: add.assoc)
qed

text \<open>When what a task awaits is resolved as often as it has to be, its stream is handled.\<close>

lemma runtime_finishes:
  assumes "runtime_ok ex w" and "task_queue ex = []"
  shows "\<exists>k \<le> awaits_left (cur_of ex x) x w. \<exists>ex' w'.
    run_steps (exec_event poll_app app_callback) (concat (replicate k [Callback (Resolve x), Pass])) (ex, w) = Some (ex', w') \<and>
    handled_items w' x = all_items (cur_of ex x) x w"
  using assms
proof (induction "awaits_left (cur_of ex x) x w" arbitrary: ex w rule: less_induct)
  case less
  show ?case
  proof (cases "cur_of ex x")
    case None
    with runtime_parked [OF less.prems(1), of x] less.prems(2) have "handled_items w x = all_items (cur_of ex x) x w"
      by (simp add: stream_ok_def all_items_def)
    then have "run_steps (exec_event poll_app app_callback) (concat (replicate 0 [Callback (Resolve x), Pass])) (ex, w) = Some (ex, w) \<and>
      handled_items w x = all_items (cur_of ex x) x w" by simp
    then show ?thesis by blast
  next
    case (Some c)
    with runtime_resolve(1) [OF less.prems(1), of x] less.prems(2) obtain ex1 w1 where
      e: "exec_event poll_app app_callback (Callback (Resolve x)) (ex, w) = Some (ex1, w1)" by fastforce
    note r = runtime_resolve(2) [OF less.prems(1) e]
    then have r1: "runtime_ok ex1 w1" "tid x \<in> set (task_queue ex1)" "cur_of ex1 x = cur_of ex x"
      "all_items (cur_of ex1 x) x w1 = all_items (cur_of ex x) x w" "awaits_left (cur_of ex1 x) x w1 = awaits_left (cur_of ex x) x w"
      by blast+
    from runtime_pass [OF r1(1)] obtain ex2 w2 where p: "run_ready_tasks poll_app (ex1, w1) = Some (ex2, w2)" "task_queue ex2 = []"
      "runtime_ok ex2 w2" "goes_on ex1 w1 ex2 w2" "awaits_left (cur_of ex2 x) x w2 < awaits_left (cur_of ex1 x) x w1"
      using r1(2,3) Some by auto
    with r1(5) have lt: "awaits_left (cur_of ex2 x) x w2 < awaits_left (cur_of ex x) x w" by simp
    from less.hyps [OF lt p(3,2)] obtain k ex3 w3 where k: "k \<le> awaits_left (cur_of ex2 x) x w2"
      "run_steps (exec_event poll_app app_callback) (concat (replicate k [Callback (Resolve x), Pass])) (ex2, w2) = Some (ex3, w3)"
      "handled_items w3 x = all_items (cur_of ex2 x) x w2" by blast
    have "run_steps (exec_event poll_app app_callback) (concat (replicate (Suc k) [Callback (Resolve x), Pass])) (ex, w) = Some (ex3, w3)"
      using e p(1) k(2) by (simp del: exec_event.simps(2))
    moreover have "handled_items w3 x = all_items (cur_of ex x) x w" using k(3) p(4) r1(4) by (simp add: goes_on_def)
    moreover have "Suc k \<le> awaits_left (cur_of ex x) x w" using k(1) lt by linarith
    ultimately show ?thesis by blast
  qed
qed

text \<open>
  C8: In every history of the executor \<^verbatim>\<open>Executor::run\<close> with the tasks of the firmware, its queue of 100 task
  identifiers holds at most the four tasks, and a callback fails to add an item exactly if it finds the stream
  full. The next pass ends. It leaves of the items that callbacks have added to a stream, in their order,
  those the task has handled, the one whose handling awaits something, and after it those that wait in the
  stream; none waits unless one awaits. As soon as what is awaited has been resolved often enough, all are handled.
\<close>

theorem runtime_delivers:
  assumes "runtime_new \<bind> block_on Main_task = Some ex0"
    and "run_steps (exec_event poll_app app_callback) es (ex0, world_new (\<lambda>_. 0) awaits) = Some (ex, w)"
  shows "length (task_queue ex) \<le> 4 \<and>
    (\<forall>x item. exec_event poll_app app_callback (Callback (Add_item x item)) (ex, w) = None \<longleftrightarrow>
       stream_size x \<le> length (stream_items w x) + 1) \<and>
    (\<exists>ex' w'. exec_event poll_app app_callback Pass (ex, w) = Some (ex', w') \<and> task_queue ex' = [] \<and>
       (\<forall>x. handled_items w' x @ in_hand (cur_of ex' x) @ stream_items w' x = added x es \<and>
          (in_hand (cur_of ex' x) = [] \<longrightarrow> stream_items w' x = []) \<and>
          (\<exists>k \<le> sum_list (map awaits (added x es)). \<exists>ex'' w''.
             run_steps (exec_event poll_app app_callback) (concat (replicate k [Callback (Resolve x), Pass])) (ex', w') = Some (ex'', w'') \<and>
             handled_items w'' x = added x es)))"
proof -
  from runtime_start [of awaits] assms(1) have s: "runtime_ok ex0 (world_new (\<lambda>_. 0) awaits)" "\<And>x. cur_of ex0 x = None" by auto
  have none: "all_items None x (world_new (\<lambda>_. 0) awaits) = []" "awaits_left None x (world_new (\<lambda>_. 0) awaits) = 0"
    "item_awaits (world_new (\<lambda>_. 0) awaits) = awaits" for x
    by (simp_all add: all_items_def awaits_left_def world_new_def)
  from runtime_run [OF assms(2) s(1), unfolded s(2) none] have ok: "runtime_ok ex w"
    and items: "\<And>x. all_items (cur_of ex x) x w = added x es"
    and left: "\<And>x. awaits_left (cur_of ex x) x w \<le> sum_list (map awaits (added x es))" by simp_all
  from runtime_pass [OF ok] obtain ex' w' where p: "run_ready_tasks poll_app (ex, w) = Some (ex', w')" "task_queue ex' = []"
    "runtime_ok ex' w'" "goes_on ex w ex' w'" by blast
  have "all_items (cur_of ex' x) x w' = added x es \<and> (in_hand (cur_of ex' x) = [] \<longrightarrow> stream_items w' x = []) \<and>
      (\<exists>k \<le> sum_list (map awaits (added x es)). \<exists>ex'' w''.
         run_steps (exec_event poll_app app_callback) (concat (replicate k [Callback (Resolve x), Pass])) (ex', w') = Some (ex'', w'') \<and>
         handled_items w'' x = added x es)" for x
  proof -
    have i: "all_items (cur_of ex' x) x w' = added x es" using p(4) items by (simp add: goes_on_def)
    have "awaits_left (cur_of ex' x) x w' \<le> sum_list (map awaits (added x es))"
      using p(4) left [of x] unfolding goes_on_def by (meson le_trans)
    with runtime_finishes [OF p(3,2), of x] i have "\<exists>k \<le> sum_list (map awaits (added x es)). \<exists>ex'' w''.
         run_steps (exec_event poll_app app_callback) (concat (replicate k [Callback (Resolve x), Pass])) (ex', w') = Some (ex'', w'') \<and>
         handled_items w'' x = added x es" by (metis le_trans)
    moreover have "in_hand (cur_of ex' x) = [] \<longrightarrow> stream_items w' x = []"
      using runtime_parked [OF p(3), of x] p(2) by (auto simp: stream_ok_def in_hand_def split: option.splits)
    ultimately show ?thesis using i by blast
  qed
  moreover have "\<forall>x item. exec_event poll_app app_callback (Callback (Add_item x item)) (ex, w) = None \<longleftrightarrow>
      stream_size x \<le> length (stream_items w x) + 1"
    using runtime_add(1) [OF ok] by (metis less_diff_conv not_le)
  ultimately show ?thesis using runtime_queue [OF ok] p(1,2) unfolding all_items_def by auto
qed

theorem runtime_delivers_witness:
  "\<exists>ex0 ex w ex' w'. runtime_new \<bind> block_on Main_task = Some ex0 \<and>
     run_steps (exec_event poll_app app_callback)
       [Callback (Add_item Shell_stream 7), Pass, Callback (Add_item Shell_stream (8 :: nat)), Callback (Resolve Shell_stream)]
       (ex0, world_new (\<lambda>_. 0) (\<lambda>i. if i = 7 then 1 else 0)) = Some (ex, w) \<and>
     task_queue ex = [0] \<and> run_ready_tasks poll_app (ex, w) = Some (ex', w') \<and>
     handled_items w' Shell_stream @ in_hand (cur_of ex' Shell_stream) @ stream_items w' Shell_stream = [7, 8]"
proof -
  let ?es = "[Callback (Add_item Shell_stream 7), Pass, Callback (Add_item Shell_stream (8 :: nat)), Callback (Resolve Shell_stream)]"
  let ?w0 = "world_new (\<lambda>_. 0) (\<lambda>i. if i = 7 then 1 else 0) :: nat app_world"
  obtain ex0 where s: "runtime_new \<bind> block_on Main_task = Some (ex0 :: nat app_task executor)"
    by (rule exE [OF runtime_start]) blast
  have "\<exists>ex w. run_steps (exec_event poll_app app_callback) ?es (ex0, ?w0) = Some (ex, w) \<and> task_queue ex = [0]"
    using s [symmetric]
    by (auto simp: runtime_new_def block_on_def spawn_def task_new_def wake_task_def executor_new_def TASK_QUEUE_SIZE_def
      add_item_def world_new_def xs_add_def stream_size_def SHELL_STREAM_SIZE_def pass_unfold ready_step_def cached_waker_def
      stream_poll_def stream_loop_def take_items_unfold waking_def)
  then obtain ex w where r: "run_steps (exec_event poll_app app_callback) ?es (ex0, ?w0) = Some (ex, w)"
    and q: "task_queue ex = [0]" by blast
  from runtime_delivers [OF s r] obtain ex' w' where "run_ready_tasks poll_app (ex, w) = Some (ex', w')"
    "handled_items w' Shell_stream @ in_hand (cur_of ex' Shell_stream) @ stream_items w' Shell_stream = [7, 8]" by auto
  with s r q show ?thesis by blast
qed

section \<open>Well-formed executors\<close>

text \<open>\<^verbatim>\<open>spawn\<close> for each of the futures, as in the chain of calls of \<^verbatim>\<open>Runtime::new\<close>.\<close>

fun spawn_all :: "'f list \<Rightarrow> 'f executor \<Rightarrow> 'f executor option" where
  "spawn_all [] ex = Some ex"
| "spawn_all (f # fs) ex = spawn f ex \<bind> spawn_all fs"

lemma spawn_all_ok:
  "spawn_all fs ex = Some ex' \<Longrightarrow> exec_ok P ex \<Longrightarrow> (\<And>f. f \<in> set fs \<Longrightarrow> P f) \<Longrightarrow>
     exec_ok P ex' \<and> length (task_queue ex') = length (task_queue ex) + length fs"
proof (induction fs arbitrary: ex)
  case Nil
  then show ?case by simp
next
  case (Cons f fs)
  then obtain ex1 where s: "spawn f ex = Some ex1" "spawn_all fs ex1 = Some ex'" by (auto simp: bind_eq_Some_conv)
  have "exec_ok P ex1" using exec_ok_spawn [OF Cons.prems(2) _ s(1)] Cons.prems(3) by simp
  moreover have "length (task_queue ex1) = Suc (length (task_queue ex))"
    using s(1) by (auto simp: spawn_def task_new_def wake_task_def split: if_splits)
  ultimately show ?case using Cons.IH [OF s(2)] Cons.prems(3) by simp
qed

text \<open>No step but \<^verbatim>\<open>spawn\<close> makes a task.\<close>

lemma dom_pass:
  assumes "run_ready_tasks future s = Some t" and "exec_ok (\<lambda>_. True) (fst s)"
  shows "dom (tasks (fst t)) \<subseteq> dom (tasks (fst s))"
  using assms
proof (induction rule: pass_induct)
  case (stop s)
  then show ?case by simp
next
  case (turn s u t)
  obtain ex1 w1 ex2 w2 where s: "s = (ex1, w1)" "u = (ex2, w2)" by fastforce
  with turn obtain i q where q: "task_queue ex1 = i # q" and st: "ready_step future (ex1, w1) = Some (ex2, w2)"
    by (auto simp: neq_Nil_conv)
  have ok: "exec_ok (\<lambda>_. True) ex1" using turn(4) s by simp
  have "dom (tasks ex2) \<subseteq> dom (tasks ex1)"
    using st q ok by (cases rule: ready_step_cases) auto
  moreover have "exec_ok (\<lambda>_. True) ex2" using exec_ok_step [OF st ok] by (simp add: keeps_def)
  ultimately show ?case using turn(3) s by auto
qed

lemma dom_event:
  assumes "exec_event future cb e s = Some t" and "exec_ok (\<lambda>_. True) (fst s)"
  shows "dom (tasks (fst t)) \<subseteq> dom (tasks (fst s))"
  using assms by (cases e) (auto simp: bind_eq_Some_conv wake_tasks_Some dest: dom_pass)

lemma exec_ok_weaken: "exec_ok P ex \<Longrightarrow> exec_ok (\<lambda>_. True) ex"
  by (simp add: exec_ok_def)

lemma exec_ok_run:
  "run_steps (exec_event future cb) es s = Some t \<Longrightarrow> keeps future P \<Longrightarrow> exec_ok P (fst s) \<Longrightarrow>
     exec_ok P (fst t) \<and> dom (tasks (fst t)) \<subseteq> dom (tasks (fst s))"
proof (induction es arbitrary: s)
  case Nil
  then show ?case by simp
next
  case (Cons e es)
  then obtain u where e: "exec_event future cb e s = Some u" "run_steps (exec_event future cb) es u = Some t"
    by (auto split: option.splits)
  from exec_ok_event [OF e(1) Cons.prems(3,2)] Cons.IH [OF e(2) Cons.prems(2)]
    dom_event [OF e(1) exec_ok_weaken [OF Cons.prems(3)]] show ?case by blast
qed

text \<open>
  C29: Whatever the futures do and however passes and callbacks follow one another, the executor stays well-formed:
  the queue of ready tasks within its 100 places, a cached waker only for a task that is there, each waking
  its own task, no task that was not spawned, and in the table of tasks only futures of the type \<open>P\<close>, which
  those spawned have and a poll that is pending keeps.
\<close>

theorem executor_well_formed:
  assumes "keeps future P" and "spawn_all fs (executor_new n) = Some ex0" and "\<forall>f \<in> set fs. P f"
    and "run_steps (exec_event future cb) es (ex0, w0) = Some (ex, w)"
  shows "length (task_queue ex) \<le> TASK_QUEUE_SIZE \<and> dom (waker_cache ex) \<subseteq> dom (tasks ex) \<and>
    (\<forall>i j. waker_cache ex i = Some j \<longrightarrow> j = i) \<and> dom (tasks ex) \<subseteq> dom (tasks ex0) \<and> ran (tasks ex) \<subseteq> {f. P f}"
proof -
  have "exec_ok P ex0" using spawn_all_ok [OF assms(2) exec_ok_new] assms(3) by blast
  with exec_ok_run [OF assms(4,1)] have "exec_ok P ex" "dom (tasks ex) \<subseteq> dom (tasks ex0)" by simp_all
  then show ?thesis by (auto simp: exec_ok_def ran_def)
qed

theorem executor_well_formed_witness:
  "\<exists>ex0 ex w. spawn_all [Stream_task Api_stream False None] (executor_new 0) = Some ex0 \<and>
     run_steps (exec_event poll_app app_callback) [Callback (Add_item Api_stream (7 :: nat)), Pass] (ex0, world_new (\<lambda>_. 0) (\<lambda>_. 0)) = Some (ex, w) \<and>
     dom (waker_cache ex) \<noteq> {} \<and> ran (tasks ex) \<subseteq> {f. f \<noteq> Main_task}"
proof -
  let ?es = "[Callback (Add_item Api_stream (7 :: nat)), Pass]"
  let ?w0 = "world_new (\<lambda>_. 0) (\<lambda>_. 0) :: nat app_world"
  have k: "keeps (poll_app :: (nat app_task, nat app_world) future) (\<lambda>f. f \<noteq> Main_task)"
    unfolding keeps_def by (auto elim!: poll_app.elims simp: Let_def split: if_splits prod.splits)
  have "\<exists>ex0. spawn_all [Stream_task Api_stream False None] (executor_new 0) = Some ex0"
    by (simp add: spawn_def task_new_def wake_task_def executor_new_def TASK_QUEUE_SIZE_def)
  then obtain ex0 :: "nat app_task executor" where s: "spawn_all [Stream_task Api_stream False None] (executor_new 0) = Some ex0"
    by blast
  have "\<exists>ex w. run_steps (exec_event poll_app app_callback) ?es (ex0, ?w0) = Some (ex, w) \<and> dom (waker_cache ex) \<noteq> {}"
    using s [symmetric]
    by (auto simp: spawn_def task_new_def wake_task_def executor_new_def TASK_QUEUE_SIZE_def
      add_item_def world_new_def xs_add_def stream_size_def API_STREAM_SIZE_def pass_unfold ready_step_def cached_waker_def
      stream_poll_def stream_loop_def take_items_unfold waking_def)
  then obtain ex w where r: "run_steps (exec_event poll_app app_callback) ?es (ex0, ?w0) = Some (ex, w)"
    and c: "dom (waker_cache ex) \<noteq> {}" by blast
  from executor_well_formed [OF k s _ r] have "ran (tasks ex) \<subseteq> {f. f \<noteq> Main_task}" by simp
  with s r c show ?thesis by blast
qed

section \<open>The simple executor returns\<close>

text \<open>\<open>polls\<close> is the number of polls a future needs before it is ready, which may be infinite.\<close>

definition needs_polls :: "('f, 'w) future \<Rightarrow> ('f \<Rightarrow> enat) \<Rightarrow> bool" where
  "needs_polls future polls \<longleftrightarrow> (\<forall>f w. \<exists>r f' w' woken. future 0 f w = Some (r, f', w', woken) \<and>
     (case r of Ready _ \<Rightarrow> polls f = 1 | Pending \<Rightarrow> polls f = eSuc (polls f') \<and> polls f' \<noteq> 0))"

lemma needs_polls_cases:
  assumes "needs_polls future polls"
  obtains (ready) x f' w' woken where "future 0 f w = Some (Ready x, f', w', woken)" "polls f = 1"
  | (pending) f' w' woken where "future 0 f w = Some (Pending, f', w', woken)" "polls f = eSuc (polls f')" "polls f' \<noteq> 0"
proof -
  from assms obtain r f' w' woken where f: "future 0 f w = Some (r, f', w', woken)"
    and c: "case r of Ready _ \<Rightarrow> polls f = 1 | Pending \<Rightarrow> polls f = eSuc (polls f') \<and> polls f' \<noteq> 0"
    unfolding needs_polls_def by blast
  show ?thesis
  proof (cases r)
    case (Ready x)
    with f c ready show ?thesis by simp
  next
    case Pending
    with f c pending show ?thesis by simp
  qed
qed

lemma simple_run_unfold:
  "simple_run future [] w = Some (0, w)"
  "simple_run future ((i, f) # q) w = do {
     (r, f, w, _) \<leftarrow> future 0 f w;
     (n, w) \<leftarrow> (case r of Ready _ \<Rightarrow> simple_run future q w | Pending \<Rightarrow> simple_run future (q @ [(i, f)]) w);
     Some (Suc n, w) }"
  by (subst simple_run.simps, simp)+

lemma simple_run_needs:
  assumes "simple_run future q w = Some (n, w')" and "needs_polls future polls"
  shows "enat n = (\<Sum>(i, f) \<leftarrow> q. polls f)"
proof -
  have "g = future \<longrightarrow> enat (fst r) = (\<Sum>(i, f) \<leftarrow> q. polls f)" if "simple_run g q w = Some r" for g q w r
  proof (rule simple_run.raw_induct [where P = "\<lambda>g q w r. g = future \<longrightarrow> enat (fst r) = (\<Sum>(i, f) \<leftarrow> q. polls f)", OF _ that],
      rule impI)
    fix rec g q w r
    assume IH: "\<And>g q w r. rec g q w = Some r \<Longrightarrow> g = future \<longrightarrow> enat (fst r) = (\<Sum>(i, f) \<leftarrow> q. polls f)"
      and body: "(case q of [] \<Rightarrow> Some (0, w) | (i, f) # q \<Rightarrow> do {
          (r, f, w, _) \<leftarrow> g 0 f w;
          (n, w) \<leftarrow> (case r of Ready _ \<Rightarrow> rec g q w | Pending \<Rightarrow> rec g (q @ [(i, f)]) w);
          Some (Suc n, w) }) = Some r"
      and g: "g = future"
    show "enat (fst r) = (\<Sum>(i, f) \<leftarrow> q. polls f)"
    proof (cases q)
      case Nil
      with body show ?thesis by (auto simp: zero_enat_def)
    next
      case (Cons p rest)
      obtain i f where p: "p = (i, f)" by fastforce
      from assms(2) show ?thesis
      proof (cases rule: needs_polls_cases [where f = f and w = w])
        case (ready x f1 w1 woken)
        with body g Cons p obtain r' where "rec future rest w1 = Some r'" "fst r = Suc (fst r')"
          by (auto simp: bind_eq_Some_conv)
        with IH [of future rest w1 r'] ready Cons p show ?thesis by (simp add: eSuc_enat [symmetric] eSuc_plus_1 add.commute)
      next
        case (pending f1 w1 woken)
        with body g Cons p obtain r' where "rec future (rest @ [(i, f1)]) w1 = Some r'" "fst r = Suc (fst r')"
          by (auto simp: bind_eq_Some_conv)
        with IH [of future "rest @ [(i, f1)]" w1 r'] pending Cons p show ?thesis
          by (simp add: eSuc_enat [symmetric] eSuc_plus_1 ac_simps)
      qed
    qed
  qed
  from this [OF assms(1)] show ?thesis by simp
qed

lemma simple_run_returns_if:
  assumes "needs_polls future polls" and "(\<Sum>(i, f) \<leftarrow> q. polls f) = enat n"
  shows "\<exists>w'. simple_run future q w = Some (n, w')"
  using assms(2)
proof (induction n arbitrary: q w)
  case 0
  have "q = []"
  proof (cases q)
    case (Cons p rest)
    obtain i f where p: "p = (i, f)" by fastforce
    have "polls f \<noteq> 0" by (cases rule: needs_polls_cases [OF assms(1), of f w]) simp_all
    with 0 Cons p show ?thesis by (simp add: zero_enat_def [symmetric])
  qed simp
  then show ?case by (simp add: simple_run_unfold)
next
  case (Suc n)
  show ?case
  proof (cases q)
    case Nil
    with Suc.prems show ?thesis by (simp add: zero_enat_def)
  next
    case (Cons p rest)
    obtain i f where p: "p = (i, f)" by fastforce
    from assms(1) show ?thesis
    proof (cases rule: needs_polls_cases [where f = f and w = w])
      case (ready x f1 w1 woken)
      with Suc.prems Cons p have "eSuc (\<Sum>(i, f) \<leftarrow> rest. polls f) = eSuc (enat n)"
        by (simp add: eSuc_enat [symmetric] eSuc_plus_1 add.commute)
      then have "(\<Sum>(i, f) \<leftarrow> rest. polls f) = enat n" by (simp only: eSuc_inject)
      from Suc.IH [OF this, of w1] ready Cons p show ?thesis by (auto simp: simple_run_unfold)
    next
      case (pending f1 w1 woken)
      with Suc.prems Cons p have "eSuc (\<Sum>(i, f) \<leftarrow> rest @ [(i, f1)]. polls f) = eSuc (enat n)"
        by (simp add: eSuc_enat [symmetric] eSuc_plus_1 ac_simps)
      then have "(\<Sum>(i, f) \<leftarrow> rest @ [(i, f1)]. polls f) = enat n" by (simp only: eSuc_inject)
      from Suc.IH [OF this, of w1] pending Cons p show ?thesis by (auto simp: simple_run_unfold)
    qed
  qed
qed

text \<open>
  C30: \<^verbatim>\<open>SimpleExecutor::run\<close> returns exactly if each of its tasks gets ready after finitely many polls, and
  polls no more than that; a task that waits for ever, as \<^verbatim>\<open>print_keypresses\<close> does, keeps it busy for ever.
\<close>

theorem simple_run_returns_iff:
  assumes "needs_polls future polls"
  shows "((\<exists>w'. simple_run future q w = Some (n, w')) \<longleftrightarrow> (\<Sum>(i, f) \<leftarrow> q. polls f) = enat n) \<and>
    (simple_run future q w = None \<longleftrightarrow> (\<exists>(i, f) \<in> set q. polls f = \<infinity>))"
proof -
  have iff: "(\<exists>w'. simple_run future q w = Some (n, w')) \<longleftrightarrow> (\<Sum>(i, f) \<leftarrow> q. polls f) = enat n" for n
    using simple_run_needs [OF _ assms] simple_run_returns_if [OF assms] by metis
  have "(\<Sum>(i, f) \<leftarrow> q. polls f) = \<infinity> \<longleftrightarrow> (\<exists>(i, f) \<in> set q. polls f = \<infinity>)" by (induction q) (auto simp: plus_eq_infty_iff_enat)
  moreover have "simple_run future q w = None \<longleftrightarrow> (\<Sum>(i, f) \<leftarrow> q. polls f) = \<infinity>"
    using iff by (cases "simple_run future q w"; cases "\<Sum>(i, f) \<leftarrow> q. polls f") auto
  ultimately show ?thesis using iff by simp
qed

theorem simple_run_returns_iff_witness:
  "(let future = (\<lambda>_ f w. Some (if f = Some 0 then Ready (Inr ()) else Pending, map_option (\<lambda>n. n - 1) f, w + 1, [])) in
     (\<exists>w'. simple_run future [(0, Some (0 :: nat)), (1, Some 2)] (0 :: nat) = Some (4, w')) \<and>
     simple_run future [(0, None), (1, Some 2)] 0 = None)"
proof -
  define future :: "(nat option, nat) future" where
    "future = (\<lambda>_ f w. Some (if f = Some 0 then Ready (Inr ()) else Pending, map_option (\<lambda>n. n - 1) f, w + 1, []))"
  define polls where "polls f = (case f of None \<Rightarrow> \<infinity> | Some n \<Rightarrow> enat (Suc n))" for f :: "nat option"
  have n: "needs_polls future polls"
    unfolding needs_polls_def future_def polls_def
    by (auto simp: one_enat_def zero_enat_def eSuc_enat split: option.splits)
  from simple_run_returns_iff [OF n, of "[(0, Some 0), (1, Some 2)]" 0 4]
    simple_run_returns_iff [OF n, of "[(0, None), (1, Some 2)]" 0 4]
  show ?thesis by (simp add: future_def polls_def)
qed

section \<open>Scan codes and the third-party executor\<close>

text \<open>The queue of scan codes keeps the contract of the streams; with a place more, since \<^verbatim>\<open>ArrayQueue\<close> is filled.\<close>

interpretation scancode_fifo: bounded_fifo scancode_push xs_poll_next xs_empty xs_len "\<lambda>q. q" SCANCODE_QUEUE_SIZE
  by unfold_locales
     (auto simp: scancode_push_def xs_poll_next_def xs_empty_def xs_len_def split: if_splits list.splits)

lemma keypress_loop_all:
  "keypress_loop i \<lparr>sc_queue = Some q, sc_waker = k\<rparr> out = Some (\<lparr>sc_queue = Some [], sc_waker = Some i\<rparr>, out @ q)"
proof (induction q arbitrary: k out)
  case Nil
  show ?case by (subst keypress_loop.simps) (simp add: scancode_poll_next_def)
next
  case (Cons c q)
  then show ?case by (subst keypress_loop.simps) (simp add: scancode_poll_next_def)
qed

text \<open>A code typed while the task waits wakes it, once; what finds the queue full is lost without a panic.\<close>

lemma add_scancode_cases:
  assumes "sc_queue s = Some q"
  shows "length q < SCANCODE_QUEUE_SIZE \<Longrightarrow>
      add_scancode c s = (Added (sc_waker s), s\<lparr>sc_queue := Some (q @ [c]), sc_waker := None\<rparr>)"
    and "SCANCODE_QUEUE_SIZE \<le> length q \<Longrightarrow> add_scancode c s = (Dropped, s)"
  using assms by (simp_all add: add_scancode_def scancode_push_def)

lemma second_stream_panics:
  "scancode_stream_new s = Some s' \<Longrightarrow> scancode_stream_new s' = None"
  by (auto simp: scancode_stream_new_def split: option.splits)

text \<open>
  The runtime of \<^verbatim>\<open>embassy\<close> can be made once, runs for ever and never finds a foreign signaler. A server that
  cannot be initialised stops the firmware there, while the executor above just drops its task.
\<close>

lemma embassy_once: "embassy_executor_new t cell = Some (ex, cell') \<Longrightarrow> embassy_executor_new t' cell' = None"
  by (auto simp: embassy_executor_new_def split: option.splits)

lemma embassy_runs: "embassy_runtime_new None = Some (ex, cell) \<Longrightarrow> embassy_run ex n \<noteq> None \<and> pender (em_signaler ex) \<noteq> None"
  by (auto simp: embassy_runtime_new_def embassy_executor_new_def embassy_run_def pender_def)

lemma embassy_init_error:
  assumes "init_ret w Gcoap_server_stream \<noteq> 0"
  shows "embassy_task_poll i (Stream_task Gcoap_server_stream False None) w = None"
    and "poll_app i (Stream_task Gcoap_server_stream False None) w \<noteq> None"
  using assms by (simp_all add: embassy_task_poll_def)

end
