(* ===== verification/Main_Programs.thy ===== *)
theory Main_Programs
  imports Xbd_Main Xbd_Server Gcoap_Client Libcoap_Client Lwip_System Posix_Udp Rust_Executor
begin

text \<open>
  What is left of the main programs: the blocks of \<^verbatim>\<open>examples/xbd-net/main/main.c\<close> that a constant condition
  switches, with the requests they make, the entry into Rust (\<^verbatim>\<open>src/lib.rs\<close>), and the \<^verbatim>\<open>main\<close> of the two
  native examples. RIOT's \<^verbatim>\<open>shell_run\<close> does not return: starting it is the last action.
\<close>

section \<open>The native examples\<close>

datatype app_act = App_queue nat | App_puts string | App_shell "string list"

definition native_lwip_main :: "bool \<Rightarrow> bool \<Rightarrow> bool \<Rightarrow> app_act list" where
  "native_lwip_main sock_ip sock_tcp sock_udp =
     [App_puts ''RIOT lwip test application'', App_shell (map fst (lwip_shell_commands sock_ip sock_tcp sock_udp))]"

definition MAIN_MSG_QUEUE_SIZE :: nat where "MAIN_MSG_QUEUE_SIZE = 4"

definition sockets_shell_commands :: "(string \<times> string \<times> (posix_env \<Rightarrow> string list \<Rightarrow> posix_app \<Rightarrow> (int \<times> posix_app) option)) list" where
  "sockets_shell_commands = [(''udp'', ''send data over UDP and listen on UDP ports'', posix_udp_cmd)]"

definition native_sockets_main :: "app_act list" where
  "native_sockets_main =
     [App_queue MAIN_MSG_QUEUE_SIZE, App_puts ''RIOT socket example application'', App_puts ''All up, running the shell now'',
      App_shell (map fst sockets_shell_commands)]"

section \<open>The entry into Rust\<close>

text \<open>
  The two cells that can be set once, \<^verbatim>\<open>XBD_CELL\<close> and \<^verbatim>\<open>SIGNALER\<close>, and what \<^verbatim>\<open>rustmod_start\<close> does in the
  first \<open>n\<close> rounds of the executor, which runs for ever; \<^const>\<open>None\<close> is a panic.
\<close>

definition rustmod_start ::
  "(string \<times> xbd_fn) list \<Rightarrow> (string \<rightharpoonup> xbd_fn) option \<Rightarrow> u8 option \<Rightarrow> nat \<Rightarrow>
     ((string \<rightharpoonup> xbd_fn) option \<times> u8 option \<times> embassy_act list) option" where
  "rustmod_start fns xbd_cell signaler n =
     do {
       xbd_cell \<leftarrow> init_once fns xbd_cell;
       (runtime, signaler) \<leftarrow> embassy_runtime_new signaler;
       acts \<leftarrow> embassy_run runtime n;
       Some (xbd_cell, signaler, acts)
     }"

section \<open>The switched blocks of main\<close>

text \<open>The constants of the four conditions of \<^verbatim>\<open>main\<close>, in their order.\<close>

record main_switches =
  sw_pings :: bool
  sw_server :: bool
  sw_libcoap :: bool
  sw_rust :: bool

definition main_switches :: main_switches where
  "main_switches = \<lparr>sw_pings = False, sw_server = False, sw_libcoap = False, sw_rust = True\<rparr>"

definition IP6_FIXTURE_SERVER :: "bool \<Rightarrow> string" where
  "IP6_FIXTURE_SERVER native = (if native then ''fe80::20be:cdff:fe0e:44a1'' else ''fe80::a00:27ff:fefd:b6f8'')"

datatype main_act =
    Boot_act boot_act
  | Server_init int
  | Gcoap_req string string "string option" int
  | Libcoap_req string string int
  | Shell_start "string list"

definition goto_sync_shell :: main_act where
  "goto_sync_shell = Shell_start (map fst xbd_shell_get_commands)"

definition server_hint :: main_act where
  "server_hint = Boot_act (Boot_print (''@@ main(): initializing CoAP server (hint: check with `> coap info`)''))"

definition main_server_init :: "gcoap_env \<Rightarrow> gcoap_app \<Rightarrow> main_act \<times> gcoap_app" where
  "main_server_init env g = (let (r, g) = server_init env g in (Server_init r, g))"

definition main_gcoap_req ::
  "gcoap_env \<Rightarrow> string \<Rightarrow> string \<Rightarrow> string option \<Rightarrow> gcoap_app \<Rightarrow> (main_act \<times> gcoap_app) option" where
  "main_gcoap_req env req host uri g =
     map_option (\<lambda>(r, g). (Gcoap_req req host uri r, g)) (test_gcoap_req env req host uri g)"

definition main_pings :: "gcoap_env \<Rightarrow> bool \<Rightarrow> gcoap_app \<Rightarrow> (main_act list \<times> gcoap_app) option" where
  "main_pings env native g =
     do {
       let (init, g) = main_server_init env g;
       (ping1, g) \<leftarrow> main_gcoap_req env ''ping'' ''[::1]:5683'' None g;
       (ping2, g) \<leftarrow> main_gcoap_req env ''ping'' (''['' @ IP6_FIXTURE_SERVER native @ '']:5683'') None g;
       Some ([server_hint, init, ping1, ping2], g)
     }"

definition main_server :: "gcoap_env \<Rightarrow> boot_env \<Rightarrow> gcoap_app \<Rightarrow> (main_act list \<times> gcoap_app) option" where
  "main_server env benv g =
     do {
       let (init, g) = main_server_init env g;
       (get, g) \<leftarrow> main_gcoap_req env ''get'' ''[::1]:5684'' (Some ''/.well-known/core'') g;
       Some ([server_hint, init, get] @ map Boot_act (init_gcoap_fileserver benv) @ [goto_sync_shell], g)
     }"

definition main_libcoap :: "lc_env \<Rightarrow> lc_state \<Rightarrow> (main_act list \<times> lc_state) option" where
  "main_libcoap env st =
     map_option (\<lambda>(r, st). ([Libcoap_req ''get'' ''coap://[::1]/const/song.txt'' r, goto_sync_shell], st))
       (test_libcoap_req env ''get'' (Some ''coap://[::1]/const/song.txt'') st)"

text \<open>
  \<^verbatim>\<open>main\<close> for any setting of the switches: the result, unless it does not return, what it did, and the
  states of the two CoAP clients.
\<close>

record main_env =
  me_boot :: boot_env
  me_gcoap :: gcoap_env
  me_libcoap :: lc_env
  me_native :: bool

definition main_tail ::
  "main_switches \<Rightarrow> main_env \<Rightarrow> gcoap_app \<times> lc_state \<Rightarrow> (main_act list \<times> gcoap_app \<times> lc_state) option" where
  "main_tail sw env m =
     (case m of (g, l) \<Rightarrow>
        (let serve = map Boot_act (init_gcoap_fileserver (me_boot env)) in
         if sw_libcoap sw then
           map_option (\<lambda>(as, l). (serve @ as, g, l)) (main_libcoap (me_libcoap env) l)
         else if sw_rust sw then Some (serve @ [Boot_act (Rustmod_start (map fst xbd_fns))], g, l)
         else Some (serve @ [goto_sync_shell], g, l)))"

definition xbd_net_main_with ::
  "main_switches \<Rightarrow> main_env \<Rightarrow> eth_state \<Rightarrow> gcoap_app \<times> lc_state \<Rightarrow>
     (int option \<times> main_act list \<times> gcoap_app \<times> lc_state) option" where
  "xbd_net_main_with sw env st m =
     do {
       (eth, as) \<leftarrow> debug_esp32_eth_init (me_boot env) st;
       let bs = [Boot_print ''@@ [xbd-net] main(): ^^'', Msg_init_queue 16] @ as;
       if eth \<noteq> 0 then Some (Some 1, map Boot_act (bs @ [Boot_print ''Error initializing eth devices'']), m)
       else do {
         let ((outer, inner), cs) = find_ifces (boot_br (me_boot env)) (boot_mtu (me_boot env));
         let ds = snd (set_ips (boot_br (me_boot env)) (boot_junk (me_boot env)) outer inner);
         let start = map Boot_act (bs @ map Boot_br (cs @ ds));
         (ps, g) \<leftarrow> (if sw_pings sw \<and> outer \<noteq> None then main_pings (me_gcoap env) (me_native env) (fst m) else Some ([], fst m));
         (if sw_server sw then
            map_option (\<lambda>(qs, g). (None, start @ ps @ qs, g, snd m)) (main_server (me_gcoap env) (me_boot env) g)
          else map_option (\<lambda>(qs, m). (None, start @ ps @ qs, m)) (main_tail sw env (g, snd m)))
       }
     }"

section \<open>Lemmas\<close>

text \<open>With the switches of the source it is the \<^verbatim>\<open>main\<close> that only starts the file server and Rust.\<close>

lemma main_as_switched:
  "xbd_net_main_with main_switches env st m =
     map_option (\<lambda>(r, as). (r, map Boot_act as, m)) (xbd_net_main (me_boot env) st)"
  by (cases m) (simp add: xbd_net_main_with_def xbd_net_main_def main_switches_def main_tail_def xbd_net_serve_def Let_def
      split: option.split prod.split bind_splits)

text \<open>The server starts once: the block that pings it leaves nothing to do for the block after it.\<close>

lemma main_server_init_once:
  assumes "main_server_init env g = (act, g')"
  shows "server_init_done g'" and "server_init_done g \<Longrightarrow> act = Server_init 1"
  using assms by (auto simp: main_server_init_def server_init_def Let_def split: if_splits)

text \<open>The shell commands the programs offer.\<close>

lemma shells_offered:
  "goto_sync_shell = Shell_start [''gcoap'', ''libcoap'']" "last native_sockets_main = App_shell [''udp'']"
  "last (native_lwip_main True True True) = App_shell [''ip'', ''tcp'', ''udp'']"
  by (simp_all add: goto_sync_shell_def xbd_shell_get_commands_def xbd_shell_commands_def native_sockets_main_def
      sockets_shell_commands_def native_lwip_main_def lwip_shell_commands_def)

text \<open>The entry into Rust goes through exactly once, and makes the functions of the table available.\<close>

lemma rustmod_start_fresh:
  "rustmod_start fns None None n = Some (Some (map_of (rev fns)), Some SIGNALER_DUMMY_DATA,
     embassy_init @ Embassy_throttle 100 # concat (replicate n [Embassy_poll, Embassy_msleep 100]))"
  by (simp add: rustmod_start_def init_once_def embassy_runtime_new_def embassy_executor_new_def embassy_run_def)

lemma rustmod_start_again: "rustmod_start fns None None n = Some (cell, sig, as) \<Longrightarrow> rustmod_start fns' cell sig' k = None"
  by (auto simp: rustmod_start_fresh) (simp add: rustmod_start_def init_once_def)

section \<open>Properties\<close>


definition main_demo :: main_env where
  "main_demo = \<lparr>me_boot = boot_demo, me_gcoap = gcoap_demo, me_libcoap = lc_demo, me_native = True\<rparr>"


end
