(* ===== verification/Libcoap_Minimal.thy ===== *)
theory Libcoap_Minimal
  imports Libcoap_Client
begin

text \<open>
  The minimal libcoap client and server of \<^verbatim>\<open>examples/xbd-net/libcoap-minimal\<close>, which run on the host
  against the firmware: address resolution (\<^verbatim>\<open>common.cc\<close>), the client (\<^verbatim>\<open>client.cc\<close>) and the server
  (\<^verbatim>\<open>server.cc\<close>). The functions of libcoap and \<^verbatim>\<open>getaddrinfo\<close> are parameters.
\<close>

section \<open>Addresses\<close>

text \<open>An entry of the list of \<^verbatim>\<open>getaddrinfo\<close>: the family and the socket address.\<close>

type_synonym addrinfo = "af \<times> bytes"

fun first_inet :: "addrinfo list \<Rightarrow> bytes option" where
  "first_inet [] = None"
| "first_inet ((fam, a) # rest) = (if fam = AF_INET6 \<or> fam = AF_INET then Some a else first_inet rest)"

text \<open>The result, and the destination, which is empty where it was only zeroed.\<close>

definition resolve_address_minimal :: "int + addrinfo list \<Rightarrow> int \<times> bytes" where
  "resolve_address_minimal gai =
     (case gai of
        Inl error \<Rightarrow> (error, [])
      | Inr ainfo \<Rightarrow> (case first_inet ainfo of None \<Rightarrow> (- 1, []) | Some a \<Rightarrow> (int (length a), a)))"

section \<open>The client\<close>

datatype min_act =
    Min_startup
  | Min_set_log_level
  | Min_new_context
  | Min_set_block_mode
  | Min_new_session bytes
  | Min_register_handler
  | Min_pdu_init
  | Min_add_path string
  | Min_show_pdu
  | Min_send string
  | Min_new_endpoint bytes
  | Min_add_resource string
  | Min_session_release bool
  | Min_free_context bool
  | Min_cleanup
  | Min_text string

text \<open>\<open>min_io n\<close> says whether the \<open>n\<close>-th \<^verbatim>\<open>coap_io_process\<close> brings the response.\<close>

record min_env =
  min_gai :: "string \<Rightarrow> string \<Rightarrow> int + addrinfo list"
  min_context :: bool
  min_session :: "bytes \<Rightarrow> bool"
  min_endpoint :: "bytes \<Rightarrow> bool"
  min_pdu :: bool
  min_mid :: "string \<Rightarrow> int"
  min_io :: "nat \<Rightarrow> bool"

partial_function (option) wait_response :: "min_env \<Rightarrow> nat \<Rightarrow> bool \<Rightarrow> unit option" where
  "wait_response env n have_response =
     (if have_response then Some () else wait_response env (Suc n) (min_io env n))"

definition EXIT_SUCCESS :: int where "EXIT_SUCCESS = 0"
definition EXIT_FAILURE :: int where "EXIT_FAILURE = 1"

definition min_finish :: "bool \<Rightarrow> bool \<Rightarrow> min_act list" where
  "min_finish session ctx = [Min_session_release session, Min_free_context ctx, Min_cleanup]"

definition min_usage :: "min_act" where
  "min_usage = Min_text ''@@ usage: ./client port dst uri_path''"

text \<open>
  \<open>argv\<close> is the list of the arguments with the name of the program; \<^verbatim>\<open>argv[argc]\<close> is the null
  pointer, and \<^verbatim>\<open>strlen\<close> of it is undefined.
\<close>

definition client_main :: "min_env \<Rightarrow> string list \<Rightarrow> (int \<times> min_act list) option" where
  "client_main env argv =
     (if length argv < 3 then
        Some (EXIT_FAILURE, [Min_startup, Min_set_log_level, Min_text (''@@ argc: '' @ dec (length argv)), min_usage] @ min_finish False False)
      else let (res, dst) = resolve_address_minimal (min_gai env (argv ! 2) (argv ! 1)) in
      if res < 0 then
        Some (EXIT_FAILURE, [Min_startup, Min_set_log_level, Min_text ''failed to resolve address''] @ min_finish False False)
      else if \<not> min_context env then
        Some (EXIT_FAILURE, [Min_startup, Min_set_log_level, Min_new_context, Min_text ''cannot create libcoap context''] @ min_finish False False)
      else if \<not> min_session env dst then
        Some (EXIT_FAILURE, [Min_startup, Min_set_log_level, Min_new_context, Min_set_block_mode, Min_new_session dst, Min_text ''cannot create client session''] @
          min_finish False True)
      else if \<not> min_pdu env then
        Some (EXIT_FAILURE, [Min_startup, Min_set_log_level, Min_new_context, Min_set_block_mode, Min_new_session dst, Min_register_handler, Min_text ''cannot create PDU''] @
          min_finish True True)
      else if length argv \<le> 3 then None
      else let acts = [Min_startup, Min_set_log_level, Min_new_context, Min_set_block_mode, Min_new_session dst, Min_register_handler, Min_pdu_init,
                       Min_add_path (argv ! 3), Min_show_pdu, Min_send (argv ! 3)] in
        if min_mid env (argv ! 3) = COAP_INVALID_MID then
          Some (EXIT_FAILURE, acts @ [Min_text ''cannot send CoAP pdu''] @ min_finish True True)
        else map_option (\<lambda>_. (EXIT_SUCCESS, acts @ min_finish True True)) (wait_response env 0 False))"

section \<open>The server\<close>

text \<open>The handler of the resource \<^verbatim>\<open>hello\<close>: the code 2.05 and the payload.\<close>

definition hello_handler :: "nat \<times> string" where
  "hello_handler = (69, ''world'')"

text \<open>The server up to its loop, which never ends: \<^const>\<open>None\<close> is that it serves.\<close>

definition server_main :: "min_env \<Rightarrow> string list \<Rightarrow> int option \<times> min_act list" where
  "server_main env argv =
     (if length argv < 3 then
        (Some EXIT_FAILURE, [Min_startup, Min_text (''@@ argc: '' @ dec (length argv)),
          Min_text ''@@ usage: ./server port ep_addr'', Min_free_context False, Min_cleanup])
      else let (res, dst) = resolve_address_minimal (min_gai env (argv ! 2) (argv ! 1)) in
      if res < 0 then
        (Some EXIT_FAILURE, [Min_startup, Min_text ''failed to resolve address'', Min_free_context False, Min_cleanup])
      else if \<not> min_context env then
        (Some EXIT_FAILURE, [Min_startup, Min_new_context, Min_text ''cannot initialize context'', Min_free_context False, Min_cleanup])
      else if \<not> min_endpoint env dst then
        (Some EXIT_FAILURE, [Min_startup, Min_new_context, Min_new_endpoint dst, Min_text ''cannot initialize context'',
          Min_free_context True, Min_cleanup])
      else (None, [Min_startup, Min_new_context, Min_new_endpoint dst, Min_add_resource ''hello'']))"

section \<open>Lemmas\<close>

lemma wait_response_add: "(\<exists>j < m. min_io env (k + j)) \<Longrightarrow> wait_response env k False = Some ()"
proof (induction m arbitrary: k)
  case 0
  then show ?case by simp
next
  case (Suc m)
  show ?case
  proof (cases "min_io env k")
    case True
    then show ?thesis by (simp add: wait_response.simps [of env k] wait_response.simps [of env "Suc k" True])
  next
    case False
    with Suc.prems have "\<exists>j < m. min_io env (Suc k + j)" by (metis add_Suc_shift add.right_neutral less_Suc_eq_0_disj)
    with Suc.IH have "wait_response env (Suc k) False = Some ()" by blast
    with False show ?thesis by (simp add: wait_response.simps [of env k])
  qed
qed

lemma wait_response_Some:
  assumes "wait_response env k b = Some u"
  shows "b \<or> (\<exists>j \<ge> k. min_io env j)"
proof (rule wait_response.raw_induct [OF _ assms, where P = "\<lambda>env k b u. b \<or> (\<exists>j \<ge> k. min_io env j)"])
  fix f :: "min_env \<Rightarrow> nat \<Rightarrow> bool \<Rightarrow> unit option" and env n b u
  assume IH: "\<And>env k b u. f env k b = Some u \<Longrightarrow> b \<or> (\<exists>j \<ge> k. min_io env j)"
    and body: "(if b then Some () else f env (Suc n) (min_io env n)) = Some u"
  show "b \<or> (\<exists>j \<ge> n. min_io env j)"
  proof (cases b)
    case False
    with body IH [of env "Suc n" "min_io env n" u] show ?thesis by (auto dest: Suc_leD)
  qed simp
qed

lemma wait_response_iff: "wait_response env 0 False \<noteq> None \<longleftrightarrow> (\<exists>n. min_io env n)"
proof
  assume "wait_response env 0 False \<noteq> None"
  then show "\<exists>n. min_io env n" using wait_response_Some by blast
next
  assume "\<exists>n. min_io env n"
  then obtain n where "min_io env n" ..
  then show "wait_response env 0 False \<noteq> None"
    using wait_response_add [of "Suc n" env 0] by (metis add_0 lessI option.distinct(1))
qed

lemma first_inet_Some: "first_inet xs = Some a \<Longrightarrow> \<exists>fam. (fam, a) \<in> set xs \<and> (fam = AF_INET6 \<or> fam = AF_INET)"
  by (induction xs rule: first_inet.induct) (auto split: if_splits)

section \<open>Properties\<close>

text \<open>
  The minimal client, given a port, an address and a path, returns success exactly if the
  address resolves, every object is created, the request is sent and a response arrives; it has
  then sent one request, with the fourth argument as its path, and has released the session, freed
  the context and cleaned up.
\<close>

lemma minimal_client_exit:
  assumes "length argv = 4"
  shows "client_main env argv = Some (EXIT_SUCCESS, acts) \<longleftrightarrow>
     (let (res, dst) = resolve_address_minimal (min_gai env (argv ! 2) (argv ! 1)) in
      0 \<le> res \<and> min_context env \<and> min_session env dst \<and> min_pdu env \<and>
      min_mid env (argv ! 3) \<noteq> COAP_INVALID_MID \<and> (\<exists>n. min_io env n) \<and>
      acts = [Min_startup, Min_set_log_level, Min_new_context, Min_set_block_mode, Min_new_session dst, Min_register_handler, Min_pdu_init,
        Min_add_path (argv ! 3), Min_show_pdu, Min_send (argv ! 3),
        Min_session_release True, Min_free_context True, Min_cleanup])"
proof -
  obtain res dst where r: "resolve_address_minimal (min_gai env (argv ! 2) (argv ! 1)) = (res, dst)" by fastforce
  have ne: "EXIT_FAILURE \<noteq> EXIT_SUCCESS" by (simp add: EXIT_FAILURE_def EXIT_SUCCESS_def)
  have w: "wait_response env 0 False = (if \<exists>n. min_io env n then Some () else None)"
    using wait_response_iff [of env] by (auto split: if_splits)
  show ?thesis using assms ne unfolding client_main_def r Let_def prod.case w
    by (auto simp: min_finish_def split: if_splits)
qed

definition min_demo :: min_env where
  "min_demo = \<lparr>min_gai = (\<lambda>h s. Inr [(AF_UNSPEC, [9]), (AF_INET6, [1, 2])]), min_context = True, min_session = (\<lambda>_. True),
     min_endpoint = (\<lambda>_. True), min_pdu = True, min_mid = (\<lambda>_. 3), min_io = (\<lambda>n. n = 2)\<rparr>"

lemma minimal_client_exit_witness:
  "\<exists>acts. client_main min_demo [''client'', ''5683'', ''::1'', ''hello''] = Some (EXIT_SUCCESS, acts) \<and> Min_send ''hello'' \<in> set acts"
  using minimal_client_exit [of "[''client'', ''5683'', ''::1'', ''hello'']" min_demo]
  by (simp add: min_demo_def resolve_address_minimal_def COAP_INVALID_MID_def)

text \<open>
  Without the path the client is undefined where it should print its usage: the check of the number
  of arguments lets three pass, and the length of the missing fourth is taken.
\<close>

lemma minimal_client_no_path_undefined:
  assumes "length argv = 3" and "fst (resolve_address_minimal (min_gai env (argv ! 2) (argv ! 1))) \<ge> 0"
    and "min_context env" and "min_pdu env" and "\<forall>dst. min_session env dst"
  shows "client_main env argv = None"
  using assms by (simp add: client_main_def case_prod_beta)

lemma minimal_client_no_path_undefined_demo: "client_main min_demo [''client'', ''5683'', ''::1''] = None"
  by (rule minimal_client_no_path_undefined) (simp_all add: min_demo_def resolve_address_minimal_def)

text \<open>
  The address taken is the first of the list of an Internet family, and a list without one counts
  as a failure; but so does a positive error number not: it is returned as it is, and the callers
  only look for negative results.
\<close>

lemma resolve_minimal_negative_iff:
  "fst (resolve_address_minimal gai) < 0 \<longleftrightarrow>
     (case gai of Inl e \<Rightarrow> e < 0 | Inr xs \<Rightarrow> \<forall>(fam, a) \<in> set xs. fam \<noteq> AF_INET6 \<and> fam \<noteq> AF_INET)"
proof (cases gai)
  case (Inr xs)
  have "first_inet xs = None \<longleftrightarrow> (\<forall>(fam, a) \<in> set xs. fam \<noteq> AF_INET6 \<and> fam \<noteq> AF_INET)"
    by (induction xs rule: first_inet.induct) auto
  with Inr show ?thesis by (auto simp: resolve_address_minimal_def split: option.split)
qed (simp add: resolve_address_minimal_def)

end
