(* ===== verification/Blockwise_Store.thy ===== *)
theory Blockwise_Store
  imports Xstream
begin

text \<open>
  The store of blockwise transfers that the C callbacks of \<^verbatim>\<open>modules/minerva_xbd/gcoap.c\<close> call
  into, \<^verbatim>\<open>src/xbd/blockwise.rs\<close> of \<^verbatim>\<open>examples/xbd-net\<close>: four slots, each with the address, the
  URI and the encoded request header of its transfer and a stream of capacity one, and the
  index of the slot used last. A panic (\<^verbatim>\<open>unwrap\<close> of nothing, a failed \<^verbatim>\<open>assert\<close>, an index out
  of range, a full heapless container) is \<^const>\<open>None\<close>.

  A slot in use refers to its rows of the static grids, so writing through it writes the grid;
  its header length is its own, copied from a grid cell that stays 0.
\<close>

section \<open>Data\<close>

definition BLOCKWISE_STATES_MAX :: nat where "BLOCKWISE_STATES_MAX = 4"
definition BLOCKWISE_HDR_MAX :: nat where "BLOCKWISE_HDR_MAX = 64"
definition REQ_ADDR_MAX :: nat where "REQ_ADDR_MAX = 64"
definition REQ_URI_MAX :: nat where "REQ_URI_MAX = 64"

lemmas bw_sizes = BLOCKWISE_STATES_MAX_def BLOCKWISE_HDR_MAX_def REQ_ADDR_MAX_def REQ_URI_MAX_def

text \<open>A blockwise request, as \<^verbatim>\<open>Req::blockwise_get_new\<close> and \<^verbatim>\<open>Req::blockwise_get_next\<close> make it.\<close>

record breq =
  rq_addr :: string
  rq_uri :: string
  rq_idx :: nat
  rq_hdr :: "bytes option"

definition req_new :: "string \<Rightarrow> string \<Rightarrow> nat \<Rightarrow> bytes option \<Rightarrow> breq option" where
  "req_new a u idx hdr =
     (if length a \<le> REQ_ADDR_MAX \<and> length u \<le> REQ_URI_MAX
      then Some \<lparr>rq_addr = a, rq_uri = u, rq_idx = idx, rq_hdr = hdr\<rparr> else None)"

record bw_store =
  bw_last :: "nat option"
  grid_addr :: "char list list"
  grid_uri :: "char list list"
  grid_hdr :: "bytes list"
  bw_states :: "nat option list"  \<comment> \<open>the header length of a slot in use\<close>
  bw_sd :: "breq option list list"

definition bw_init :: bw_store where
  "bw_init = \<lparr>bw_last = None,
     grid_addr = replicate BLOCKWISE_STATES_MAX (replicate REQ_ADDR_MAX NUL),
     grid_uri = replicate BLOCKWISE_STATES_MAX (replicate REQ_URI_MAX NUL),
     grid_hdr = replicate BLOCKWISE_STATES_MAX (replicate BLOCKWISE_HDR_MAX 0),
     bw_states = replicate BLOCKWISE_STATES_MAX None,
     bw_sd = replicate BLOCKWISE_STATES_MAX []\<rparr>"

datatype bw_error = StateNotAvailable

section \<open>Slots\<close>

definition update_metadata :: "'a \<Rightarrow> 'a list \<Rightarrow> 'a list \<Rightarrow> 'a list option" where
  "update_metadata z data_in data =
     (if length data_in < length data
      then Some (data_in @ replicate (length data - length data_in) z) else None)"

definition bw_state :: "nat \<Rightarrow> bw_store \<Rightarrow> nat option" where
  "bw_state idx st = (if idx < length (bw_states st) then bw_states st ! idx else None)"

definition state_is_valid :: "nat \<Rightarrow> bw_store \<Rightarrow> bool" where
  "state_is_valid idx st \<longleftrightarrow> bw_state idx st \<noteq> None"

definition update_state :: "nat \<Rightarrow> string \<Rightarrow> string \<Rightarrow> bytes option \<Rightarrow> bw_store \<Rightarrow> bw_store option" where
  "update_state idx a u hdr st =
     (if \<not> state_is_valid idx st then None
      else do {
        ra \<leftarrow> update_metadata NUL a (grid_addr st ! idx);
        ru \<leftarrow> update_metadata NUL u (grid_uri st ! idx);
        let st = st\<lparr>grid_addr := (grid_addr st)[idx := ra], grid_uri := (grid_uri st)[idx := ru]\<rparr>;
        case hdr of
          None \<Rightarrow> Some st
        | Some h \<Rightarrow> do {
            rh \<leftarrow> update_metadata 0 h (grid_hdr st ! idx);
            Some (st\<lparr>grid_hdr := (grid_hdr st)[idx := rh], bw_states := (bw_states st)[idx := Some (length h)]\<rparr>)
          }
      })"

definition clear_state :: "nat \<Rightarrow> bw_store \<Rightarrow> bw_store option" where
  "clear_state idx st = update_state idx [] [] (Some []) st"

definition invalidate_state :: "nat \<Rightarrow> bw_store \<Rightarrow> bw_store option" where
  "invalidate_state idx st =
     (if idx < length (bw_states st) then Some (st\<lparr>bw_states := (bw_states st)[idx := None]\<rparr>) else None)"

fun first_free :: "nat \<Rightarrow> nat option list \<Rightarrow> nat option" where
  "first_free i [] = None"
| "first_free i (None # r) = Some i"
| "first_free i (Some _ # r) = first_free (Suc i) r"

definition find_state_available :: "bw_store \<Rightarrow> nat option" where
  "find_state_available st = first_free 0 (bw_states st)"

text \<open>Taking the first free slot, and giving a slot back.\<close>

definition alloc_slot :: "bw_store \<Rightarrow> (nat \<times> bw_store) option" where
  "alloc_slot st = map_option (\<lambda>idx. (idx, st\<lparr>bw_states := (bw_states st)[idx := Some 0]\<rparr>))
     (find_state_available st)"

definition release_slot :: "nat \<Rightarrow> bw_store \<Rightarrow> bw_store option" where
  "release_slot idx st = clear_state idx st \<bind> invalidate_state idx"

section \<open>Streams and requests\<close>

definition bs_add :: "nat \<Rightarrow> breq option \<Rightarrow> bw_store \<Rightarrow> bw_store option" where
  "bs_add idx item st =
     (if length (bw_sd st) \<le> idx \<or> xs_len (bw_sd st ! idx) \<noteq> 0 then None
      else do {
        q \<leftarrow> xs_add 2 item (bw_sd st ! idx);
        Some (st\<lparr>bw_sd := (bw_sd st)[idx := q]\<rparr>)
      })"

definition bs_empty :: "nat \<Rightarrow> bw_store \<Rightarrow> bw_store" where
  "bs_empty idx st = st\<lparr>bw_sd := (bw_sd st)[idx := xs_empty (bw_sd st ! idx)]\<rparr>"

definition bs_poll_next :: "nat \<Rightarrow> bw_store \<Rightarrow> breq option poll \<times> bw_store" where
  "bs_poll_next idx st =
     (case xs_poll_next (bw_sd st ! idx) of (r, q) \<Rightarrow> (r, st\<lparr>bw_sd := (bw_sd st)[idx := q]\<rparr>))"

text \<open>The three uses of \<^verbatim>\<open>send_blockwise_req\<close>.\<close>

definition send_blockwise_next :: "nat \<Rightarrow> string \<Rightarrow> string \<Rightarrow> bytes \<Rightarrow> bw_store \<Rightarrow> bw_store option" where
  "send_blockwise_next idx a u hdr st =
     (if BLOCKWISE_HDR_MAX < length hdr then None
      else do {
        req \<leftarrow> req_new a u idx (Some hdr);
        bs_add idx (Some req) st
      })"

definition send_blockwise_complete :: "nat \<Rightarrow> bw_store \<Rightarrow> bw_store option" where
  "send_blockwise_complete idx st =
     do {
       st \<leftarrow> release_slot idx st;
       bs_add idx None st
     }"

definition send_blockwise_new :: "string \<Rightarrow> string \<Rightarrow> bw_store \<Rightarrow> ((bw_error + nat) \<times> bw_store) option" where
  "send_blockwise_new a u st =
     (case alloc_slot st of
        None \<Rightarrow> Some (Inl StateNotAvailable, st)
      | Some (idx, st) \<Rightarrow> do {
          req \<leftarrow> req_new a u idx None;
          st \<leftarrow> bs_add idx (Some req) (bs_empty idx st);
          Some (Inr idx, st)
        })"

definition bs_close :: "nat \<Rightarrow> bw_store \<Rightarrow> bw_store option" where
  "bs_close idx st =
     do {
       st \<leftarrow> release_slot idx st;
       bs_add idx None (bs_empty idx st)
     }"

section \<open>The functions the C code calls\<close>

definition xbd_blockwise_state_index :: "bw_store \<Rightarrow> nat option" where
  "xbd_blockwise_state_index st = bw_last st"

definition xbd_blockwise_addr_ptr :: "nat \<Rightarrow> bw_store \<Rightarrow> char list option" where
  "xbd_blockwise_addr_ptr idx st = (if state_is_valid idx st then Some (grid_addr st ! idx) else None)"

definition xbd_blockwise_uri_ptr :: "nat \<Rightarrow> bw_store \<Rightarrow> char list option" where
  "xbd_blockwise_uri_ptr idx st = (if state_is_valid idx st then Some (grid_uri st ! idx) else None)"

text \<open>\<^verbatim>\<open>xbd_blockwise_hdr_copy\<close>: the length and the new contents of the caller's buffer.\<close>

definition xbd_blockwise_hdr_copy :: "bytes \<Rightarrow> nat \<Rightarrow> bw_store \<Rightarrow> (nat \<times> bytes) option" where
  "xbd_blockwise_hdr_copy buf idx st =
     (case bw_state idx st of
        None \<Rightarrow> None
      | Some len \<Rightarrow>
          if 0 < len then
            (if length (grid_hdr st ! idx) < len then None
             else map_option (Pair len) (mem_write 0 (take len (grid_hdr st ! idx)) buf))
          else Some (0, buf))"

section \<open>The invariant\<close>

definition rows_ok :: "nat \<Rightarrow> char list list \<Rightarrow> bool" where
  "rows_ok n g \<longleftrightarrow> length g = BLOCKWISE_STATES_MAX \<and> (\<forall>r \<in> set g. length r = n \<and> nul_terminated r)"

definition bw_ok :: "bw_store \<Rightarrow> bool" where
  "bw_ok st \<longleftrightarrow> rows_ok REQ_ADDR_MAX (grid_addr st) \<and> rows_ok REQ_URI_MAX (grid_uri st) \<and>
     length (grid_hdr st) = BLOCKWISE_STATES_MAX \<and> (\<forall>r \<in> set (grid_hdr st). length r = BLOCKWISE_HDR_MAX) \<and>
     length (bw_states st) = BLOCKWISE_STATES_MAX \<and> (\<forall>n. Some n \<in> set (bw_states st) \<longrightarrow> n < BLOCKWISE_HDR_MAX) \<and>
     length (bw_sd st) = BLOCKWISE_STATES_MAX \<and> (\<forall>q \<in> set (bw_sd st). length q \<le> 1)"

lemma bw_ok_init: "bw_ok bw_init"
  by (simp add: bw_ok_def bw_init_def rows_ok_def bw_sizes nul_terminated_def)

lemma update_metadata_row:
  "update_metadata NUL d r = Some r' \<Longrightarrow> length r' = length r \<and> nul_terminated r'"
  by (auto simp: update_metadata_def nul_terminated_def split: if_splits)

lemma update_metadata_cstr:
  assumes "NUL \<notin> set d" and "update_metadata NUL d r = Some r'"
  shows "cstr r' = d"
proof -
  from assms(2) have "length d < length r" and r': "r' = d @ replicate (length r - length d) NUL"
    by (simp_all add: update_metadata_def split: if_splits)
  then have "length r - length d = Suc (length r - length d - 1)" by simp
  with r' have "r' = d @ NUL # replicate (length r - length d - 1) NUL" by (metis replicate_Suc)
  with assms(1) show ?thesis by (simp add: cstr_append_NUL)
qed

lemma update_metadata_length: "update_metadata z d r = Some r' \<Longrightarrow> length r' = length r \<and> length d < length r"
  by (auto simp: update_metadata_def split: if_splits)

lemma rows_ok_update: "rows_ok n g \<Longrightarrow> i < length g \<Longrightarrow> update_metadata NUL d (g ! i) = Some r \<Longrightarrow> rows_ok n (g[i := r])"
  using set_update_subset_insert [of g i r]
  by (auto simp: rows_ok_def dest!: update_metadata_row)

lemma rows_ok_nth: "rows_ok n g \<Longrightarrow> i < BLOCKWISE_STATES_MAX \<Longrightarrow> length (g ! i) = n \<and> nul_terminated (g ! i)"
  by (simp add: rows_ok_def)

lemma bw_ok_update_state:
  assumes "update_state idx a u hdr st = Some st'" and "bw_ok st"
  shows "bw_ok st'"
proof -
  from assms(1) have i: "idx < BLOCKWISE_STATES_MAX"
    using assms(2) by (auto simp: update_state_def state_is_valid_def bw_state_def bw_ok_def split: if_splits)
  from assms(1) obtain ra ru where r: "update_metadata NUL a (grid_addr st ! idx) = Some ra"
      "update_metadata NUL u (grid_uri st ! idx) = Some ru"
    by (auto simp: update_state_def bind_eq_Some_conv split: if_splits)
  from assms(2) i have g: "rows_ok REQ_ADDR_MAX (grid_addr st)" "rows_ok REQ_URI_MAX (grid_uri st)"
      "idx < length (grid_addr st)" "idx < length (grid_uri st)"
    by (simp_all add: bw_ok_def rows_ok_def)
  with r have rows: "rows_ok REQ_ADDR_MAX ((grid_addr st)[idx := ra])"
      "rows_ok REQ_URI_MAX ((grid_uri st)[idx := ru])"
    by (simp_all add: rows_ok_update)
  show ?thesis
  proof (cases hdr)
    case None
    with assms r rows show ?thesis by (auto simp: update_state_def bw_ok_def split: if_splits)
  next
    case (Some h)
    with assms(1) r obtain rh where h: "update_metadata 0 h (grid_hdr st ! idx) = Some rh"
      and st': "st' = st\<lparr>grid_addr := (grid_addr st)[idx := ra], grid_uri := (grid_uri st)[idx := ru],
        grid_hdr := (grid_hdr st)[idx := rh], bw_states := (bw_states st)[idx := Some (length h)]\<rparr>"
      by (auto simp: update_state_def bind_eq_Some_conv Let_def split: if_splits)
    from h assms(2) i have "length rh = BLOCKWISE_HDR_MAX" "length h < BLOCKWISE_HDR_MAX"
      using update_metadata_length [OF h] by (auto simp: bw_ok_def)
    with st' rows assms(2) show ?thesis
      using set_update_subset_insert [of "grid_hdr st" idx rh]
        set_update_subset_insert [of "bw_states st" idx "Some (length h)"]
      by (auto simp: bw_ok_def)
  qed
qed

lemma bw_ok_states:
  assumes "bw_ok st" and "\<And>n. v = Some n \<Longrightarrow> n < BLOCKWISE_HDR_MAX"
  shows "bw_ok (st\<lparr>bw_states := (bw_states st)[idx := v]\<rparr>)"
  using assms set_update_subset_insert [of "bw_states st" idx v] by (auto simp: bw_ok_def)

lemma bw_ok_sd: "bw_ok st \<Longrightarrow> length q \<le> 1 \<Longrightarrow> bw_ok (st\<lparr>bw_sd := (bw_sd st)[idx := q]\<rparr>)"
  using set_update_subset_insert [of "bw_sd st" idx q] by (auto simp: bw_ok_def)

lemma bw_ok_invalidate: "invalidate_state idx st = Some st' \<Longrightarrow> bw_ok st \<Longrightarrow> bw_ok st'"
  by (auto simp: invalidate_state_def intro: bw_ok_states split: if_splits)

lemma bw_ok_bs_add: "bs_add idx item st = Some st' \<Longrightarrow> bw_ok st \<Longrightarrow> bw_ok st'"
  by (auto simp: bs_add_def xs_add_def xs_len_def bind_eq_Some_conv intro: bw_ok_sd split: if_splits)

lemma bw_ok_bs_empty: "bw_ok st \<Longrightarrow> bw_ok (bs_empty idx st)"
  by (simp add: bs_empty_def xs_empty_def bw_ok_sd)

lemma bw_ok_bs_poll_next:
  assumes "bw_ok st" and "idx < BLOCKWISE_STATES_MAX"
  shows "bw_ok (snd (bs_poll_next idx st))"
proof -
  have "length (bw_sd st ! idx) \<le> 1" using assms by (simp add: bw_ok_def)
  then have "length (snd (xs_poll_next (bw_sd st ! idx))) \<le> 1" by (auto simp: xs_poll_next_def split: list.splits)
  then show ?thesis using assms(1) by (auto simp: bs_poll_next_def intro: bw_ok_sd split: prod.splits)
qed

lemma bw_ok_send:
  "send_blockwise_next idx a u h st = Some st' \<Longrightarrow> bw_ok st \<Longrightarrow> bw_ok st'"
  "send_blockwise_complete idx st = Some st' \<Longrightarrow> bw_ok st \<Longrightarrow> bw_ok st'"
  "bs_close idx st = Some st' \<Longrightarrow> bw_ok st \<Longrightarrow> bw_ok st'"
  by (auto simp: send_blockwise_next_def send_blockwise_complete_def bs_close_def clear_state_def
      release_slot_def bind_eq_Some_conv split: if_splits)
     (meson bw_ok_update_state bw_ok_invalidate bw_ok_bs_add bw_ok_bs_empty)+

lemma bw_ok_alloc: "alloc_slot st = Some (i, st') \<Longrightarrow> bw_ok st \<Longrightarrow> bw_ok st'"
  by (auto simp: alloc_slot_def BLOCKWISE_HDR_MAX_def intro: bw_ok_states)

lemma bw_ok_send_new:
  assumes "send_blockwise_new a u st = Some (r, st')" and "bw_ok st"
  shows "bw_ok st'"
proof (cases "alloc_slot st")
  case None
  with assms show ?thesis by (simp add: send_blockwise_new_def)
next
  case (Some x)
  then obtain idx t where t: "alloc_slot st = Some (idx, t)" by (cases x) auto
  with assms(1) obtain req where "bs_add idx (Some req) (bs_empty idx t) = Some st'"
    by (auto simp: send_blockwise_new_def bind_eq_Some_conv)
  with bw_ok_alloc [OF t assms(2)] show ?thesis by (blast intro: bw_ok_bs_add bw_ok_bs_empty)
qed

section \<open>The slots as a table\<close>

text \<open>The contract of the slot table, and what its users get from it.\<close>

locale slot_table =
  fixes ok :: "'s \<Rightarrow> bool"
    and used :: "nat \<Rightarrow> 's \<Rightarrow> bool"
    and alloc :: "'s \<Rightarrow> (nat \<times> 's) option"
    and release :: "nat \<Rightarrow> 's \<Rightarrow> 's option"
    and slots :: nat
  assumes alloc_fresh: "ok s \<Longrightarrow> alloc s = Some (i, s') \<Longrightarrow>
      i < slots \<and> \<not> used i s \<and> ok s' \<and> (\<forall>j. used j s' \<longleftrightarrow> used j s \<or> j = i)"
    and alloc_full: "ok s \<Longrightarrow> alloc s = None \<longleftrightarrow> (\<forall>i < slots. used i s)"
    and used_slot: "ok s \<Longrightarrow> used i s \<Longrightarrow> i < slots"
    and release_used: "ok s \<Longrightarrow> used i s \<Longrightarrow>
      \<exists>s'. release i s = Some s' \<and> ok s' \<and> (\<forall>j. used j s' \<longleftrightarrow> used j s \<and> j \<noteq> i)"
begin

lemma release_alloc:
  assumes "ok s" and "used i s"
  shows "\<exists>s' j s''. release i s = Some s' \<and> alloc s' = Some (j, s'') \<and> ok s''"
proof -
  from release_used [OF assms] obtain s' where r: "release i s = Some s'" "ok s'" "\<not> used i s'" by blast
  have "i < slots" using assms by (rule used_slot)
  with r(2,3) have "alloc s' \<noteq> None" using alloc_full by blast
  then obtain j s'' where "alloc s' = Some (j, s'')" by auto
  with r alloc_fresh show ?thesis by blast
qed

lemma card_used: "ok s \<Longrightarrow> card {i. used i s} \<le> slots"
proof -
  assume "ok s"
  then have "{i. used i s} \<subseteq> {..<slots}" using used_slot by auto
  then show ?thesis using card_mono [of "{..<slots}"] by simp
qed

end

lemma first_free_Some:
  "first_free k xs = Some i \<Longrightarrow> k \<le> i \<and> i - k < length xs \<and> xs ! (i - k) = None"
proof (induction k xs rule: first_free.induct)
  case (3 k v r)
  then have "Suc k \<le> i \<and> i - Suc k < length r \<and> r ! (i - Suc k) = None" by simp
  moreover from this have "i - k = Suc (i - Suc k)" by linarith
  ultimately show ?case by simp
qed auto

lemma first_free_None: "first_free k xs = None \<longleftrightarrow> None \<notin> set xs"
  by (induction k xs rule: first_free.induct) auto

lemma alloc_slot_fresh:
  assumes "bw_ok st" and "alloc_slot st = Some (i, st')"
  shows "i < BLOCKWISE_STATES_MAX \<and> \<not> state_is_valid i st \<and> bw_ok st' \<and>
     (\<forall>j. state_is_valid j st' \<longleftrightarrow> state_is_valid j st \<or> j = i)"
proof -
  from assms(2) have f: "first_free 0 (bw_states st) = Some i"
    and st': "st' = st\<lparr>bw_states := (bw_states st)[i := Some 0]\<rparr>"
    by (auto simp: alloc_slot_def find_state_available_def)
  from first_free_Some [OF f] assms(1) have "i < BLOCKWISE_STATES_MAX" "bw_states st ! i = None"
      "length (bw_states st) = BLOCKWISE_STATES_MAX" by (simp_all add: bw_ok_def)
  then show ?thesis using bw_ok_alloc [OF assms(2,1)]
    by (auto simp: st' state_is_valid_def bw_state_def nth_list_update)
qed

lemma first_free_least: "first_free k xs = Some i \<Longrightarrow> j < i - k \<Longrightarrow> xs ! j \<noteq> None"
proof (induction k xs arbitrary: j rule: first_free.induct)
  case (3 k v r)
  then show ?case by (cases j) auto
qed auto

lemma alloc_slot_least: "alloc_slot st = Some (i, st') \<Longrightarrow> j < i \<Longrightarrow> state_is_valid j st"
  using first_free_least [of 0 "bw_states st" i j] first_free_Some [of 0 "bw_states st" i]
  by (auto simp: alloc_slot_def find_state_available_def state_is_valid_def bw_state_def)

lemma alloc_slot_full: "bw_ok st \<Longrightarrow> alloc_slot st = None \<longleftrightarrow> (\<forall>i < BLOCKWISE_STATES_MAX. state_is_valid i st)"
  by (auto simp: alloc_slot_def find_state_available_def first_free_None state_is_valid_def bw_state_def
      bw_ok_def in_set_conv_nth)

lemma state_is_valid_less: "bw_ok st \<Longrightarrow> state_is_valid i st \<Longrightarrow> i < BLOCKWISE_STATES_MAX"
  by (auto simp: state_is_valid_def bw_state_def bw_ok_def split: if_splits)

definition padded :: "nat \<Rightarrow> 'a \<Rightarrow> 'a list \<Rightarrow> 'a list" where
  "padded n z d = d @ replicate (n - length d) z"

lemma update_state_eq:
  assumes "bw_ok st" and "state_is_valid i st" and "length a < REQ_ADDR_MAX" and "length u < REQ_URI_MAX"
  shows "update_state i a u None st = Some (st\<lparr>grid_addr := (grid_addr st)[i := padded REQ_ADDR_MAX NUL a],
       grid_uri := (grid_uri st)[i := padded REQ_URI_MAX NUL u]\<rparr>)"
    and "length h < BLOCKWISE_HDR_MAX \<Longrightarrow> update_state i a u (Some h) st =
      Some (st\<lparr>grid_addr := (grid_addr st)[i := padded REQ_ADDR_MAX NUL a],
       grid_uri := (grid_uri st)[i := padded REQ_URI_MAX NUL u],
       grid_hdr := (grid_hdr st)[i := padded BLOCKWISE_HDR_MAX 0 h],
       bw_states := (bw_states st)[i := Some (length h)]\<rparr>)"
proof -
  have "i < BLOCKWISE_STATES_MAX" using assms(1,2) by (rule state_is_valid_less)
  with assms(1) have "length (grid_addr st ! i) = REQ_ADDR_MAX" "length (grid_uri st ! i) = REQ_URI_MAX"
      "length (grid_hdr st ! i) = BLOCKWISE_HDR_MAX"
    by (simp_all add: bw_ok_def rows_ok_def)
  with assms(2-4) show "update_state i a u None st = Some (st\<lparr>grid_addr := (grid_addr st)[i := padded REQ_ADDR_MAX NUL a],
       grid_uri := (grid_uri st)[i := padded REQ_URI_MAX NUL u]\<rparr>)"
    and "length h < BLOCKWISE_HDR_MAX \<Longrightarrow> update_state i a u (Some h) st =
      Some (st\<lparr>grid_addr := (grid_addr st)[i := padded REQ_ADDR_MAX NUL a],
       grid_uri := (grid_uri st)[i := padded REQ_URI_MAX NUL u],
       grid_hdr := (grid_hdr st)[i := padded BLOCKWISE_HDR_MAX 0 h],
       bw_states := (bw_states st)[i := Some (length h)]\<rparr>)"
    by (simp_all add: update_state_def update_metadata_def padded_def Let_def)
qed

lemma clear_state_returns:
  assumes "bw_ok st" and "state_is_valid i st"
  shows "\<exists>st'. clear_state i st = Some st' \<and> bw_ok st' \<and> (\<forall>j. state_is_valid j st' = state_is_valid j st) \<and>
     bw_sd st' = bw_sd st \<and> bw_last st' = bw_last st"
proof -
  have i: "i < BLOCKWISE_STATES_MAX" using assms by (rule state_is_valid_less)
  have "clear_state i st \<noteq> None"
    using update_state_eq(2) [OF assms, of "[]" "[]" "[]"] by (simp add: clear_state_def bw_sizes)
  then obtain st' where st': "clear_state i st = Some st'" by blast
  moreover from this have "bw_ok st'" using assms(1) by (auto simp: clear_state_def intro: bw_ok_update_state)
  moreover have "(\<forall>j. state_is_valid j st' = state_is_valid j st) \<and> bw_sd st' = bw_sd st \<and> bw_last st' = bw_last st"
    using st' assms(2)
    by (auto simp: clear_state_def update_state_def bind_eq_Some_conv state_is_valid_def bw_state_def
        nth_list_update split: if_splits)
  ultimately show ?thesis by blast
qed

lemma release_slot_returns:
  assumes "bw_ok st" and "state_is_valid i st"
  shows "\<exists>st'. release_slot i st = Some st' \<and> bw_ok st' \<and>
     (\<forall>j. state_is_valid j st' \<longleftrightarrow> state_is_valid j st \<and> j \<noteq> i) \<and>
     bw_sd st' = bw_sd st \<and> bw_last st' = bw_last st"
proof -
  from clear_state_returns [OF assms] obtain t where t: "clear_state i st = Some t" "bw_ok t"
      "\<forall>j. state_is_valid j t = state_is_valid j st" "bw_sd t = bw_sd st" "bw_last t = bw_last st" by blast
  have "i < length (bw_states t)" using t(2) state_is_valid_less [OF assms] by (simp add: bw_ok_def)
  then have inv: "invalidate_state i t = Some (t\<lparr>bw_states := (bw_states t)[i := None]\<rparr>)"
    by (simp add: invalidate_state_def)
  moreover have "bw_ok (t\<lparr>bw_states := (bw_states t)[i := None]\<rparr>)" using bw_ok_invalidate [OF inv t(2)] .
  moreover have "state_is_valid j (t\<lparr>bw_states := (bw_states t)[i := None]\<rparr>) \<longleftrightarrow> state_is_valid j t \<and> j \<noteq> i" for j
    using \<open>i < length (bw_states t)\<close> by (auto simp: state_is_valid_def bw_state_def nth_list_update)
  ultimately show ?thesis using t by (simp add: release_slot_def)
qed

interpretation bw: slot_table bw_ok state_is_valid alloc_slot release_slot BLOCKWISE_STATES_MAX
proof
  show "\<And>s i s'. bw_ok s \<Longrightarrow> alloc_slot s = Some (i, s') \<Longrightarrow>
      i < BLOCKWISE_STATES_MAX \<and> \<not> state_is_valid i s \<and> bw_ok s' \<and> (\<forall>j. state_is_valid j s' \<longleftrightarrow> state_is_valid j s \<or> j = i)"
    by (rule alloc_slot_fresh)
  show "\<And>s. bw_ok s \<Longrightarrow> alloc_slot s = None \<longleftrightarrow> (\<forall>i < BLOCKWISE_STATES_MAX. state_is_valid i s)"
    by (rule alloc_slot_full)
  show "\<And>s i. bw_ok s \<Longrightarrow> state_is_valid i s \<Longrightarrow> i < BLOCKWISE_STATES_MAX" by (rule state_is_valid_less)
  show "\<And>s i. bw_ok s \<Longrightarrow> state_is_valid i s \<Longrightarrow>
      \<exists>s'. release_slot i s = Some s' \<and> bw_ok s' \<and> (\<forall>j. state_is_valid j s' \<longleftrightarrow> state_is_valid j s \<and> j \<noteq> i)"
    using release_slot_returns by blast
qed

section \<open>Properties\<close>

lemma bs_add_empty:
  assumes "bw_ok st" and "idx < BLOCKWISE_STATES_MAX" and "bw_sd st ! idx = []"
  shows "bs_add idx item st = Some (st\<lparr>bw_sd := (bw_sd st)[idx := [item]]\<rparr>)"
  using assms by (simp add: bs_add_def xs_len_def xs_add_def bw_ok_def)

lemma bs_add_emptied:
  assumes "bw_ok st" and "idx < BLOCKWISE_STATES_MAX"
  shows "bs_add idx item (bs_empty idx st) = Some (st\<lparr>bw_sd := (bw_sd st)[idx := [item]]\<rparr>)"
proof -
  have "idx < length (bw_sd st)" using assms by (simp add: bw_ok_def)
  then show ?thesis
    using bs_add_empty [OF bw_ok_bs_empty [OF assms(1)] assms(2), of idx item]
    by (simp add: bs_empty_def xs_empty_def)
qed

text \<open>
  A new blockwise transfer is refused exactly if all four slots are in use. Otherwise it gets
  a slot that was free, no other slot changes, and the first thing its stream delivers is the
  request for the given address and URI, whatever an earlier transfer left in the stream.
\<close>

lemma blockwise_new_slot:
  assumes "bw_ok st" and "length a \<le> REQ_ADDR_MAX" and "length u \<le> REQ_URI_MAX"
  shows "if \<forall>i < BLOCKWISE_STATES_MAX. state_is_valid i st
     then send_blockwise_new a u st = Some (Inl StateNotAvailable, st)
     else \<exists>i st'. send_blockwise_new a u st = Some (Inr i, st') \<and> i < BLOCKWISE_STATES_MAX \<and>
       \<not> state_is_valid i st \<and> (\<forall>j. state_is_valid j st' \<longleftrightarrow> state_is_valid j st \<or> j = i) \<and>
       fst (bs_poll_next i st') = Ready (Some \<lparr>rq_addr = a, rq_uri = u, rq_idx = i, rq_hdr = None\<rparr>)"
proof (cases "\<forall>i < BLOCKWISE_STATES_MAX. state_is_valid i st")
  case True
  then have "alloc_slot st = None" using bw.alloc_full [OF assms(1)] by blast
  with True show ?thesis by (simp add: send_blockwise_new_def)
next
  case False
  let ?req = "\<lambda>i. \<lparr>rq_addr = a, rq_uri = u, rq_idx = i, rq_hdr = None\<rparr>"
  from False obtain i t where t: "alloc_slot st = Some (i, t)" using bw.alloc_full [OF assms(1)] by force
  note fresh = bw.alloc_fresh [OF assms(1) t]
  then have "i < length (bw_sd t)" by (simp add: bw_ok_def)
  moreover have "send_blockwise_new a u st = Some (Inr i, t\<lparr>bw_sd := (bw_sd t)[i := [Some (?req i)]]\<rparr>)"
    using t fresh assms(2,3) bs_add_emptied [of t i] by (simp add: send_blockwise_new_def req_new_def)
  moreover have "state_is_valid j (t\<lparr>bw_sd := q\<rparr>) = state_is_valid j t" for j q
    by (simp add: state_is_valid_def bw_state_def)
  ultimately show ?thesis using False fresh
    by (auto simp: bs_poll_next_def xs_poll_next_def)
qed

lemma blockwise_new_slot_witness:
  "\<exists>i st'. send_blockwise_new ''[::1]:5683'' ''/const/song.txt'' bw_init = Some (Inr i, st') \<and>
     i < BLOCKWISE_STATES_MAX \<and> \<not> state_is_valid i bw_init \<and>
     fst (bs_poll_next i st') = Ready (Some \<lparr>rq_addr = ''[::1]:5683'', rq_uri = ''/const/song.txt'',
       rq_idx = i, rq_hdr = None\<rparr>)"
proof -
  have "\<not> state_is_valid 0 bw_init" by (simp add: state_is_valid_def bw_state_def bw_init_def bw_sizes)
  then have n: "\<not> (\<forall>i < BLOCKWISE_STATES_MAX. state_is_valid i bw_init)"
    by (metis BLOCKWISE_STATES_MAX_def zero_less_numeral)
  have "length ''[::1]:5683'' \<le> REQ_ADDR_MAX" "length ''/const/song.txt'' \<le> REQ_URI_MAX"
    by (simp_all add: REQ_ADDR_MAX_def REQ_URI_MAX_def)
  from blockwise_new_slot [OF bw_ok_init this] show ?thesis unfolding if_not_P [OF n] by blast
qed

text \<open>
  The header a blockwise request stores in its slot is the header that is copied back for
  sending: \<^verbatim>\<open>xbd_blockwise_hdr_copy\<close> returns its length and puts exactly its bytes at the front
  of the buffer; before a header is stored, it copies nothing and returns 0.
\<close>

lemma blockwise_hdr_roundtrip:
  assumes "bw_ok st" and "state_is_valid i st" and "length a < REQ_ADDR_MAX" and "length u < REQ_URI_MAX"
    and "length h < BLOCKWISE_HDR_MAX" and "length h \<le> length buf"
  shows "\<exists>st'. update_state i a u (Some h) st = Some st' \<and>
     xbd_blockwise_hdr_copy buf i st' = Some (length h, h @ drop (length h) buf)"
proof -
  have "i < BLOCKWISE_STATES_MAX" using assms(1,2) by (rule state_is_valid_less)
  then have "i < length (bw_states st)" "i < length (grid_hdr st)" using assms(1) by (simp_all add: bw_ok_def)
  with update_state_eq(2) [OF assms(1-5)] assms(5,6) show ?thesis
    by (auto simp: xbd_blockwise_hdr_copy_def bw_state_def padded_def mem_write_def)
qed

lemma blockwise_hdr_roundtrip_witness:
  "\<exists>st'. update_state 1 ''::1'' ''/a'' (Some [64, 1, 0]) (bw_init\<lparr>bw_states := [None, Some 0, None, None]\<rparr>) = Some st' \<and>
     xbd_blockwise_hdr_copy (replicate 5 9) 1 st' = Some (3, [64, 1, 0, 9, 9])"
proof -
  let ?st = "bw_init\<lparr>bw_states := [None, Some 0, None, None]\<rparr>"
  have "bw_ok ?st" using bw_ok_init by (simp add: bw_ok_def bw_sizes)
  moreover have "state_is_valid 1 ?st" by (simp add: state_is_valid_def bw_state_def)
  ultimately show ?thesis
    using blockwise_hdr_roundtrip [of ?st 1 "''::1''" "''/a''" "[64, 1, 0]" "replicate 5 9"]
    by (auto simp: REQ_ADDR_MAX_def REQ_URI_MAX_def BLOCKWISE_HDR_MAX_def numeral_eq_Suc)
qed

text \<open>
  A transfer that has completed cannot be closed: \<^verbatim>\<open>close\<close> clears a slot that is no longer in
  use and panics, so a caller must not close a stream whose last block has arrived.
\<close>

lemma blockwise_close_after_complete:
  assumes "send_blockwise_complete i st = Some st'"
  shows "bs_close i st' = None"
proof -
  from assms obtain t where t: "release_slot i st = Some t" "bs_add i None t = Some st'"
    by (auto simp: send_blockwise_complete_def bind_eq_Some_conv)
  then have "\<not> state_is_valid i t"
    by (auto simp: release_slot_def invalidate_state_def bind_eq_Some_conv state_is_valid_def bw_state_def
        split: if_splits)
  moreover have "state_is_valid i st' = state_is_valid i t"
    using t(2) by (auto simp: bs_add_def bind_eq_Some_conv state_is_valid_def bw_state_def split: if_splits)
  ultimately show ?thesis by (simp add: bs_close_def release_slot_def clear_state_def update_state_def)
qed

lemma blockwise_close_after_complete_witness:
  "\<exists>st'. send_blockwise_complete 0 (bw_init\<lparr>bw_states := [Some 0, None, None, None]\<rparr>) = Some st' \<and>
     bs_close 0 st' = None"
proof -
  let ?st = "bw_init\<lparr>bw_states := [Some 0, None, None, None]\<rparr>"
  have ok: "bw_ok ?st" using bw_ok_init by (simp add: bw_ok_def bw_sizes)
  have v: "state_is_valid 0 ?st" by (simp add: state_is_valid_def bw_state_def)
  from release_slot_returns [OF ok v] obtain t where t: "release_slot 0 ?st = Some t" "bw_ok t" "bw_sd t = bw_sd ?st"
    by blast
  moreover from t(3) have "bw_sd t ! 0 = []" by (simp add: bw_init_def bw_sizes)
  ultimately have "\<exists>st'. send_blockwise_complete 0 ?st = Some st'"
    using bs_add_empty [of t 0 None] by (simp add: send_blockwise_complete_def BLOCKWISE_STATES_MAX_def)
  with blockwise_close_after_complete show ?thesis by blast
qed

end
