(* ===== verification/Xbd_Gcoap.thy ===== *)
theory Xbd_Gcoap
  imports Gcoap_Client Blockwise_Store
begin

text \<open>
  The asynchronous CoAP client of \<^verbatim>\<open>examples/xbd-net\<close>: \<^verbatim>\<open>modules/minerva_xbd/gcoap.c\<close>, which
  sends requests and handles responses, between the Rust futures of \<^verbatim>\<open>src/xbd/gcoap.rs\<close> on one
  side and the blockwise store on the other. A request is a future with a state; its address is
  the context that goes through the library and comes back with the response, here an index
  into the list of futures.

  The response packet, its payload pointer and the follow-up request share one buffer, so the
  buffer is explicit: the follow-up is written into it before the payload is copied out.
\<close>

section \<open>Data\<close>

datatype gmemo_state = MResp "bytes option" | MTimeout | MErr | MRespTrunc "bytes option"

text \<open>\<^verbatim>\<open>FutureState\<close>; \<open>FTaken\<close> is \<^verbatim>\<open>Resolved(None)\<close>, after the value was taken.\<close>

datatype fstate = FNew | FRegistered | FResolved gmemo_state | FTaken

record xbd_app =
  xg :: gcoap_app
  xb :: bw_store
  xf :: "fstate list"

definition PAYLOAD_OUT_MAX :: nat where "PAYLOAD_OUT_MAX = 128"

definition xprintf :: "string \<Rightarrow> xbd_app \<Rightarrow> xbd_app" where
  "xprintf t s = s\<lparr>xg := gprintf t (xg s)\<rparr>"

lemma xprintf_simps [simp]:
  "xg (xprintf t s) = gprintf t (xg s)" "xb (xprintf t s) = xb s" "xf (xprintf t s) = xf s"
  by (simp_all add: xprintf_def)

section \<open>Sending\<close>

definition xbd_send ::
  "gcoap_env \<Rightarrow> bytes \<Rightarrow> u32 \<Rightarrow> string \<Rightarrow> gctx \<Rightarrow> gcoap_app \<Rightarrow> (u32 \<times> gcoap_app) option" where
  "xbd_send env buf len addr_str ctx g =
     (let (remote, g) = resolve env addr_str g in
      case remote of
        None \<Rightarrow> Some (0, g)
      | Some ep \<Rightarrow> do {
          (n, g) \<leftarrow> gcoap_req_send env buf len ep XbdHandler ctx g;
          let bytes_sent = word_of_int n;
          Some (bytes_sent, count_sent bytes_sent g)
        })"

text \<open>The header of the message: the one stored for a later block, or a new one.\<close>

definition xbd_new_header ::
  "gcoap_env \<Rightarrow> string \<Rightarrow> u8 \<Rightarrow> bool \<Rightarrow> gcoap_app \<Rightarrow> u32 \<times> bytes \<times> gcoap_app" where
  "xbd_new_header env uri method has_payload g =
     (let pk = set_type env COAP_TYPE_NON (req_init env (g_log g) (stack_buf env) method (Some uri));
          g = gemit GReqInit g;
          (n, pk) = opt_finish env has_payload pk
      in (word_of_int n, pk_buf pk,
          gprintf (''@@ sending msg (ID='' @ dec (unat (get_id env pk)) @ '')'' @ nl) g))"

definition xbd_header ::
  "gcoap_env \<Rightarrow> string \<Rightarrow> u8 \<Rightarrow> bool \<Rightarrow> bool \<Rightarrow> nat \<Rightarrow> xbd_app \<Rightarrow> (u32 \<times> bytes \<times> gcoap_app) option" where
  "xbd_header env uri method has_payload blockwise idx s =
     (if blockwise then do {
        (n, buf) \<leftarrow> xbd_blockwise_hdr_copy (stack_buf env) idx (xb s);
        if n \<noteq> 0 then
          Some (word_of_nat n, buf, gprintf (''@@ sending non-first msg (idx='' @ dec idx @ '')'' @ nl) (xg s))
        else Some (xbd_new_header env uri method has_payload (xg s))
      }
      else Some (xbd_new_header env uri method has_payload (xg s)))"

definition xbd_req_log ::
  "gcoap_env \<Rightarrow> string \<Rightarrow> string \<Rightarrow> u32 \<Rightarrow> bool \<Rightarrow> nat \<Rightarrow> bytes option \<Rightarrow> nat \<Rightarrow> gcoap_app \<Rightarrow> gcoap_app" where
  "xbd_req_log env addr_str uri hdr_len blockwise idx payload payload_len g =
     (let g = gprintf (''@@ xbd_gcoap_req_send(): addr: '' @ addr_str @ '', uri: '' @ uri @
            '' hdr_len: '' @ dec (unat hdr_len) @ nl) g;
          g = (if blockwise then gprintf (''@@ debug - blockwise_state_index: '' @ dec idx @ nl) g else g)
      in gprintf (''@@ payload: '' @ fmt_ptr env payload @ '' payload_len: '' @ dec payload_len @ nl) g)"

definition xbd_gcoap_req_send ::
  "gcoap_env \<Rightarrow> string \<Rightarrow> string \<Rightarrow> u8 \<Rightarrow> bytes option \<Rightarrow> bool \<Rightarrow> nat \<Rightarrow> gctx \<Rightarrow> xbd_app \<Rightarrow> xbd_app option" where
  "xbd_gcoap_req_send env addr_str uri method payload blockwise idx ctx s =
     (let data = (case payload of None \<Rightarrow> [] | Some p \<Rightarrow> p) in
      do {
        (hdr_len, buf, g) \<leftarrow> xbd_header env uri method (data \<noteq> []) blockwise idx s;
        let g = xbd_req_log env addr_str uri hdr_len blockwise idx payload (length data) g;
        buf \<leftarrow> (if data \<noteq> [] then mem_write (unat hdr_len) data buf else Some buf);
        (sent, g) \<leftarrow> xbd_send env buf (hdr_len + word_of_nat (length data)) addr_str ctx g;
        g \<leftarrow> (if sent = 0 then Some (gputs ''gcoap_cli: msg send failed'' g) else notify_observers env g);
        Some (s\<lparr>xg := g\<rparr>)
      })"

section \<open>Responses\<close>

definition xbd_resp_report :: "gcoap_env \<Rightarrow> gmemo \<Rightarrow> coap_pkt \<Rightarrow> xbd_app \<Rightarrow> xbd_app" where
  "xbd_resp_report env memo pk s = s\<lparr>xg := snd (resp_report env memo pk (xg s))\<rparr>"

text \<open>The request for the next block, as it is encoded into the buffer of the response.\<close>

definition next_block_packet :: "gcoap_env \<Rightarrow> string \<Rightarrow> coap_pkt \<Rightarrow> coap_block \<Rightarrow> glog \<Rightarrow> int \<times> coap_pkt" where
  "next_block_packet env uri pk b log =
     (let msg_type = get_type env pk;
          pk = req_init env log (pk_buf pk) 1 (Some uri);
          pk = (if msg_type = COAP_TYPE_ACK then set_type env COAP_TYPE_CON pk else pk)
      in opt_finish env False (opt_add env (Block2 (b\<lparr>blknum := blknum b + 1\<rparr>)) pk))"

text \<open>\<^verbatim>\<open>_resp_handler_blockwise_async\<close>; it returns the buffer too.\<close>

definition resp_handler_blockwise_async ::
  "gcoap_env \<Rightarrow> coap_pkt \<Rightarrow> coap_block \<Rightarrow> xbd_app \<Rightarrow> (bytes \<times> xbd_app) option" where
  "resp_handler_blockwise_async env pk b s =
     do {
       idx \<leftarrow> xbd_blockwise_state_index (xb s);
       if more_blocks b then do {
         addr_row \<leftarrow> xbd_blockwise_addr_ptr idx (xb s);
         uri_row \<leftarrow> xbd_blockwise_uri_ptr idx (xb s);
         if \<not> nul_terminated addr_row \<or> \<not> nul_terminated uri_row then None
         else if blknum b = 0 \<and> cstr uri_row = []
         then Some (pk_buf pk, xprintf (''Path too long; can't complete blockwise'' @ nl) s)
         else
           (let (n, pk) = next_block_packet env (cstr uri_row) pk b (g_log (xg s));
                len = (word_of_int n :: u32);
                s = s\<lparr>xg := gemit GReqInit (xg s)\<rparr>
            in if length (pk_buf pk) < unat len then None
               else do {
                 st \<leftarrow> send_blockwise_next idx (cstr addr_row) (cstr uri_row) (take (unat len) (pk_buf pk)) (xb s);
                 Some (pk_buf pk, s\<lparr>xb := st\<rparr>)
               })
       }
       else do {
         let s = xprintf (''--- blockwise complete ---'' @ nl) s;
         st \<leftarrow> send_blockwise_complete idx (xb s);
         Some (pk_buf pk, s\<lparr>xb := st\<rparr>)
       }
     }"

text \<open>
  \<^verbatim>\<open>xbd_resp_handler\<close>: the memo state, the payload pointer (an offset into the buffer, or
  \<^verbatim>\<open>NULL\<close>) with its length, the context, the buffer and the state.
\<close>

definition xbd_resp_handler ::
  "gcoap_env \<Rightarrow> gmemo \<Rightarrow> coap_pkt \<Rightarrow> xbd_app \<Rightarrow>
   (memo_state \<times> nat option \<times> nat \<times> gctx \<times> bytes \<times> xbd_app) option" where
  "xbd_resp_handler env memo pk s =
     (let s = xbd_resp_report env memo pk s;
          s = xprintf (''@@ memo->state: '' @ dec (unat (memo_num (memo_st memo))) @ nl) s;
          (ptr, len) =
            (if memo_st memo \<noteq> GCOAP_MEMO_RESP_TRUNC \<and> memo_st memo \<noteq> GCOAP_MEMO_RESP then (None, 0)
             else (if pk_payload_len pk \<noteq> 0 then Some (pk_payload pk) else None, pk_payload_len pk))
      in do {
           (buf, s) \<leftarrow> (case get_block2 env pk of
                         None \<Rightarrow> Some (pk_buf pk, s)
                       | Some b \<Rightarrow> resp_handler_blockwise_async env pk b s);
           Some (memo_st memo, ptr, len, memo_ctx memo, buf, s)
         })"

section \<open>Futures\<close>

fun memo_new :: "memo_state \<Rightarrow> bytes option \<Rightarrow> gmemo_state option" where
  "memo_new GCOAP_MEMO_RESP p = Some (MResp p)"
| "memo_new GCOAP_MEMO_TIMEOUT p = Some MTimeout"
| "memo_new GCOAP_MEMO_ERR p = Some MErr"
| "memo_new GCOAP_MEMO_RESP_TRUNC p = Some (MRespTrunc p)"
| "memo_new _ p = None"

fun fstat_resolve :: "gctx \<Rightarrow> gmemo_state \<Rightarrow> xbd_app \<Rightarrow> xbd_app option" where
  "fstat_resolve (Fstat k) m s =
     (if k < length (xf s) \<and> xf s ! k = FRegistered then Some (s\<lparr>xf := (xf s)[k := FResolved m]\<rparr>) else None)"
| "fstat_resolve NoCtx m s = None"

definition copy_payload :: "nat option \<Rightarrow> nat \<Rightarrow> bytes \<Rightarrow> bytes option option" where
  "copy_payload ptr len buf =
     (if 0 < len then
        (case ptr of
           None \<Rightarrow> None
         | Some off \<Rightarrow>
             if length buf < off + len \<or> PAYLOAD_OUT_MAX < len then None
             else Some (Some (take len (drop off buf))))
      else if ptr = None then Some None else None)"

definition gcoap_req_resp_handler :: "gcoap_env \<Rightarrow> gmemo \<Rightarrow> coap_pkt \<Rightarrow> xbd_app \<Rightarrow> xbd_app option" where
  "gcoap_req_resp_handler env memo pk s =
     do {
       (state, ptr, len, ctx, buf, s) \<leftarrow> xbd_resp_handler env memo pk s;
       payload \<leftarrow> copy_payload ptr len buf;
       m \<leftarrow> memo_new state payload;
       fstat_resolve ctx m s
     }"

text \<open>
  \<^verbatim>\<open>gcoap_req\<close> copies both strings into heapless strings with room for the limit and a terminator and
  hands pointers to C, which reads them up to the first NUL.
\<close>

definition gcoap_req ::
  "gcoap_env \<Rightarrow> string \<Rightarrow> string \<Rightarrow> u8 \<Rightarrow> bytes option \<Rightarrow> bool \<Rightarrow> nat option \<Rightarrow> gctx \<Rightarrow> xbd_app \<Rightarrow> xbd_app option" where
  "gcoap_req env a u method payload blockwise idx ctx s =
     (if REQ_ADDR_MAX < length a \<or> REQ_URI_MAX < length u \<or> blockwise \<noteq> (idx \<noteq> None) then None
      else xbd_gcoap_req_send env (cstr (a @ [NUL])) (cstr (u @ [NUL])) method payload blockwise
        (case idx of None \<Rightarrow> 0 | Some i \<Rightarrow> i) ctx s)"

text \<open>The plain methods; POST and PUT unwrap their payload, any other method panics.\<close>

definition gcoap_method ::
  "gcoap_env \<Rightarrow> u8 \<Rightarrow> string \<Rightarrow> string \<Rightarrow> bytes option \<Rightarrow> gctx \<Rightarrow> xbd_app \<Rightarrow> xbd_app option" where
  "gcoap_method env method a u payload ctx s =
     (if method = 1 then gcoap_req env a u 1 None False None ctx s
      else if method = 2 \<or> method = 3 then payload \<bind> (\<lambda>p. gcoap_req env a u method (Some p) False None ctx s)
      else None)"

text \<open>\<^verbatim>\<open>ReqInner::poll\<close> of a blockwise request, and of a plain one.\<close>

definition poll_blockwise :: "gcoap_env \<Rightarrow> breq \<Rightarrow> nat \<Rightarrow> xbd_app \<Rightarrow> (gmemo_state poll \<times> xbd_app) option" where
  "poll_blockwise env req k s =
     (if length (xf s) \<le> k then None
      else
        (case xf s ! k of
           FNew \<Rightarrow>
             (let s = s\<lparr>xf := (xf s)[k := FRegistered]\<rparr>; idx = rq_idx req in
              if state_is_valid idx (xb s) then do {
                st \<leftarrow> update_state idx (rq_addr req) (rq_uri req) (rq_hdr req) ((xb s)\<lparr>bw_last := Some idx\<rparr>);
                s \<leftarrow> gcoap_req env (rq_addr req) (rq_uri req) 1 None True (Some idx) (Fstat k) (s\<lparr>xb := st\<rparr>);
                Some (Pending, s)
              }
              else Some (Ready MErr, s\<lparr>xb := (xb s)\<lparr>bw_last := None\<rparr>\<rparr>))
         | FResolved m \<Rightarrow> Some (Ready m, s\<lparr>xf := (xf s)[k := FTaken]\<rparr>)
         | _ \<Rightarrow> None))"

definition poll_plain ::
  "gcoap_env \<Rightarrow> u8 \<Rightarrow> string \<Rightarrow> string \<Rightarrow> bytes option \<Rightarrow> nat \<Rightarrow> xbd_app \<Rightarrow> (gmemo_state poll \<times> xbd_app) option" where
  "poll_plain env method a u payload k s =
     (if length (xf s) \<le> k then None
      else
        (case xf s ! k of
           FNew \<Rightarrow> do {
             s \<leftarrow> gcoap_method env method a u payload (Fstat k) (s\<lparr>xf := (xf s)[k := FRegistered]\<rparr>);
             Some (Pending, s)
           }
         | FResolved m \<Rightarrow> Some (Ready m, s\<lparr>xf := (xf s)[k := FTaken]\<rparr>)
         | _ \<Rightarrow> None))"

definition fut_new :: "xbd_app \<Rightarrow> nat \<times> xbd_app" where
  "fut_new s = (length (xf s), s\<lparr>xf := xf s @ [FNew]\<rparr>)"

definition xbd_start :: xbd_app where
  "xbd_start = \<lparr>xg = gcoap_start, xb = bw_init, xf = []\<rparr>"

section \<open>Lemmas\<close>

definition c_string :: "nat \<Rightarrow> string \<Rightarrow> bool" where
  "c_string n t \<longleftrightarrow> NUL \<notin> set t \<and> length t < n"

lemma gcoap_req_c_string:
  assumes "c_string REQ_ADDR_MAX a" and "c_string REQ_URI_MAX u"
  shows "gcoap_req env a u m p True (Some i) ctx s = xbd_gcoap_req_send env a u m p True i ctx s"
    and "gcoap_req env a u m p False None ctx s = xbd_gcoap_req_send env a u m p False 0 ctx s"
  using assms by (simp_all add: gcoap_req_def c_string_def cstr_append_NUL)

lemma gcoap_method_plain:
  assumes "c_string REQ_ADDR_MAX a" and "c_string REQ_URI_MAX u"
  shows "gcoap_method env 1 a u p ctx s = xbd_gcoap_req_send env a u 1 None False 0 ctx s"
    and "m \<in> {2, 3} \<Longrightarrow> gcoap_method env m a u (Some d) ctx s = xbd_gcoap_req_send env a u m (Some d) False 0 ctx s"
  using gcoap_req_c_string [OF assms] by (auto simp: gcoap_method_def)

lemma reqs_xbd_req_log [simp]: "reqs (xbd_req_log env a u l b i p n g) = reqs g"
  by (simp add: xbd_req_log_def Let_def)

lemma xbd_send_request:
  assumes "unat len \<le> length buf" and "\<forall>log. name2ep env log zero_ep a = (0, ep)"
  shows "\<exists>n g'. xbd_send env buf len a ctx g = Some (n, g') \<and>
     reqs g' = reqs g @ [GReq (take (unat len) buf) (default_port env ep) XbdHandler ctx]"
  using assms by (auto simp: xbd_send_def resolve_def gcoap_req_send_def Let_def)

text \<open>Sending a message without payload whose header is \<open>take (unat len) buf\<close>.\<close>

lemma xbd_gcoap_req_send_request:
  assumes env: "client_env env" and name: "\<forall>log. name2ep env log zero_ep a = (0, ep)"
    and hdr: "xbd_header env u m False blockwise idx s = Some (len, buf, g)" "unat len \<le> length buf" "reqs g = reqs (xg s)"
  shows "\<exists>s'. xbd_gcoap_req_send env a u m None blockwise idx ctx s = Some s' \<and> xb s' = xb s \<and> xf s' = xf s \<and>
     reqs (xg s') = reqs (xg s) @ [GReq (take (unat len) buf) (default_port env ep) XbdHandler ctx]"
proof -
  define g1 where "g1 = xbd_req_log env a u len blockwise idx None 0 g"
  have g1: "reqs g1 = reqs (xg s)" using hdr(3) by (simp add: g1_def)
  from xbd_send_request [OF hdr(2) name] obtain n g2 where g2: "xbd_send env buf len a ctx g1 = Some (n, g2)"
      "reqs g2 = reqs (xg s) @ [GReq (take (unat len) buf) (default_port env ep) XbdHandler ctx]"
    unfolding g1 [symmetric] by blast
  obtain g3 where g3: "notify_observers env g2 = Some g3" using notify_returns [OF env] by blast
  have "xbd_gcoap_req_send env a u m None blockwise idx ctx s =
      Some (s\<lparr>xg := if n = 0 then gputs ''gcoap_cli: msg send failed'' g2 else g3\<rparr>)"
    using hdr(1) g2(1) g3 by (simp add: xbd_gcoap_req_send_def Let_def flip: g1_def)
  then show ?thesis using g2(2) notify_frame [OF g3] by simp
qed

lemma xbd_header_stored:
  assumes "bw_state idx (xb s) = Some (length h)" and "take (length h) (grid_hdr (xb s) ! idx) = h"
    and "h \<noteq> []" and "length h \<le> pdu_buf_size env"
  shows "xbd_header env u m p True idx s = Some (word_of_nat (length h), h @ drop (length h) (stack_buf env),
     gprintf (''@@ sending non-first msg (idx='' @ dec idx @ '')'' @ nl) (xg s))"
proof -
  from assms(2) have "length h \<le> length (grid_hdr (xb s) ! idx)" by (metis length_take min.cobounded1)
  with assms show ?thesis
    by (auto simp: xbd_header_def xbd_blockwise_hdr_copy_def mem_write_def)
qed

text \<open>The message a first blockwise request sends, and that it fits its buffer.\<close>

definition first_packet :: "gcoap_env \<Rightarrow> string \<Rightarrow> glog \<Rightarrow> int \<times> coap_pkt" where
  "first_packet env u log =
     opt_finish env False (set_type env COAP_TYPE_NON (req_init env log (stack_buf env) 1 (Some u)))"

lemma first_packet_size:
  assumes "client_env env" and "first_packet env u log = (n, pk)"
  shows "0 \<le> n \<and> nat n \<le> pdu_buf_size env \<and> length (pk_buf pk) = pdu_buf_size env \<and> n < 2 ^ 30"
proof -
  let ?pk = "set_type env COAP_TYPE_NON (req_init env log (stack_buf env) 1 (Some u))"
  have size: "length (pk_buf ?pk) = pdu_buf_size env" using assms(1) by (simp add: client_env_def init_law_def)
  with assms have n: "0 \<le> n" unfolding client_env_def headers_fit_def first_packet_def by (metis fst_conv)
  from assms have law: "finish_law env" and max: "pdu_buf_size env < 2 ^ 30"
    and f: "opt_finish env False ?pk = (n, pk)"
    by (simp_all add: client_env_def headers_fit_def first_packet_def)
  from finish_size [OF law f n size] n max show ?thesis by auto
qed

lemma unat_word_of_int: "0 \<le> n \<Longrightarrow> n < 2 ^ 32 \<Longrightarrow> unat (word_of_int n :: u32) = nat n"
  using unat_small_sum [of n 0] by simp

lemma xbd_header_first:
  assumes "client_env env" and "bw_state idx (xb s) = Some 0" and "first_packet env u (g_log (xg s)) = (n, pk)"
  shows "\<exists>g. xbd_header env u 1 False True idx s = Some (word_of_int n, pk_buf pk, g) \<and> reqs g = reqs (xg s)"
  using assms by (simp add: xbd_header_def xbd_blockwise_hdr_copy_def xbd_new_header_def first_packet_def Let_def)

section \<open>Polling a blockwise request\<close>

text \<open>What a slot holds while the transfer of \<open>u\<close> from \<open>a\<close> runs in it.\<close>

definition slot_holds :: "nat \<Rightarrow> string \<Rightarrow> string \<Rightarrow> bw_store \<Rightarrow> bool" where
  "slot_holds i a u st \<longleftrightarrow> bw_ok st \<and> state_is_valid i st \<and>
     cstr (grid_addr st ! i) = a \<and> cstr (grid_uri st ! i) = u"

text \<open>The header of a request fits its slot; the first request has none and a fresh slot.\<close>

definition hdr_fits :: "gcoap_env \<Rightarrow> nat \<Rightarrow> bytes option \<Rightarrow> bw_store \<Rightarrow> bool" where
  "hdr_fits env i h st = (case h of
     None \<Rightarrow> bw_state i st = Some 0
   | Some x \<Rightarrow> x \<noteq> [] \<and> length x < BLOCKWISE_HDR_MAX \<and> length x \<le> pdu_buf_size env)"

definition request_message :: "gcoap_env \<Rightarrow> breq \<Rightarrow> glog \<Rightarrow> bytes" where
  "request_message env req log = (case rq_hdr req of
     Some h \<Rightarrow> h
   | None \<Rightarrow> (let (n, pk) = first_packet env (rq_uri req) log in take (nat n) (pk_buf pk)))"

lemma cstr_padded: "c_string n t \<Longrightarrow> cstr (padded n NUL t) = t"
proof -
  assume t: "c_string n t"
  then obtain m where "n - length t = Suc m" by (cases "n - length t") (auto simp: c_string_def)
  with t show ?thesis by (simp add: padded_def c_string_def cstr_append_NUL)
qed

text \<open>Storing a request in its slot.\<close>

lemma update_state_request:
  assumes "bw_ok st" and "state_is_valid i st" and "c_string REQ_ADDR_MAX a" and "c_string REQ_URI_MAX u"
    and "hdr_fits env i h st"
  shows "\<exists>st'. update_state i a u h st = Some st' \<and> slot_holds i a u st' \<and> bw_sd st' = bw_sd st \<and>
     bw_last st' = bw_last st \<and> (\<forall>j. state_is_valid j st' = state_is_valid j st) \<and>
     (case h of None \<Rightarrow> bw_state i st' = Some 0
      | Some x \<Rightarrow> bw_state i st' = Some (length x) \<and> take (length x) (grid_hdr st' ! i) = x)"
proof -
  have i: "i < BLOCKWISE_STATES_MAX" using assms(1,2) by (rule state_is_valid_less)
  then have len: "i < length (grid_addr st)" "i < length (grid_uri st)" "i < length (grid_hdr st)" "i < length (bw_states st)"
    using assms(1) by (simp_all add: bw_ok_def rows_ok_def)
  have l: "length a < REQ_ADDR_MAX" "length u < REQ_URI_MAX" using assms(3,4) by (simp_all add: c_string_def)
  note pad = cstr_padded [OF assms(3)] cstr_padded [OF assms(4)]
  show ?thesis
  proof (cases h)
    case None
    note eq = update_state_eq(1) [OF assms(1,2) l]
    from bw_ok_update_state [OF eq assms(1)] eq None assms(2,5) len pad show ?thesis
      by (auto simp: slot_holds_def hdr_fits_def state_is_valid_def bw_state_def)
  next
    case (Some x)
    with assms(5) have "length x < BLOCKWISE_HDR_MAX" by (simp add: hdr_fits_def)
    note eq = update_state_eq(2) [OF assms(1,2) l this]
    from bw_ok_update_state [OF eq assms(1)] eq Some assms(2) len pad show ?thesis
      by (auto simp: slot_holds_def state_is_valid_def bw_state_def padded_def nth_list_update)
  qed
qed

lemma bw_last_frame [simp]:
  "bw_ok (st\<lparr>bw_last := l\<rparr>) = bw_ok st" "state_is_valid i (st\<lparr>bw_last := l\<rparr>) = state_is_valid i st"
  "hdr_fits env i h (st\<lparr>bw_last := l\<rparr>) = hdr_fits env i h st"
  by (simp_all add: bw_ok_def state_is_valid_def bw_state_def hdr_fits_def split: option.splits)

lemma bw_sd_frame [simp]:
  "bw_state i (st\<lparr>bw_sd := q\<rparr>) = bw_state i st" "state_is_valid i (st\<lparr>bw_sd := q\<rparr>) = state_is_valid i st"
  "hdr_fits env i h (st\<lparr>bw_sd := q\<rparr>) = hdr_fits env i h st"
  by (simp_all add: state_is_valid_def bw_state_def hdr_fits_def split: option.splits)

lemma poll_blockwise_sends:
  assumes env: "client_env env" and name: "\<forall>log. name2ep env log zero_ep a = (0, ep)"
    and k: "k < length (xf s)" "xf s ! k = FNew"
    and st: "bw_ok (xb s)" "state_is_valid i (xb s)"
    and lens: "c_string REQ_ADDR_MAX a" "c_string REQ_URI_MAX u" and fits: "hdr_fits env i h (xb s)"
  defines "req \<equiv> \<lparr>rq_addr = a, rq_uri = u, rq_idx = i, rq_hdr = h\<rparr>"
  shows "\<exists>s'. poll_blockwise env req k s = Some (Pending, s') \<and> xf s' = (xf s)[k := FRegistered] \<and>
     bw_last (xb s') = Some i \<and> slot_holds i a u (xb s') \<and> bw_sd (xb s') = bw_sd (xb s) \<and>
     (\<forall>j. state_is_valid j (xb s') = state_is_valid j (xb s)) \<and>
     reqs (xg s') = reqs (xg s) @
       [GReq (request_message env req (g_log (xg s))) (default_port env ep) XbdHandler (Fstat k)]"
proof -
  from update_state_request [of "(xb s)\<lparr>bw_last := Some i\<rparr>" i a u env h] st lens fits obtain st' where
    u: "update_state i a u h ((xb s)\<lparr>bw_last := Some i\<rparr>) = Some st'" "slot_holds i a u st'" "bw_sd st' = bw_sd (xb s)"
      "bw_last st' = Some i" "\<forall>j. state_is_valid j st' = state_is_valid j (xb s)"
      "case h of None \<Rightarrow> bw_state i st' = Some 0
       | Some x \<Rightarrow> bw_state i st' = Some (length x) \<and> take (length x) (grid_hdr st' ! i) = x" by auto
  let ?s = "s\<lparr>xf := (xf s)[k := FRegistered], xb := st'\<rparr>"
  have "\<exists>len buf g. xbd_header env u 1 False True i ?s = Some (len, buf, g) \<and> unat len \<le> length buf \<and>
      reqs g = reqs (xg s) \<and> take (unat len) buf = request_message env req (g_log (xg s))"
  proof (cases h)
    case None
    obtain n pk where f: "first_packet env u (g_log (xg s)) = (n, pk)" by fastforce
    note size = first_packet_size [OF env f]
    then have "unat (word_of_int n :: u32) = nat n" by (intro unat_word_of_int) auto
    with size f None u(6) show ?thesis
      using xbd_header_first [OF env, of i ?s u n pk] by (auto simp: request_message_def req_def)
  next
    case (Some x)
    with fits have x: "x \<noteq> []" "length x < BLOCKWISE_HDR_MAX" "length x \<le> pdu_buf_size env" by (simp_all add: hdr_fits_def)
    then have "unat (word_of_nat (length x) :: u32) = length x" by (simp add: BLOCKWISE_HDR_MAX_def unat_of_nat take_bit_nat_eq_self)
    with x Some u(6) show ?thesis
      using xbd_header_stored [of i ?s x env u 1 False] by (simp add: request_message_def req_def)
  qed
  then obtain len buf g where "xbd_header env u 1 False True i ?s = Some (len, buf, g)" "unat len \<le> length buf"
      "reqs g = reqs (xg ?s)" and msg: "take (unat len) buf = request_message env req (g_log (xg s))" by auto
  from xbd_gcoap_req_send_request [OF env name this(1-3), of "Fstat k"] obtain s' where
      "xbd_gcoap_req_send env a u 1 None True i (Fstat k) ?s = Some s'" "xb s' = st'" "xf s' = (xf s)[k := FRegistered]"
      "reqs (xg s') = reqs (xg s) @ [GReq (take (unat len) buf) (default_port env ep) XbdHandler (Fstat k)]" by auto
  with k st(2) u msg lens show ?thesis by (simp add: poll_blockwise_def req_def gcoap_req_c_string)
qed

section \<open>A response\<close>

text \<open>The payload a future is resolved with, read from the buffer as it is then.\<close>

definition delivered :: "coap_pkt \<Rightarrow> bytes \<Rightarrow> bytes option" where
  "delivered pk buf =
     (if pk_payload_len pk = 0 then None else Some (take (pk_payload_len pk) (drop (pk_payload pk) buf)))"

text \<open>The follow-up header for a response fits the slot.\<close>

definition next_fits :: "gcoap_env \<Rightarrow> string \<Rightarrow> coap_pkt \<Rightarrow> coap_block \<Rightarrow> bool" where
  "next_fits env u pk b \<longleftrightarrow> (\<forall>log. case next_block_packet env u pk b log of (n, pk1) \<Rightarrow>
     0 < n \<and> nat n < BLOCKWISE_HDR_MAX \<and> length (pk_buf pk1) = length (pk_buf pk) \<and> nat n \<le> length (pk_buf pk1))"

text \<open>A received packet whose payload lies in its buffer and fits the future's vector.\<close>

definition payload_ok :: "coap_pkt \<Rightarrow> bool" where
  "payload_ok pk \<longleftrightarrow> pk_payload pk + pk_payload_len pk \<le> length (pk_buf pk) \<and> pk_payload_len pk \<le> PAYLOAD_OUT_MAX"

lemma reqs_xbd_resp_report [simp]:
  "reqs (xg (xbd_resp_report env memo pk s)) = reqs (xg s)" "xb (xbd_resp_report env memo pk s) = xb s"
  "xf (xbd_resp_report env memo pk s) = xf s"
  by (simp_all add: xbd_resp_report_def)

lemma copy_payload_delivered:
  assumes "payload_ok pk" and "length buf = length (pk_buf pk)"
  shows "copy_payload (if pk_payload_len pk \<noteq> 0 then Some (pk_payload pk) else None) (pk_payload_len pk) buf =
     Some (delivered pk buf)"
  using assms by (simp add: copy_payload_def payload_ok_def delivered_def)

lemma async_next:
  assumes slot: "slot_holds i a u (xb s)" "bw_last (xb s) = Some i" "bw_sd (xb s) ! i = []"
    and lens: "length a \<le> REQ_ADDR_MAX" "length u \<le> REQ_URI_MAX" "u \<noteq> []"
    and b: "more_blocks b" and fits: "next_fits env u pk b"
  shows "\<exists>n pk1. next_block_packet env u pk b (g_log (xg s)) = (n, pk1) \<and>
     resp_handler_blockwise_async env pk b s = Some (pk_buf pk1,
       s\<lparr>xg := gemit GReqInit (xg s), xb := (xb s)\<lparr>bw_sd := (bw_sd (xb s))[i :=
         [Some \<lparr>rq_addr = a, rq_uri = u, rq_idx = i, rq_hdr = Some (take (nat n) (pk_buf pk1))\<rparr>]]\<rparr>\<rparr>)"
proof -
  obtain n pk1 where p: "next_block_packet env u pk b (g_log (xg s)) = (n, pk1)" by fastforce
  with fits have n: "0 < n" "nat n < BLOCKWISE_HDR_MAX" "nat n \<le> length (pk_buf pk1)"
    unfolding next_fits_def by (metis (mono_tags, lifting) case_prod_conv)+
  from slot(1) have i: "i < BLOCKWISE_STATES_MAX" using state_is_valid_less by (auto simp: slot_holds_def)
  with slot(1) have "nul_terminated (grid_addr (xb s) ! i)" "nul_terminated (grid_uri (xb s) ! i)"
    using rows_ok_nth by (auto simp: slot_holds_def bw_ok_def)
  moreover have "unat (word_of_int n :: u32) = nat n"
    using n by (intro unat_word_of_int) (auto simp: BLOCKWISE_HDR_MAX_def)
  moreover have "bs_add i item (xb s) = Some ((xb s)\<lparr>bw_sd := (bw_sd (xb s))[i := [item]]\<rparr>)" for item
    using slot i by (intro bs_add_empty) (simp_all add: slot_holds_def)
  ultimately show ?thesis using slot lens b p n
    by (simp add: resp_handler_blockwise_async_def xbd_blockwise_state_index_def xbd_blockwise_addr_ptr_def
        xbd_blockwise_uri_ptr_def slot_holds_def send_blockwise_next_def req_new_def Let_def)
qed

lemma response_next:
  assumes slot: "slot_holds i a u (xb s)" "bw_last (xb s) = Some i" "bw_sd (xb s) ! i = []"
    and lens: "length a \<le> REQ_ADDR_MAX" "length u \<le> REQ_URI_MAX" "u \<noteq> []"
    and k: "k < length (xf s)" "xf s ! k = FRegistered"
    and b: "get_block2 env pk = Some b" "more_blocks b" and fits: "next_fits env u pk b" "payload_ok pk"
  shows "\<exists>s' log n pk1. gcoap_req_resp_handler env \<lparr>memo_st = GCOAP_MEMO_RESP, memo_ctx = Fstat k\<rparr> pk s = Some s' \<and>
     next_block_packet env u pk b log = (n, pk1) \<and> xf s' = (xf s)[k := FResolved (MResp (delivered pk (pk_buf pk1)))] \<and>
     xb s' = (xb s)\<lparr>bw_sd := (bw_sd (xb s))[i :=
         [Some \<lparr>rq_addr = a, rq_uri = u, rq_idx = i, rq_hdr = Some (take (nat n) (pk_buf pk1))\<rparr>]]\<rparr> \<and>
     reqs (xg s') = reqs (xg s)"
proof -
  let ?memo = "\<lparr>memo_st = GCOAP_MEMO_RESP, memo_ctx = Fstat k\<rparr>"
  define t where "t = xprintf (''@@ memo->state: '' @ dec (unat (memo_num (memo_st ?memo))) @ nl) (xbd_resp_report env ?memo pk s)"
  have t: "xb t = xb s" "xf t = xf s" "reqs (xg t) = reqs (xg s)" by (simp_all add: t_def)
  from async_next [of i a u t b env pk] slot lens b(2) fits(1) t(1) obtain n pk1 where
      p: "next_block_packet env u pk b (g_log (xg t)) = (n, pk1)" and
      r: "resp_handler_blockwise_async env pk b t = Some (pk_buf pk1,
       t\<lparr>xg := gemit GReqInit (xg t), xb := (xb t)\<lparr>bw_sd := (bw_sd (xb t))[i :=
         [Some \<lparr>rq_addr = a, rq_uri = u, rq_idx = i, rq_hdr = Some (take (nat n) (pk_buf pk1))\<rparr>]]\<rparr>\<rparr>)"
    by auto
  from fits(1) p have "length (pk_buf pk1) = length (pk_buf pk)"
    unfolding next_fits_def by (metis (mono_tags, lifting) case_prod_conv)
  from copy_payload_delivered [OF fits(2) this] r b(1) k p t show ?thesis
    unfolding gcoap_req_resp_handler_def xbd_resp_handler_def Let_def t_def [symmetric] by auto
qed

lemma response_last:
  assumes slot: "slot_holds i a u (xb s)" "bw_last (xb s) = Some i" "bw_sd (xb s) ! i = []"
    and k: "k < length (xf s)" "xf s ! k = FRegistered"
    and b: "get_block2 env pk = Some b" "\<not> more_blocks b" and fits: "payload_ok pk"
  shows "\<exists>s'. gcoap_req_resp_handler env \<lparr>memo_st = GCOAP_MEMO_RESP, memo_ctx = Fstat k\<rparr> pk s = Some s' \<and>
     xf s' = (xf s)[k := FResolved (MResp (delivered pk (pk_buf pk)))] \<and> bw_ok (xb s') \<and>
     (\<forall>j. state_is_valid j (xb s') \<longleftrightarrow> state_is_valid j (xb s) \<and> j \<noteq> i) \<and>
     bw_sd (xb s') = (bw_sd (xb s))[i := [None]] \<and> reqs (xg s') = reqs (xg s)"
proof -
  let ?memo = "\<lparr>memo_st = GCOAP_MEMO_RESP, memo_ctx = Fstat k\<rparr>"
  define t where "t = xprintf (''@@ memo->state: '' @ dec (unat (memo_num (memo_st ?memo))) @ nl) (xbd_resp_report env ?memo pk s)"
  have t: "xb t = xb s" "xf t = xf s" "reqs (xg t) = reqs (xg s)" by (simp_all add: t_def)
  from slot(1) have ok: "bw_ok (xb s)" "state_is_valid i (xb s)" by (simp_all add: slot_holds_def)
  then have i: "i < BLOCKWISE_STATES_MAX" by (rule state_is_valid_less)
  from release_slot_returns [OF ok] obtain st where st: "release_slot i (xb s) = Some st" "bw_ok st"
      "\<forall>j. state_is_valid j st \<longleftrightarrow> state_is_valid j (xb s) \<and> j \<noteq> i" "bw_sd st = bw_sd (xb s)" by blast
  have add: "bs_add i None st = Some (st\<lparr>bw_sd := (bw_sd st)[i := [None]]\<rparr>)"
    using st i slot(3) by (intro bs_add_empty) simp_all
  have "bw_ok (st\<lparr>bw_sd := (bw_sd st)[i := [None]]\<rparr>)" using bw_ok_bs_add [OF add st(2)] .
  moreover have "resp_handler_blockwise_async env pk b t = Some (pk_buf pk,
      (xprintf (''--- blockwise complete ---'' @ nl) t)\<lparr>xb := st\<lparr>bw_sd := (bw_sd st)[i := [None]]\<rparr>\<rparr>)"
    using b(2) slot(2) st(1) add t(1)
    by (simp add: resp_handler_blockwise_async_def xbd_blockwise_state_index_def send_blockwise_complete_def)
  ultimately show ?thesis
    using copy_payload_delivered [OF fits refl] b(1) k t st
    unfolding gcoap_req_resp_handler_def xbd_resp_handler_def Let_def t_def [symmetric] by auto
qed

section \<open>Runs\<close>

datatype xbd_call =
    NewTransfer string string
  | StreamPoll nat
  | StreamClose nat
  | NewFuture
  | PollBlockwise breq nat
  | PollPlain u8 string string "bytes option" nat
  | Response gmemo coap_pkt

fun xbd_step :: "gcoap_env \<Rightarrow> xbd_call \<Rightarrow> xbd_app \<Rightarrow> xbd_app option" where
  "xbd_step env (NewTransfer a u) s = map_option (\<lambda>(_, st). s\<lparr>xb := st\<rparr>) (send_blockwise_new a u (xb s))"
| "xbd_step env (StreamPoll i) s =
     (if i < BLOCKWISE_STATES_MAX then Some (s\<lparr>xb := snd (bs_poll_next i (xb s))\<rparr>) else None)"
| "xbd_step env (StreamClose i) s = map_option (\<lambda>st. s\<lparr>xb := st\<rparr>) (bs_close i (xb s))"
| "xbd_step env NewFuture s = Some (snd (fut_new s))"
| "xbd_step env (PollBlockwise req k) s = map_option snd (poll_blockwise env req k s)"
| "xbd_step env (PollPlain m a u p k) s = map_option snd (poll_plain env m a u p k s)"
| "xbd_step env (Response memo pk) s = gcoap_req_resp_handler env memo pk s"

definition xbd_ok :: "xbd_app \<Rightarrow> bool" where
  "xbd_ok s \<longleftrightarrow> bw_ok (xb s) \<and> client_ok (xg s)"

lemma xbd_ok_simps [simp]:
  "xbd_ok (s\<lparr>xf := f\<rparr>) = xbd_ok s" "xbd_ok (xprintf t s) = xbd_ok s"
  "xbd_ok (xbd_resp_report env memo pk s) = xbd_ok s"
  "xbd_ok (s\<lparr>xg := gemit GReqInit (xg s)\<rparr>) = xbd_ok s"
  by (simp_all add: xbd_ok_def xbd_resp_report_def)

lemma client_ok_xbd_send: "xbd_send env b l a c g = Some (n, g') \<Longrightarrow> client_ok g' = client_ok g"
  by (cases "resolve env a g")
     (auto simp: xbd_send_def bind_eq_Some_conv Let_def client_ok_resolve
      split: option.splits if_splits dest!: client_ok_gcoap_req_send)

lemma client_ok_xbd_header:
  "xbd_header env u m p bw i s = Some (l, b, g) \<Longrightarrow> client_ok g = client_ok (xg s)"
  by (auto simp: xbd_header_def xbd_new_header_def bind_eq_Some_conv Let_def split: if_splits prod.splits)

lemma xbd_ok_req_send:
  assumes "xbd_gcoap_req_send env a u m p bw i c s = Some s'" and "xbd_ok s"
  shows "xbd_ok s'"
proof -
  have "client_ok (xbd_req_log env a u l b j q n g) = client_ok g" for l b j q n g
    by (simp add: xbd_req_log_def Let_def)
  with assms show ?thesis
    by (auto simp: xbd_gcoap_req_send_def bind_eq_Some_conv Let_def xbd_ok_def split: if_splits
        dest!: client_ok_xbd_header client_ok_xbd_send client_ok_notify)
qed

lemma xbd_ok_gcoap_req:
  assumes "gcoap_req env a u m p bw i c s = Some s'" and "xbd_ok s"
  shows "xbd_ok s'"
  using assms by (auto simp: gcoap_req_def split: if_splits dest: xbd_ok_req_send)

lemma xbd_ok_method: "gcoap_method env m a u p c s = Some s' \<Longrightarrow> xbd_ok s \<Longrightarrow> xbd_ok s'"
  by (auto simp: gcoap_method_def bind_eq_Some_conv split: if_splits dest: xbd_ok_gcoap_req)

lemma xbd_ok_async:
  assumes "resp_handler_blockwise_async env pk b s = Some (buf, s')" and "xbd_ok s"
  shows "xbd_ok s'"
proof (cases "more_blocks b")
  case False
  with assms obtain idx st where "send_blockwise_complete idx (xb s) = Some st"
      "s' = (xprintf (''--- blockwise complete ---'' @ nl) s)\<lparr>xb := st\<rparr>"
    by (auto simp: resp_handler_blockwise_async_def bind_eq_Some_conv)
  with assms(2) show ?thesis using bw_ok_send(2) by (simp add: xbd_ok_def)
next
  case True
  with assms(1) obtain idx ar ur where r: "xbd_blockwise_state_index (xb s) = Some idx"
      "xbd_blockwise_addr_ptr idx (xb s) = Some ar" "xbd_blockwise_uri_ptr idx (xb s) = Some ur"
    by (auto simp: resp_handler_blockwise_async_def bind_eq_Some_conv)
  obtain n pk1 where n: "next_block_packet env (cstr ur) pk b (g_log (xg s)) = (n, pk1)" by fastforce
  show ?thesis
  proof (cases "blknum b = 0 \<and> cstr ur = []")
    case True
    with \<open>more_blocks b\<close> assms r show ?thesis
      by (auto simp: resp_handler_blockwise_async_def split: if_splits)
  next
    case False
    with \<open>more_blocks b\<close> assms(1) r n obtain st where
        "send_blockwise_next idx (cstr ar) (cstr ur) (take (unat (word_of_int n :: u32)) (pk_buf pk1)) (xb s) = Some st"
        "s' = s\<lparr>xg := gemit GReqInit (xg s), xb := st\<rparr>"
      by (auto simp: resp_handler_blockwise_async_def bind_eq_Some_conv Let_def split: if_splits)
    with assms(2) show ?thesis using bw_ok_send(1) by (simp add: xbd_ok_def)
  qed
qed

lemma xbd_ok_resolve: "fstat_resolve c m s = Some s' \<Longrightarrow> xbd_ok s' = xbd_ok s"
  by (cases c) (auto split: if_splits)

lemma xbd_ok_response:
  assumes "gcoap_req_resp_handler env memo pk s = Some s'" and "xbd_ok s"
  shows "xbd_ok s'"
proof -
  define t where "t = xprintf (''@@ memo->state: '' @ dec (unat (memo_num (memo_st memo))) @ nl) (xbd_resp_report env memo pk s)"
  have "xbd_ok t" using assms(2) by (simp add: t_def)
  with assms(1) show ?thesis
    unfolding gcoap_req_resp_handler_def xbd_resp_handler_def Let_def t_def [symmetric]
    by (auto simp: bind_eq_Some_conv split: option.splits if_splits dest!: xbd_ok_resolve dest: xbd_ok_async)
qed

lemma xbd_ok_poll:
  assumes "poll_blockwise env req k s = Some (r, s')" and "xbd_ok s"
  shows "xbd_ok s'"
proof (cases "xf s ! k = FNew \<and> state_is_valid (rq_idx req) (xb s)")
  case False
  with assms show ?thesis
    by (auto simp: poll_blockwise_def Let_def xbd_ok_def split: if_splits fstate.splits)
next
  case True
  let ?st = "(xb s)\<lparr>bw_last := Some (rq_idx req)\<rparr>"
  from True assms(1) obtain st where st: "update_state (rq_idx req) (rq_addr req) (rq_uri req) (rq_hdr req) ?st = Some st"
      "gcoap_req env (rq_addr req) (rq_uri req) 1 None True (Some (rq_idx req)) (Fstat k)
        (s\<lparr>xf := (xf s)[k := FRegistered], xb := st\<rparr>) = Some s'"
    by (auto simp: poll_blockwise_def Let_def bind_eq_Some_conv split: if_splits)
  have "bw_ok ?st" using assms(2) by (simp add: xbd_ok_def)
  with st(1) have "bw_ok st" by (rule bw_ok_update_state)
  with assms(2) have "xbd_ok (s\<lparr>xf := (xf s)[k := FRegistered], xb := st\<rparr>)" by (simp add: xbd_ok_def)
  with st(2) show ?thesis by (rule xbd_ok_gcoap_req)
qed

lemma xbd_ok_poll_plain:
  assumes "poll_plain env m a u p k s = Some (r, s')" and "xbd_ok s"
  shows "xbd_ok s'"
proof -
  have "xbd_ok (s\<lparr>xf := f\<rparr>)" for f using assms(2) by simp
  then show ?thesis using assms(1)
    by (auto simp: poll_plain_def bind_eq_Some_conv split: if_splits fstate.splits dest: xbd_ok_method)
qed

lemma xbd_ok_step: "xbd_ok s \<Longrightarrow> xbd_step env c s = Some s' \<Longrightarrow> xbd_ok s'"
proof (cases c)
  case (NewTransfer a u)
  then show "xbd_ok s \<Longrightarrow> xbd_step env c s = Some s' \<Longrightarrow> xbd_ok s'"
    by (auto simp: xbd_ok_def dest: bw_ok_send_new)
qed (auto simp: xbd_ok_def fut_new_def bw_ok_bs_poll_next split: if_splits intro: bw_ok_send
      dest: xbd_ok_poll [unfolded xbd_ok_def] xbd_ok_poll_plain [unfolded xbd_ok_def]
        xbd_ok_response [unfolded xbd_ok_def])

interpretation xbd: invariant_steps "xbd_step env" xbd_ok for env
  by unfold_locales (rule xbd_ok_step)

lemma xbd_ok_start: "xbd_ok xbd_start"
  by (simp add: xbd_ok_def xbd_start_def bw_ok_init client_ok_start)

section \<open>A whole transfer\<close>

text \<open>
  The loop \<^verbatim>\<open>while let Some(req) = bs.next().await { let out = req.await; ... }\<close> of
  \<^verbatim>\<open>src/xbd/shell.rs\<close> and \<^verbatim>\<open>src/lib.rs\<close>: a round takes the next request from the stream, polls it,
  lets the response arrive, and polls it again. The transfer ends with the stream.
\<close>

definition blockwise_round :: "gcoap_env \<Rightarrow> nat \<Rightarrow> coap_pkt \<Rightarrow> xbd_app \<Rightarrow> (gmemo_state \<times> xbd_app) option" where
  "blockwise_round env i pk s =
     (case bs_poll_next i (xb s) of
        (Ready (Some req), st) \<Rightarrow>
          (let (k, s) = fut_new (s\<lparr>xb := st\<rparr>) in
           case poll_blockwise env req k s of
             Some (Pending, s) \<Rightarrow> do {
               s \<leftarrow> gcoap_req_resp_handler env \<lparr>memo_st = GCOAP_MEMO_RESP, memo_ctx = Fstat k\<rparr> pk s;
               (r, s) \<leftarrow> poll_blockwise env req k s;
               case r of Ready m \<Rightarrow> Some (m, s) | Pending \<Rightarrow> None
             }
           | _ \<Rightarrow> None)
      | _ \<Rightarrow> None)"

fun blockwise_transfer :: "gcoap_env \<Rightarrow> nat \<Rightarrow> coap_pkt list \<Rightarrow> xbd_app \<Rightarrow> (gmemo_state list \<times> xbd_app) option" where
  "blockwise_transfer env i [] s =
     (case bs_poll_next i (xb s) of (Ready None, st) \<Rightarrow> Some ([], s\<lparr>xb := st\<rparr>) | _ \<Rightarrow> None)"
| "blockwise_transfer env i (pk # pks) s =
     do {
       (m, s) \<leftarrow> blockwise_round env i pk s;
       (ms, s) \<leftarrow> blockwise_transfer env i pks s;
       Some (m # ms, s)
     }"

definition pending_request :: "gcoap_env \<Rightarrow> nat \<Rightarrow> string \<Rightarrow> string \<Rightarrow> xbd_app \<Rightarrow> bool" where
  "pending_request env i a u s \<longleftrightarrow> bw_ok (xb s) \<and> state_is_valid i (xb s) \<and>
     (\<exists>h. bw_sd (xb s) ! i = [Some \<lparr>rq_addr = a, rq_uri = u, rq_idx = i, rq_hdr = h\<rparr>] \<and> hdr_fits env i h (xb s))"

text \<open>
  A response that announces more blocks: the header of the follow-up fits its slot and ends
  before the payload, and the library writes nothing behind that header.
\<close>

definition keeps_payload :: "gcoap_env \<Rightarrow> string \<Rightarrow> coap_pkt \<Rightarrow> coap_block \<Rightarrow> bool" where
  "keeps_payload env u pk b \<longleftrightarrow> (\<forall>log. case next_block_packet env u pk b log of (n, pk1) \<Rightarrow>
     nat n \<le> pk_payload pk \<and> drop (nat n) (pk_buf pk1) = drop (nat n) (pk_buf pk))"

definition more_block :: "gcoap_env \<Rightarrow> string \<Rightarrow> coap_pkt \<Rightarrow> bool" where
  "more_block env u pk \<longleftrightarrow> payload_ok pk \<and> length (pk_buf pk) = pdu_buf_size env \<and>
     (\<exists>b. get_block2 env pk = Some b \<and> more_blocks b \<and> next_fits env u pk b \<and> keeps_payload env u pk b)"

definition final_block :: "gcoap_env \<Rightarrow> coap_pkt \<Rightarrow> bool" where
  "final_block env pk \<longleftrightarrow> payload_ok pk \<and> (\<exists>b. get_block2 env pk = Some b \<and> \<not> more_blocks b)"

fun block_sequence :: "gcoap_env \<Rightarrow> string \<Rightarrow> coap_pkt list \<Rightarrow> bool" where
  "block_sequence env u [] = False"
| "block_sequence env u [pk] = final_block env pk"
| "block_sequence env u (pk # pks) = (more_block env u pk \<and> block_sequence env u pks)"

text \<open>A new transfer has its first request waiting, and leaves the other slots and streams alone.\<close>

lemma new_transfer_pending:
  assumes "c_string REQ_ADDR_MAX a" and "c_string REQ_URI_MAX u"
    and "bw_ok (xb s)" and "\<not> state_is_valid j0 (xb s)" and "j0 < BLOCKWISE_STATES_MAX"
  shows "\<exists>i st. send_blockwise_new a u (xb s) = Some (Inr i, st) \<and> pending_request env i a u (s\<lparr>xb := st\<rparr>) \<and>
     \<not> state_is_valid i (xb s) \<and> (\<forall>j. state_is_valid j st \<longleftrightarrow> state_is_valid j (xb s) \<or> j = i) \<and>
     (\<forall>j < i. state_is_valid j (xb s)) \<and>
     (\<forall>j. j \<noteq> i \<longrightarrow> bw_sd st ! j = bw_sd (xb s) ! j \<and> bw_state j st = bw_state j (xb s))"
proof -
  from assms(4,5) obtain i t where t: "alloc_slot (xb s) = Some (i, t)"
    using bw.alloc_full [OF assms(3)] by force
  note fresh = bw.alloc_fresh [OF assms(3) t]
  let ?req = "\<lparr>rq_addr = a, rq_uri = u, rq_idx = i, rq_hdr = None\<rparr>"
  let ?st = "t\<lparr>bw_sd := (bw_sd t)[i := [Some ?req]]\<rparr>"
  have new: "send_blockwise_new a u (xb s) = Some (Inr i, ?st)"
    using t fresh assms(1,2) bs_add_emptied [of t i]
    by (simp add: send_blockwise_new_def req_new_def c_string_def)
  have "i < length (bw_states (xb s))" using fresh assms(3) by (simp add: bw_ok_def)
  with t have "bw_state i ?st = Some 0" by (auto simp: alloc_slot_def bw_state_def)
  moreover have "i < length (bw_sd t)" using fresh by (simp add: bw_ok_def)
  moreover have "bw_ok ?st" using fresh by (intro bw_ok_sd) simp_all
  ultimately have "pending_request env i a u (s\<lparr>xb := ?st\<rparr>)"
    using fresh by (simp add: pending_request_def hdr_fits_def)
  moreover have "state_is_valid j (xb s)" if "j < i" for j
    using alloc_slot_least [OF t that] .
  moreover from t have "bw_sd t = bw_sd (xb s)" "\<forall>j. j \<noteq> i \<longrightarrow> bw_state j ?st = bw_state j (xb s)"
    by (auto simp: alloc_slot_def bw_state_def)
  ultimately show ?thesis using new fresh by fastforce
qed

lemma delivered_kept:
  assumes "drop n buf' = drop n (pk_buf pk)" and "n \<le> pk_payload pk"
  shows "delivered pk buf' = delivered pk (pk_buf pk)"
proof -
  have "drop (pk_payload pk) buf' = drop (pk_payload pk - n) (drop n buf')" using assms(2) by simp
  also have "\<dots> = drop (pk_payload pk) (pk_buf pk)" using assms by simp
  finally show ?thesis by (simp add: delivered_def)
qed

text \<open>The first half of a round: the request leaves the stream and is sent.\<close>

lemma round_sends:
  assumes env: "client_env env" and name: "\<forall>log. name2ep env log zero_ep a = (0, ep)"
    and lens: "c_string REQ_ADDR_MAX a" "c_string REQ_URI_MAX u" and p: "pending_request env i a u s"
  shows "\<exists>req st t. bs_poll_next i (xb s) = (Ready (Some req), st) \<and>
     poll_blockwise env req (length (xf s)) (s\<lparr>xb := st, xf := xf s @ [FNew]\<rparr>) = Some (Pending, t) \<and>
     xf t = xf s @ [FRegistered] \<and> bw_last (xb t) = Some i \<and> slot_holds i a u (xb t) \<and> bw_sd (xb t) ! i = [] \<and>
     bw_sd (xb t) = (bw_sd (xb s))[i := []] \<and>
     (\<forall>j. state_is_valid j (xb t) = state_is_valid j (xb s)) \<and> length (reqs (xg t)) = Suc (length (reqs (xg s)))"
proof -
  from p obtain h where h: "bw_sd (xb s) ! i = [Some \<lparr>rq_addr = a, rq_uri = u, rq_idx = i, rq_hdr = h\<rparr>]"
      "hdr_fits env i h (xb s)" and ok: "bw_ok (xb s)" "state_is_valid i (xb s)"
    unfolding pending_request_def by blast
  let ?req = "\<lparr>rq_addr = a, rq_uri = u, rq_idx = i, rq_hdr = h\<rparr>"
  let ?st = "(xb s)\<lparr>bw_sd := (bw_sd (xb s))[i := []]\<rparr>"
  let ?s = "s\<lparr>xb := ?st, xf := xf s @ [FNew]\<rparr>"
  have poll: "bs_poll_next i (xb s) = (Ready (Some ?req), ?st)"
    using h(1) by (simp add: bs_poll_next_def xs_poll_next_def)
  have "i < length (bw_sd (xb s))" using ok state_is_valid_less [OF ok] by (simp add: bw_ok_def)
  moreover have "bw_ok ?st" using ok(1) by (intro bw_ok_sd) simp_all
  moreover have "hdr_fits env i h ?st" using h(2) by simp
  ultimately show ?thesis
    using poll_blockwise_sends [OF env name, of "length (xf s)" ?s i u h] lens ok poll
    by (fastforce simp: nth_append)
qed

lemma round_next:
  assumes env: "client_env env" and name: "\<forall>log. name2ep env log zero_ep a = (0, ep)"
    and lens: "c_string REQ_ADDR_MAX a" "c_string REQ_URI_MAX u" "u \<noteq> []" and p: "pending_request env i a u s"
    and pk: "more_block env u pk"
  shows "\<exists>s'. blockwise_round env i pk s = Some (MResp (delivered pk (pk_buf pk)), s') \<and> pending_request env i a u s' \<and>
     (\<exists>h. bw_sd (xb s') ! i = [Some \<lparr>rq_addr = a, rq_uri = u, rq_idx = i, rq_hdr = Some h\<rparr>]) \<and>
     (\<forall>j. j \<noteq> i \<longrightarrow> bw_sd (xb s') ! j = bw_sd (xb s) ! j) \<and>
     (\<forall>j. state_is_valid j (xb s') = state_is_valid j (xb s)) \<and> length (reqs (xg s')) = Suc (length (reqs (xg s)))"
proof -
  let ?k = "length (xf s)"
  from round_sends [OF env name lens(1,2) p] obtain req st t where
      poll: "bs_poll_next i (xb s) = (Ready (Some req), st)"
        "poll_blockwise env req ?k (s\<lparr>xb := st, xf := xf s @ [FNew]\<rparr>) = Some (Pending, t)" and
      t: "xf t = xf s @ [FRegistered]" "bw_last (xb t) = Some i" "slot_holds i a u (xb t)" "bw_sd (xb t) ! i = []"
        "\<forall>j. state_is_valid j (xb t) = state_is_valid j (xb s)" "length (reqs (xg t)) = Suc (length (reqs (xg s)))"
        "bw_sd (xb t) = (bw_sd (xb s))[i := []]"
    by blast
  from pk obtain b where b: "get_block2 env pk = Some b" "more_blocks b" "next_fits env u pk b" "keeps_payload env u pk b"
      and ok: "payload_ok pk" "length (pk_buf pk) = pdu_buf_size env"
    unfolding more_block_def by blast
  have k: "?k < length (xf t)" "xf t ! ?k = FRegistered" using t(1) by simp_all
  have l: "length a \<le> REQ_ADDR_MAX" "length u \<le> REQ_URI_MAX" using lens by (simp_all add: c_string_def)
  from response_next [OF t(3,2,4) l lens(3) k b(1-3) ok(1)] obtain s' log n pk1 where
      r: "gcoap_req_resp_handler env \<lparr>memo_st = GCOAP_MEMO_RESP, memo_ctx = Fstat ?k\<rparr> pk t = Some s'"
        "next_block_packet env u pk b log = (n, pk1)" "xf s' = (xf t)[?k := FResolved (MResp (delivered pk (pk_buf pk1)))]"
        "xb s' = (xb t)\<lparr>bw_sd := (bw_sd (xb t))[i :=
          [Some \<lparr>rq_addr = a, rq_uri = u, rq_idx = i, rq_hdr = Some (take (nat n) (pk_buf pk1))\<rparr>]]\<rparr>"
        "reqs (xg s') = reqs (xg t)" by blast
  from b(3) r(2) have n: "0 < n" "nat n < BLOCKWISE_HDR_MAX" "nat n \<le> length (pk_buf pk1)" "length (pk_buf pk1) = length (pk_buf pk)"
    unfolding next_fits_def by (metis (mono_tags, lifting) case_prod_conv)+
  from b(4) r(2) have "delivered pk (pk_buf pk1) = delivered pk (pk_buf pk)"
    unfolding keeps_payload_def by (metis (mono_tags, lifting) case_prod_conv delivered_kept)
  with r(3) have m: "xf s' ! ?k = FResolved (MResp (delivered pk (pk_buf pk)))" "?k < length (xf s')" using k by simp_all
  let ?s = "s'\<lparr>xf := (xf s')[?k := FTaken]\<rparr>"
  have "poll_blockwise env req ?k s' = Some (Ready (MResp (delivered pk (pk_buf pk))), ?s)"
    using m by (simp add: poll_blockwise_def)
  with poll r(1) have "blockwise_round env i pk s = Some (MResp (delivered pk (pk_buf pk)), ?s)"
    by (simp add: blockwise_round_def fut_new_def)
  moreover have i: "i < length (bw_sd (xb t))" "bw_ok (xb t)" "state_is_valid i (xb t)"
    using t(3) state_is_valid_less by (auto simp: slot_holds_def bw_ok_def)
  have v: "state_is_valid j (xb s') = state_is_valid j (xb s)" for j
    using t(5) by (simp add: r(4))
  moreover have "bw_ok (xb s')" using i(2) unfolding r(4) by (rule bw_ok_sd) simp
  moreover have "take (nat n) (pk_buf pk1) \<noteq> []" using n by auto
  ultimately show ?thesis using r(4,5) t(5-7) i n ok(2)
    by (auto simp: pending_request_def hdr_fits_def)
qed

lemma round_last:
  assumes env: "client_env env" and name: "\<forall>log. name2ep env log zero_ep a = (0, ep)"
    and lens: "c_string REQ_ADDR_MAX a" "c_string REQ_URI_MAX u" and p: "pending_request env i a u s"
    and pk: "final_block env pk"
  shows "\<exists>s'. blockwise_round env i pk s = Some (MResp (delivered pk (pk_buf pk)), s') \<and> bw_sd (xb s') ! i = [None] \<and> bw_ok (xb s') \<and>
     (\<forall>j. j \<noteq> i \<longrightarrow> bw_sd (xb s') ! j = bw_sd (xb s) ! j) \<and>
     (\<forall>j. state_is_valid j (xb s') \<longleftrightarrow> state_is_valid j (xb s) \<and> j \<noteq> i) \<and>
     length (reqs (xg s')) = Suc (length (reqs (xg s)))"
proof -
  let ?k = "length (xf s)"
  from round_sends [OF env name lens p] obtain req st t where
      poll: "bs_poll_next i (xb s) = (Ready (Some req), st)"
        "poll_blockwise env req ?k (s\<lparr>xb := st, xf := xf s @ [FNew]\<rparr>) = Some (Pending, t)" and
      t: "xf t = xf s @ [FRegistered]" "bw_last (xb t) = Some i" "slot_holds i a u (xb t)" "bw_sd (xb t) ! i = []"
        "\<forall>j. state_is_valid j (xb t) = state_is_valid j (xb s)" "length (reqs (xg t)) = Suc (length (reqs (xg s)))"
        "bw_sd (xb t) = (bw_sd (xb s))[i := []]"
    by blast
  from pk obtain b where b: "get_block2 env pk = Some b" "\<not> more_blocks b" and ok: "payload_ok pk"
    unfolding final_block_def by blast
  have k: "?k < length (xf t)" "xf t ! ?k = FRegistered" using t(1) by simp_all
  from response_last [OF t(3,2,4) k b ok] obtain s' where
      r: "gcoap_req_resp_handler env \<lparr>memo_st = GCOAP_MEMO_RESP, memo_ctx = Fstat ?k\<rparr> pk t = Some s'"
        "xf s' = (xf t)[?k := FResolved (MResp (delivered pk (pk_buf pk)))]" "bw_ok (xb s')"
        "\<forall>j. state_is_valid j (xb s') \<longleftrightarrow> state_is_valid j (xb t) \<and> j \<noteq> i"
        "bw_sd (xb s') = (bw_sd (xb t))[i := [None]]" "reqs (xg s') = reqs (xg t)" by blast
  have m: "xf s' ! ?k = FResolved (MResp (delivered pk (pk_buf pk)))" "?k < length (xf s')" using r(2) k by simp_all
  have "poll_blockwise env req ?k s' = Some (Ready (MResp (delivered pk (pk_buf pk))), s'\<lparr>xf := (xf s')[?k := FTaken]\<rparr>)"
    using m by (simp add: poll_blockwise_def)
  with poll r(1) have "blockwise_round env i pk s =
      Some (MResp (delivered pk (pk_buf pk)), s'\<lparr>xf := (xf s')[?k := FTaken]\<rparr>)"
    by (simp add: blockwise_round_def fut_new_def)
  moreover have "i < length (bw_sd (xb t))"
    using t(3) state_is_valid_less by (auto simp: slot_holds_def bw_ok_def)
  ultimately show ?thesis using r(3-6) t(5-7) by simp
qed

lemma transfer_pending:
  assumes env: "client_env env" and name: "\<forall>log. name2ep env log zero_ep a = (0, ep)"
    and lens: "c_string REQ_ADDR_MAX a" "c_string REQ_URI_MAX u" "u \<noteq> []"
    and "pending_request env i a u s" and "block_sequence env u pks"
  shows "\<exists>s'. blockwise_transfer env i pks s = Some (map (\<lambda>pk. MResp (delivered pk (pk_buf pk))) pks, s') \<and>
     length (reqs (xg s')) = length (reqs (xg s)) + length pks \<and> bw_ok (xb s') \<and>
     (\<forall>j. j \<noteq> i \<longrightarrow> bw_sd (xb s') ! j = bw_sd (xb s) ! j) \<and>
     (\<forall>j. state_is_valid j (xb s') \<longleftrightarrow> state_is_valid j (xb s) \<and> j \<noteq> i)"
  using assms(6,7)
proof (induction pks arbitrary: s)
  case Nil
  then show ?case by simp
next
  case (Cons pk pks)
  show ?case
  proof (cases pks)
    case Nil
    with Cons.prems have "final_block env pk" by simp
    from round_last [OF env name lens(1,2) Cons.prems(1) this] obtain s' where
        "blockwise_round env i pk s = Some (MResp (delivered pk (pk_buf pk)), s')" "bw_sd (xb s') ! i = [None]" "bw_ok (xb s')"
        "\<forall>j. j \<noteq> i \<longrightarrow> bw_sd (xb s') ! j = bw_sd (xb s) ! j"
        "\<forall>j. state_is_valid j (xb s') \<longleftrightarrow> state_is_valid j (xb s) \<and> j \<noteq> i"
        "length (reqs (xg s')) = Suc (length (reqs (xg s)))" by blast
    moreover from this have "bw_ok ((xb s')\<lparr>bw_sd := (bw_sd (xb s'))[i := []]\<rparr>)" by (intro bw_ok_sd) simp_all
    ultimately show ?thesis using Nil by (simp add: bs_poll_next_def xs_poll_next_def)
  next
    case (Cons v vs)
    with Cons.prems have "more_block env u pk" and rest: "block_sequence env u pks" by simp_all
    from round_next [OF env name lens Cons.prems(1) this(1)] obtain s1 where s1:
        "blockwise_round env i pk s = Some (MResp (delivered pk (pk_buf pk)), s1)" "pending_request env i a u s1"
        "\<forall>j. j \<noteq> i \<longrightarrow> bw_sd (xb s1) ! j = bw_sd (xb s) ! j"
        "\<forall>j. state_is_valid j (xb s1) = state_is_valid j (xb s)" "length (reqs (xg s1)) = Suc (length (reqs (xg s)))"
      by blast
    from Cons.IH [OF s1(2) rest] s1 show ?thesis by fastforce
  qed
qed

section \<open>Blocks for the witnesses\<close>

text \<open>Block \<open>j\<close> of a file: three payload bytes behind eight of header and options.\<close>

definition demo_block :: "u32 \<Rightarrow> bool \<Rightarrow> coap_pkt" where
  "demo_block j m = \<lparr>pk_buf = replicate 8 0 @ [1, 2, 3] @ replicate 117 0, pk_payload = 8, pk_payload_len = 3,
     pk_opts = [Block2 \<lparr>blknum = j, szx = 2, more_blocks = m\<rparr>]\<rparr>"

lemma demo_next:
  "length (pk_buf pk) = 128 \<Longrightarrow> next_block_packet gcoap_demo u pk b log =
     (6, \<lparr>pk_buf = (pk_buf pk)[1 := 1], pk_payload = 6, pk_payload_len = 122, pk_opts = [Block2 (b\<lparr>blknum := blknum b + 1\<rparr>)]\<rparr>)"
  by (simp add: next_block_packet_def gcoap_demo_def demo_finish_def demo_pkt_def)

lemma demo_block_simps:
  "get_block2 gcoap_demo (demo_block j m) = Some \<lparr>blknum = j, szx = 2, more_blocks = m\<rparr>"
  "length (pk_buf (demo_block j m)) = 128" "pk_payload (demo_block j m) = 8" "pk_payload_len (demo_block j m) = 3"
  "delivered (demo_block j m) (pk_buf (demo_block j m)) = Some [1, 2, 3]"
  by (simp_all add: gcoap_demo_def demo_block_def delivered_def)

lemma demo_more_block: "more_block gcoap_demo u (demo_block j True)"
proof -
  have "drop 6 ((pk_buf (demo_block j True))[1 := 1]) = drop 6 (pk_buf (demo_block j True))"
    by (rule drop_update_cancel) simp
  moreover have "pdu_buf_size gcoap_demo = 128" by (simp add: gcoap_demo_def)
  ultimately show ?thesis
    by (simp add: more_block_def demo_block_simps payload_ok_def next_fits_def keeps_payload_def demo_next
        PAYLOAD_OUT_MAX_def BLOCKWISE_HDR_MAX_def)
qed

lemma demo_final_block: "final_block gcoap_demo (demo_block j False)"
  by (simp add: final_block_def demo_block_simps payload_ok_def PAYLOAD_OUT_MAX_def)

lemma demo_name: "\<forall>log. name2ep gcoap_demo log zero_ep a = (0, zero_ep\<lparr>family := AF_INET6\<rparr>)"
  by (simp add: gcoap_demo_def)

section \<open>Properties\<close>

text \<open>
  C1: A blockwise transfer completes. If a slot is free, the host resolves and every response
  arrives (all but the last announcing more blocks, each follow-up header fitting its slot and
  ending before the payload it shares the buffer with), then the transfer gets a slot, sends
  exactly one request for each block, delivers the payload of every block unchanged and in
  order, ends its stream, and gives the slot back, leaving all other slots as they were.
\<close>

theorem blockwise_transfer_complete:
  assumes "client_env env" and "\<forall>log. name2ep env log zero_ep a = (0, ep)"
    and "c_string REQ_ADDR_MAX a" and "c_string REQ_URI_MAX u" and "u \<noteq> []"
    and "bw_ok (xb s)" and "\<not> state_is_valid j0 (xb s)" and "j0 < BLOCKWISE_STATES_MAX"
    and "block_sequence env u pks"
  shows "\<exists>i st s'. send_blockwise_new a u (xb s) = Some (Inr i, st) \<and>
     blockwise_transfer env i pks (s\<lparr>xb := st\<rparr>) = Some (map (\<lambda>pk. MResp (delivered pk (pk_buf pk))) pks, s') \<and>
     length (reqs (xg s')) = length (reqs (xg s)) + length pks \<and>
     (\<forall>j. state_is_valid j (xb s') = state_is_valid j (xb s))"
proof -
  from new_transfer_pending [OF assms(3,4,6-8), of env] obtain i st where
      new: "send_blockwise_new a u (xb s) = Some (Inr i, st)" "pending_request env i a u (s\<lparr>xb := st\<rparr>)"
        "\<not> state_is_valid i (xb s)" "\<forall>j. state_is_valid j st \<longleftrightarrow> state_is_valid j (xb s) \<or> j = i" by blast
  from transfer_pending [OF assms(1-5) new(2) assms(9)] new show ?thesis by fastforce
qed

theorem blockwise_transfer_complete_witness:
  "\<exists>i st s'. send_blockwise_new ''[::1]'' ''/const/song.txt'' (xb xbd_start) = Some (Inr i, st) \<and>
     blockwise_transfer gcoap_demo i [demo_block 0 True, demo_block 1 True, demo_block 2 False] (xbd_start\<lparr>xb := st\<rparr>) =
       Some ([MResp (Some [1, 2, 3]), MResp (Some [1, 2, 3]), MResp (Some [1, 2, 3])], s') \<and>
     length (reqs (xg s')) = 3"
proof -
  let ?pks = "[demo_block 0 True, demo_block 1 True, demo_block 2 False]"
  have lens: "c_string REQ_ADDR_MAX ''[::1]''" "c_string REQ_URI_MAX ''/const/song.txt''" "''/const/song.txt'' \<noteq> []"
    by (simp_all add: c_string_def REQ_ADDR_MAX_def REQ_URI_MAX_def)
  have free: "bw_ok (xb xbd_start)" "\<not> state_is_valid 0 (xb xbd_start)" "0 < BLOCKWISE_STATES_MAX"
    by (simp_all add: xbd_start_def bw_ok_init) (simp_all add: state_is_valid_def bw_state_def bw_init_def bw_sizes)
  have seq: "block_sequence gcoap_demo ''/const/song.txt'' ?pks"
    by (simp add: demo_more_block demo_final_block)
  have start: "reqs (xg xbd_start) = []" by (simp add: xbd_start_def gcoap_start_def reqs_def)
  have out: "map (\<lambda>pk. MResp (delivered pk (pk_buf pk))) ?pks =
      [MResp (Some [1, 2, 3]), MResp (Some [1, 2, 3]), MResp (Some [1, 2, 3])]"
    by (simp add: demo_block_simps)
  have len: "length (reqs (xg xbd_start)) + length ?pks = 3" by (simp add: start)
  from blockwise_transfer_complete [OF demo_client_env demo_name lens free seq, unfolded out len]
  show ?thesis by blast
qed

text \<open>
  C37: The follow-up request can destroy the payload it follows up. The request for the next block
  is encoded into the buffer of the response before the payload is copied out of it, so when its
  header is longer than header and options of the response, the future is resolved with a
  payload whose beginning is the end of the request header.
\<close>

theorem followup_overwrites_payload:
  assumes "slot_holds i a u (xb s)" and "bw_last (xb s) = Some i" and "bw_sd (xb s) ! i = []"
    and "length a \<le> REQ_ADDR_MAX" and "length u \<le> REQ_URI_MAX" and "u \<noteq> []"
    and "k < length (xf s)" and "xf s ! k = FRegistered"
    and "get_block2 env pk = Some b" and "more_blocks b" and "next_fits env u pk b" and "payload_ok pk"
    and "\<forall>log. next_block_packet env u pk b log = (n, pk1)"
    and "drop (nat n) (pk_buf pk1) = drop (nat n) (pk_buf pk)"
    and "pk_payload pk < nat n" and "nat n \<le> pk_payload pk + pk_payload_len pk"
  shows "\<exists>s'. gcoap_req_resp_handler env \<lparr>memo_st = GCOAP_MEMO_RESP, memo_ctx = Fstat k\<rparr> pk s = Some s' \<and>
     xf s' ! k = FResolved (MResp (Some (drop (pk_payload pk) (take (nat n) (pk_buf pk1)) @
       drop (nat n - pk_payload pk) (payload_bytes pk))))"
proof -
  let ?off = "pk_payload pk" and ?len = "pk_payload_len pk"
  from response_next [OF assms(1-12)] assms(13) obtain s' where
      s': "gcoap_req_resp_handler env \<lparr>memo_st = GCOAP_MEMO_RESP, memo_ctx = Fstat k\<rparr> pk s = Some s'"
        "xf s' = (xf s)[k := FResolved (MResp (delivered pk (pk_buf pk1)))]" by auto
  have "pk_buf pk1 = take (nat n) (pk_buf pk1) @ drop (nat n) (pk_buf pk)"
    using assms(14) by (metis append_take_drop_id)
  then have "drop ?off (pk_buf pk1) = drop ?off (take (nat n) (pk_buf pk1)) @ drop (nat n) (pk_buf pk)"
  proof -
    have "nat n \<le> length (pk_buf pk1)"
      using assms(11,13) unfolding next_fits_def by (metis (mono_tags, lifting) case_prod_conv)
    then show ?thesis using assms(14,15)
      by (metis append_take_drop_id drop_append drop_drop diff_is_0_eq' drop0 length_take min.absorb2 less_imp_le)
  qed
  moreover have "length (drop ?off (take (nat n) (pk_buf pk1))) = nat n - ?off"
    using assms(11,13) unfolding next_fits_def by (simp add: min_absorb2)
  moreover have "take (?len - (nat n - ?off)) (drop (nat n) (pk_buf pk)) = drop (nat n - ?off) (payload_bytes pk)"
    using assms(15,16) by (simp add: payload_bytes_def drop_take)
  ultimately have "take ?len (drop ?off (pk_buf pk1)) =
      drop ?off (take (nat n) (pk_buf pk1)) @ drop (nat n - ?off) (payload_bytes pk)"
    using assms(15,16) by simp
  with s' assms(7,15,16) show ?thesis by (auto simp: delivered_def)
qed

text \<open>A state in which the request of slot 0 has been sent and its response is awaited.\<close>

definition demo_waiting :: xbd_app where
  "demo_waiting = \<lparr>xg = gcoap_start, xb = bw_init\<lparr>bw_last := Some 0, bw_states := [Some 0, None, None, None],
     grid_addr := (grid_addr bw_init)[0 := padded REQ_ADDR_MAX NUL ''::1''],
     grid_uri := (grid_uri bw_init)[0 := padded REQ_URI_MAX NUL ''/a'']\<rparr>, xf = [FRegistered]\<rparr>"

lemma demo_waiting_slot:
  "slot_holds 0 ''::1'' ''/a'' (xb demo_waiting)" "bw_last (xb demo_waiting) = Some 0"
  "bw_sd (xb demo_waiting) ! 0 = []" "xf demo_waiting = [FRegistered]"
proof -
  let ?st = "bw_init\<lparr>bw_states := [Some 0, None, None, None]\<rparr>"
  have ok: "bw_ok ?st" using bw_ok_init by (simp add: bw_ok_def bw_sizes)
  have v: "state_is_valid 0 ?st" by (simp add: state_is_valid_def bw_state_def)
  have c: "c_string REQ_ADDR_MAX ''::1''" "c_string REQ_URI_MAX ''/a''"
    by (simp_all add: c_string_def REQ_ADDR_MAX_def REQ_URI_MAX_def)
  note eq = update_state_eq(1) [OF ok v, of "''::1''" "''/a''"]
  have "bw_ok (xb demo_waiting)"
    using bw_ok_update_state [OF eq ok] by (simp add: demo_waiting_def REQ_ADDR_MAX_def REQ_URI_MAX_def bw_ok_def)
  moreover have "cstr (padded REQ_ADDR_MAX NUL ''::1'') = ''::1''" "cstr (padded REQ_URI_MAX NUL ''/a'') = ''/a''"
    using cstr_padded [OF c(1)] cstr_padded [OF c(2)] by simp_all
  ultimately show "slot_holds 0 ''::1'' ''/a'' (xb demo_waiting)"
    by (simp add: slot_holds_def demo_waiting_def state_is_valid_def bw_state_def bw_init_def bw_sizes)
qed (simp_all add: demo_waiting_def bw_init_def bw_sizes)

text \<open>A library whose six header bytes are all 255.\<close>

definition noisy_demo :: gcoap_env where
  "noisy_demo = gcoap_demo\<lparr>opt_finish := (\<lambda>_ pk. (6, pk\<lparr>pk_buf := replicate 6 255 @ drop 6 (pk_buf pk)\<rparr>))\<rparr>"

lemma noisy_next:
  "next_block_packet noisy_demo u pk b log = (6, \<lparr>pk_buf = replicate 6 255 @ drop 6 (pk_buf pk), pk_payload = 4,
     pk_payload_len = 0, pk_opts = [Block2 (b\<lparr>blknum := blknum b + 1\<rparr>)]\<rparr>)"
  by (simp add: next_block_packet_def noisy_demo_def gcoap_demo_def demo_pkt_def drop_update_cancel)

theorem followup_overwrites_payload_witness:
  "\<exists>s'. gcoap_req_resp_handler noisy_demo \<lparr>memo_st = GCOAP_MEMO_RESP, memo_ctx = Fstat 0\<rparr>
       ((demo_block 0 True)\<lparr>pk_buf := [96, 69, 0, 1] @ [7, 8, 9] @ replicate 121 0, pk_payload := 4\<rparr>) demo_waiting = Some s' \<and>
     xf s' ! 0 = FResolved (MResp (Some [255, 255, 9]))"
proof -
  let ?pk = "(demo_block 0 True)\<lparr>pk_buf := [96, 69, 0, 1] @ [7, 8, 9] @ replicate 121 0, pk_payload := 4\<rparr>"
  let ?b = "\<lparr>blknum = 0, szx = 2, more_blocks = True\<rparr> :: coap_block"
  let ?pk1 = "\<lparr>pk_buf = replicate 6 255 @ drop 6 (pk_buf ?pk), pk_payload = 4,
     pk_payload_len = 0, pk_opts = [Block2 (?b\<lparr>blknum := blknum ?b + 1\<rparr>)]\<rparr>"
  have bl: "get_block2 noisy_demo ?pk = Some ?b" by (simp add: noisy_demo_def gcoap_demo_def demo_block_def)
  have fits: "next_fits noisy_demo ''/a'' ?pk ?b" by (simp add: next_fits_def noisy_next BLOCKWISE_HDR_MAX_def)
  have ok: "payload_ok ?pk" by (simp add: payload_ok_def demo_block_def PAYLOAD_OUT_MAX_def)
  have l: "length ''::1'' \<le> REQ_ADDR_MAX" "length ''/a'' \<le> REQ_URI_MAX" by (simp_all add: REQ_ADDR_MAX_def REQ_URI_MAX_def)
  have k: "0 < length (xf demo_waiting)" "xf demo_waiting ! 0 = FRegistered" by (simp_all add: demo_waiting_slot)
  have p: "pk_payload ?pk < nat 6" "nat 6 \<le> pk_payload ?pk + pk_payload_len ?pk" "pk_payload ?pk = 4"
    by (simp_all add: demo_block_def)
  have "\<exists>s'. gcoap_req_resp_handler noisy_demo \<lparr>memo_st = GCOAP_MEMO_RESP, memo_ctx = Fstat 0\<rparr> ?pk demo_waiting = Some s' \<and>
     xf s' ! 0 = FResolved (MResp (Some (drop (pk_payload ?pk) (take (nat 6) (pk_buf ?pk1)) @
       drop (nat 6 - pk_payload ?pk) (payload_bytes ?pk))))"
    by (rule followup_overwrites_payload [OF demo_waiting_slot(1-3) l _ k bl _ fits ok _ _ p(1,2)])
       (simp_all add: noisy_next)
  moreover have "payload_bytes ?pk = [7, 8, 9]" by (simp add: payload_bytes_def demo_block_def)
  moreover have "drop 4 (take 6 (pk_buf ?pk1)) = [255, 255]" by (simp add: numeral_eq_Suc)
  ultimately show ?thesis by (simp add: p(3))
qed

text \<open>
  C38: With two transfers in flight, a response is taken for the wrong one. The handler does not
  look at the request the response belongs to but at the slot whose request was polled last:
  when slot \<open>j\<close> was polled after slot \<open>i\<close> and a block of \<open>i\<close> arrives, the follow-up is queued on
  the stream of \<open>j\<close>, for the address and URI of \<open>j\<close>, and the stream of \<open>i\<close> gets nothing.
\<close>

theorem interleaved_response_misattributed:
  assumes "slot_holds j a u (xb s)" and "bw_last (xb s) = Some j" and "bw_sd (xb s) ! j = []"
    and "length a \<le> REQ_ADDR_MAX" and "length u \<le> REQ_URI_MAX" and "u \<noteq> []"
    and "state_is_valid i (xb s)" and "i \<noteq> j" and "bw_sd (xb s) ! i = []"
    and "k < length (xf s)" and "xf s ! k = FRegistered"
    and "get_block2 env pk = Some b" and "more_blocks b" and "next_fits env u pk b" and "payload_ok pk"
  shows "\<exists>s' h. gcoap_req_resp_handler env \<lparr>memo_st = GCOAP_MEMO_RESP, memo_ctx = Fstat k\<rparr> pk s = Some s' \<and>
     fst (bs_poll_next i (xb s')) = Pending \<and>
     fst (bs_poll_next j (xb s')) = Ready (Some \<lparr>rq_addr = a, rq_uri = u, rq_idx = j, rq_hdr = Some h\<rparr>)"
proof -
  from response_next [OF assms(1-6,10-15)] obtain s' log n pk1 where
      "next_block_packet env u pk b log = (n, pk1)" and
      r: "gcoap_req_resp_handler env \<lparr>memo_st = GCOAP_MEMO_RESP, memo_ctx = Fstat k\<rparr> pk s = Some s'"
        "xb s' = (xb s)\<lparr>bw_sd := (bw_sd (xb s))[j :=
          [Some \<lparr>rq_addr = a, rq_uri = u, rq_idx = j, rq_hdr = Some (take (nat n) (pk_buf pk1))\<rparr>]]\<rparr>" by blast
  from assms(1) have "j < length (bw_sd (xb s))"
    using state_is_valid_less by (auto simp: slot_holds_def bw_ok_def)
  with r assms(8,9) show ?thesis by (auto simp: bs_poll_next_def xs_poll_next_def)
qed

theorem interleaved_response_misattributed_witness:
  "\<exists>s s' h. bw_last (xb s) = Some 0 \<and> state_is_valid 1 (xb s) \<and>
     gcoap_req_resp_handler gcoap_demo \<lparr>memo_st = GCOAP_MEMO_RESP, memo_ctx = Fstat 0\<rparr> (demo_block 0 True) s = Some s' \<and>
     fst (bs_poll_next 1 (xb s')) = Pending \<and>
     fst (bs_poll_next 0 (xb s')) = Ready (Some \<lparr>rq_addr = ''::1'', rq_uri = ''/a'', rq_idx = 0, rq_hdr = Some h\<rparr>)"
proof -
  let ?s = "demo_waiting\<lparr>xb := (xb demo_waiting)\<lparr>bw_states := [Some 0, Some 0, None, None]\<rparr>\<rparr>"
  have "bw_ok (xb ?s)" using demo_waiting_slot(1) by (simp add: slot_holds_def bw_ok_def bw_sizes)
  then have slot: "slot_holds 0 ''::1'' ''/a'' (xb ?s)" "bw_last (xb ?s) = Some 0" "bw_sd (xb ?s) ! 0 = []"
      "state_is_valid 1 (xb ?s)" "bw_sd (xb ?s) ! 1 = []"
    using demo_waiting_slot by (simp_all add: slot_holds_def state_is_valid_def bw_state_def)
      (simp add: demo_waiting_def bw_init_def bw_sizes)
  have k: "0 < length (xf ?s)" "xf ?s ! 0 = FRegistered" by (simp_all add: demo_waiting_slot)
  have l: "length ''::1'' \<le> REQ_ADDR_MAX" "length ''/a'' \<le> REQ_URI_MAX" by (simp_all add: REQ_ADDR_MAX_def REQ_URI_MAX_def)
  from demo_more_block [of "''/a''" 0] obtain b where b: "get_block2 gcoap_demo (demo_block 0 True) = Some b"
      "more_blocks b" "next_fits gcoap_demo ''/a'' (demo_block 0 True) b" "payload_ok (demo_block 0 True)"
    unfolding more_block_def by blast
  have ne: "''/a'' \<noteq> []" "(1 :: nat) \<noteq> 0" by simp_all
  from interleaved_response_misattributed [OF slot(1-3) l ne(1) slot(4) ne(2) slot(5) k b] slot(2,4)
  show ?thesis by blast
qed

text \<open>
  A timeout is not kept apart from a response. The handler of \<^verbatim>\<open>client.c\<close> returns before it
  looks for a Block2 option when the request timed out or failed; here the option is looked up
  in any case, so on a timeout whose packet shows a Block2 option with more blocks the future
  resolves to a timeout and yet the next block is queued.
\<close>

lemma timeout_queues_next_block:
  assumes "slot_holds i a u (xb s)" and "bw_last (xb s) = Some i" and "bw_sd (xb s) ! i = []"
    and "length a \<le> REQ_ADDR_MAX" and "length u \<le> REQ_URI_MAX" and "u \<noteq> []"
    and "k < length (xf s)" and "xf s ! k = FRegistered"
    and "get_block2 env pk = Some b" and "more_blocks b" and "next_fits env u pk b"
  shows "\<exists>s' h. gcoap_req_resp_handler env \<lparr>memo_st = GCOAP_MEMO_TIMEOUT, memo_ctx = Fstat k\<rparr> pk s = Some s' \<and>
     xf s' ! k = FResolved MTimeout \<and>
     fst (bs_poll_next i (xb s')) = Ready (Some \<lparr>rq_addr = a, rq_uri = u, rq_idx = i, rq_hdr = Some h\<rparr>)"
proof -
  let ?memo = "\<lparr>memo_st = GCOAP_MEMO_TIMEOUT, memo_ctx = Fstat k\<rparr>"
  define t where "t = xprintf (''@@ memo->state: '' @ dec (unat (memo_num (memo_st ?memo))) @ nl) (xbd_resp_report env ?memo pk s)"
  have t: "xb t = xb s" "xf t = xf s" by (simp_all add: t_def)
  have "slot_holds i a u (xb t)" "bw_last (xb t) = Some i" "bw_sd (xb t) ! i = []"
    using assms(1-3) by (simp_all add: t(1))
  from async_next [OF this assms(4-6,10,11)] obtain n pk1 where
      "next_block_packet env u pk b (g_log (xg t)) = (n, pk1)" and
      r: "resp_handler_blockwise_async env pk b t = Some (pk_buf pk1,
       t\<lparr>xg := gemit GReqInit (xg t), xb := (xb t)\<lparr>bw_sd := (bw_sd (xb t))[i :=
         [Some \<lparr>rq_addr = a, rq_uri = u, rq_idx = i, rq_hdr = Some (take (nat n) (pk_buf pk1))\<rparr>]]\<rparr>\<rparr>)"
    by blast
  have "i < length (bw_sd (xb s))"
    using assms(1) state_is_valid_less by (auto simp: slot_holds_def bw_ok_def)
  with r t assms(7-9) show ?thesis
    unfolding gcoap_req_resp_handler_def xbd_resp_handler_def Let_def t_def [symmetric]
    by (auto simp: copy_payload_def bs_poll_next_def xs_poll_next_def)
qed

lemma timeout_queues_next_block_witness:
  "\<exists>s' h. gcoap_req_resp_handler gcoap_demo \<lparr>memo_st = GCOAP_MEMO_TIMEOUT, memo_ctx = Fstat 0\<rparr> (demo_block 0 True)
       demo_waiting = Some s' \<and> xf s' ! 0 = FResolved MTimeout \<and>
     fst (bs_poll_next 0 (xb s')) = Ready (Some \<lparr>rq_addr = ''::1'', rq_uri = ''/a'', rq_idx = 0, rq_hdr = Some h\<rparr>)"
proof -
  have k: "0 < length (xf demo_waiting)" "xf demo_waiting ! 0 = FRegistered" by (simp_all add: demo_waiting_slot)
  have l: "length ''::1'' \<le> REQ_ADDR_MAX" "length ''/a'' \<le> REQ_URI_MAX" "''/a'' \<noteq> []"
    by (simp_all add: REQ_ADDR_MAX_def REQ_URI_MAX_def)
  from demo_more_block [of "''/a''" 0] obtain b where "get_block2 gcoap_demo (demo_block 0 True) = Some b"
      "more_blocks b" "next_fits gcoap_demo ''/a'' (demo_block 0 True) b"
    unfolding more_block_def by blast
  from timeout_queues_next_block [OF demo_waiting_slot(1-3) l k this] show ?thesis .
qed

text \<open>
  A request that cannot be sent is not reported to the task that awaits it. If the host name
  does not resolve, the C code prints a message and drops the request with its context: nothing
  is sent, the poll is pending and the future stays registered, with no request outstanding
  whose response could resolve it.
\<close>

lemma unsent_request_stays_registered:
  assumes "client_env env" and "\<forall>log. fst (name2ep env log zero_ep a) \<noteq> 0"
    and "k < length (xf s)" and "xf s ! k = FNew"
    and "c_string REQ_ADDR_MAX a" and "c_string REQ_URI_MAX u"
  shows "\<exists>s'. poll_plain env 1 a u None k s = Some (Pending, s') \<and> xf s' ! k = FRegistered \<and>
     reqs (xg s') = reqs (xg s)"
proof -
  let ?s = "s\<lparr>xf := (xf s)[k := FRegistered]\<rparr>"
  obtain len buf g where h: "xbd_header env u 1 False False 0 ?s = Some (len, buf, g)"
    by (cases "xbd_new_header env u 1 False (xg ?s)") (auto simp: xbd_header_def)
  then have g: "reqs g = reqs (xg s)"
    by (auto simp: xbd_header_def xbd_new_header_def Let_def split: prod.splits)
  have "\<exists>g'. xbd_send env buf len a (Fstat k) g1 = Some (0, g') \<and> reqs g' = reqs g1" for g1
  proof -
    have "fst (name2ep env (g_log g1) zero_ep a) \<noteq> 0" using assms(2) by blast
    then show ?thesis by (cases "name2ep env (g_log g1) zero_ep a") (auto simp: xbd_send_def resolve_def)
  qed
  then obtain g' where "xbd_send env buf len a (Fstat k) (xbd_req_log env a u len False 0 None 0 g) = Some (0, g')"
      "reqs g' = reqs g" by fastforce
  with h g assms(3,4) show ?thesis
    by (simp add: poll_plain_def gcoap_method_plain [OF assms(5,6)] xbd_gcoap_req_send_def)
qed

lemma unsent_request_stays_registered_witness:
  "\<exists>s'. poll_plain (gcoap_demo\<lparr>name2ep := (\<lambda>_ ep _. (- 22, ep))\<rparr>) 1 ''nohost'' ''/a'' None 0 (xbd_start\<lparr>xf := [FNew]\<rparr>) =
     Some (Pending, s') \<and> xf s' ! 0 = FRegistered \<and> reqs (xg s') = []"
proof -
  let ?env = "gcoap_demo\<lparr>name2ep := (\<lambda>_ ep _. (- 22, ep))\<rparr>"
  have "client_env ?env" using demo_client_env
    by (simp add: client_env_def finish_law_def init_law_def fmt_law_def headers_fit_def)
  moreover have "reqs (xg xbd_start) = []" by (simp add: xbd_start_def gcoap_start_def reqs_def)
  moreover have "c_string REQ_ADDR_MAX ''nohost''" "c_string REQ_URI_MAX ''/a''"
    by (simp_all add: c_string_def REQ_ADDR_MAX_def REQ_URI_MAX_def)
  ultimately show ?thesis
    using unsent_request_stays_registered [of ?env "''nohost''" 0 "xbd_start\<lparr>xf := [FNew]\<rparr>" "''/a''"] by simp
qed

text \<open>
  C18: In every run of the asynchronous client, whatever transfers are started, polled and closed
  and whatever responses arrive, at most four slots are in use, every stream holds at most one
  item, and the stored addresses and URIs are NUL-terminated, so the C code never reads past
  them.
\<close>

theorem xbd_run_invariant:
  assumes "run_steps (xbd_step env) calls xbd_start = Some s"
  shows "card {i. state_is_valid i (xb s)} \<le> BLOCKWISE_STATES_MAX \<and> (\<forall>q \<in> set (bw_sd (xb s)). length q \<le> 1) \<and>
     (\<forall>row \<in> set (grid_addr (xb s)) \<union> set (grid_uri (xb s)). nul_terminated row)"
proof -
  from xbd.inv_run [OF xbd_ok_start assms] have ok: "bw_ok (xb s)" by (simp add: xbd_ok_def)
  then show ?thesis using bw.card_used [OF ok] by (auto simp: bw_ok_def rows_ok_def)
qed

theorem xbd_run_invariant_witness:
  "\<exists>s. run_steps (xbd_step gcoap_demo) [NewTransfer ''::1'' ''/a'', NewTransfer ''::1'' ''/b''] xbd_start = Some s \<and>
     card {i. state_is_valid i (xb s)} \<le> BLOCKWISE_STATES_MAX"
proof -
  have "run_steps (xbd_step gcoap_demo) [NewTransfer ''::1'' ''/a'', NewTransfer ''::1'' ''/b''] xbd_start \<noteq> None"
    by code_simp
  then obtain s where "run_steps (xbd_step gcoap_demo) [NewTransfer ''::1'' ''/a'', NewTransfer ''::1'' ''/b'']
      xbd_start = Some s" by blast
  with xbd_run_invariant [OF this] show ?thesis by blast
qed

text \<open>
  Polling the follow-up request of a transfer sends exactly the header that the response
  handler encoded and queued, byte for byte, to the transfer's host, with the future of the new
  request as its context, and makes the transfer's slot the one used last.
\<close>

lemma poll_sends_stored_header:
  assumes "client_env env" and "\<forall>log. name2ep env log zero_ep a = (0, ep)"
    and "k < length (xf s)" and "xf s ! k = FNew" and "bw_ok (xb s)" and "state_is_valid i (xb s)"
    and "c_string REQ_ADDR_MAX a" and "c_string REQ_URI_MAX u"
    and "h \<noteq> []" and "length h < BLOCKWISE_HDR_MAX" and "length h \<le> pdu_buf_size env"
  shows "\<exists>s'. poll_blockwise env \<lparr>rq_addr = a, rq_uri = u, rq_idx = i, rq_hdr = Some h\<rparr> k s = Some (Pending, s') \<and>
     xf s' = (xf s)[k := FRegistered] \<and> bw_last (xb s') = Some i \<and>
     reqs (xg s') = reqs (xg s) @ [GReq h (default_port env ep) XbdHandler (Fstat k)]"
proof -
  have "hdr_fits env i (Some h) (xb s)" using assms(9-11) by (simp add: hdr_fits_def)
  from poll_blockwise_sends [OF assms(1-8) this] show ?thesis by (auto simp: request_message_def)
qed

lemma poll_sends_stored_header_witness:
  "\<exists>s'. poll_blockwise gcoap_demo \<lparr>rq_addr = ''::1'', rq_uri = ''/a'', rq_idx = 0, rq_hdr = Some [64, 1, 0, 7]\<rparr> 1
       (demo_waiting\<lparr>xf := [FTaken, FNew]\<rparr>) = Some (Pending, s') \<and> bw_last (xb s') = Some 0 \<and>
     reqs (xg s') = [GReq [64, 1, 0, 7] (default_port gcoap_demo (zero_ep\<lparr>family := AF_INET6\<rparr>)) XbdHandler (Fstat 1)]"
proof -
  let ?s = "demo_waiting\<lparr>xf := [FTaken, FNew]\<rparr>"
  have c: "c_string REQ_ADDR_MAX ''::1''" "c_string REQ_URI_MAX ''/a''"
    by (simp_all add: c_string_def REQ_ADDR_MAX_def REQ_URI_MAX_def)
  have st: "bw_ok (xb ?s)" "state_is_valid 0 (xb ?s)" using demo_waiting_slot(1) by (simp_all add: slot_holds_def)
  have h: "length [64, 1, 0, 7 :: byte] < BLOCKWISE_HDR_MAX" "length [64, 1, 0, 7 :: byte] \<le> pdu_buf_size gcoap_demo"
    by (simp_all add: BLOCKWISE_HDR_MAX_def gcoap_demo_def)
  have "reqs (xg ?s) = []" by (simp add: demo_waiting_def gcoap_start_def reqs_def)
  with poll_sends_stored_header [OF demo_client_env demo_name _ _ st c _ h, of 1] show ?thesis by auto
qed

text \<open>
  A URI that the client accepts can make the transfer panic. The follow-up header holds the
  whole URI and must fit 64 bytes; if the library needs more for it, the response handler
  panics in the callback instead of failing the request, although the URI itself was within its
  limit and the first block was delivered.
\<close>

lemma long_followup_header_panics:
  assumes "slot_holds i a u (xb s)" and "bw_last (xb s) = Some i" and "u \<noteq> []"
    and "get_block2 env pk = Some b" and "more_blocks b"
    and "\<forall>log. BLOCKWISE_HDR_MAX < nat (fst (next_block_packet env u pk b log)) \<and>
      fst (next_block_packet env u pk b log) < 2 ^ 31"
  shows "gcoap_req_resp_handler env memo pk s = None"
proof -
  define t where "t = xprintf (''@@ memo->state: '' @ dec (unat (memo_num (memo_st memo))) @ nl) (xbd_resp_report env memo pk s)"
  have t: "xb t = xb s" by (simp add: t_def)
  obtain n pk1 where p: "next_block_packet env u pk b (g_log (xg t)) = (n, pk1)" by fastforce
  from assms(6) have "BLOCKWISE_HDR_MAX < nat n" "n < 2 ^ 31" using p by (metis fst_conv)+
  moreover from this have "unat (word_of_int n :: u32) = nat n" by (intro unat_word_of_int) auto
  moreover have "nul_terminated (grid_addr (xb s) ! i)" "nul_terminated (grid_uri (xb s) ! i)"
    using assms(1) state_is_valid_less rows_ok_nth by (auto simp: slot_holds_def bw_ok_def)
  ultimately have "resp_handler_blockwise_async env pk b t = None"
    using assms(1-3,5) t p
    by (simp add: resp_handler_blockwise_async_def xbd_blockwise_state_index_def xbd_blockwise_addr_ptr_def
        xbd_blockwise_uri_ptr_def slot_holds_def send_blockwise_next_def Let_def)
  with assms(4) show ?thesis
    unfolding gcoap_req_resp_handler_def xbd_resp_handler_def Let_def t_def [symmetric] by auto
qed

lemma long_followup_header_panics_witness:
  "gcoap_req_resp_handler (gcoap_demo\<lparr>opt_finish := (\<lambda>_ pk. (70, pk))\<rparr>)
     \<lparr>memo_st = GCOAP_MEMO_RESP, memo_ctx = Fstat 0\<rparr> (demo_block 0 True) demo_waiting = None"
proof -
  let ?env = "gcoap_demo\<lparr>opt_finish := (\<lambda>_ pk. (70, pk))\<rparr>"
  have bl: "get_block2 ?env (demo_block 0 True) = Some \<lparr>blknum = 0, szx = 2, more_blocks = True\<rparr>"
    by (simp add: gcoap_demo_def demo_block_def)
  show ?thesis
    by (rule long_followup_header_panics [OF demo_waiting_slot(1,2) _ bl])
       (simp_all add: next_block_packet_def BLOCKWISE_HDR_MAX_def Let_def)
qed

end
