(* ===== verification/Xbd_Requests.thy ===== *)
theory Xbd_Requests
  imports Xbd_Gcoap
begin

text \<open>
  The requests that asynchronous code makes, \<^verbatim>\<open>src/xbd/gcoap.rs\<close> of \<^verbatim>\<open>examples/xbd-net\<close>: the functions
  \<^verbatim>\<open>gcoap_get\<close>, \<^verbatim>\<open>gcoap_post\<close>, \<^verbatim>\<open>gcoap_put\<close> and \<^verbatim>\<open>gcoap_get_blockwise\<close>, the enumeration of requests as a
  future, and the \<^verbatim>\<open>await\<close> of one: the first poll sends it, the response handler resolves it, and the
  poll that the waker causes returns the result. A panic is \<^const>\<open>None\<close>.
\<close>

section \<open>Requests\<close>

definition PAYLOAD_REQ_MAX :: nat where "PAYLOAD_REQ_MAX = 48"

abbreviation METHOD_GET :: u8 where "METHOD_GET \<equiv> 1"
abbreviation METHOD_POST :: u8 where "METHOD_POST \<equiv> 2"
abbreviation METHOD_PUT :: u8 where "METHOD_PUT \<equiv> 3"

record req_inner =
  ri_method :: u8
  ri_addr :: string
  ri_uri :: string
  ri_payload :: "bytes option"

datatype req = BlockwiseGet breq | Get req_inner | Post req_inner | Put req_inner

text \<open>\<^verbatim>\<open>Req::new\<close>: a string over its limit panics, and so does a method without a variant.\<close>

definition Req_new :: "u8 \<Rightarrow> string \<Rightarrow> string \<Rightarrow> bytes option \<Rightarrow> req option" where
  "Req_new method a u payload =
     (if REQ_ADDR_MAX < length a \<or> REQ_URI_MAX < length u then None
      else
        (let inner = \<lparr>ri_method = method, ri_addr = a, ri_uri = u, ri_payload = payload\<rparr> in
         if method = METHOD_GET then Some (Get inner)
         else if method = METHOD_POST then Some (Post inner)
         else if method = METHOD_PUT then Some (Put inner)
         else None))"

definition gcoap_get :: "string \<Rightarrow> string \<Rightarrow> req option" where
  "gcoap_get a u = Req_new METHOD_GET a u None"

text \<open>\<^verbatim>\<open>Vec::from_slice(payload).unwrap()\<close>\<close>

definition payload_vec :: "bytes \<Rightarrow> bytes option" where
  "payload_vec payload = (if length payload \<le> PAYLOAD_REQ_MAX then Some payload else None)"

definition gcoap_post :: "string \<Rightarrow> string \<Rightarrow> bytes \<Rightarrow> req option" where
  "gcoap_post a u payload = payload_vec payload \<bind> (\<lambda>p. Req_new METHOD_POST a u (Some p))"

definition gcoap_put :: "string \<Rightarrow> string \<Rightarrow> bytes \<Rightarrow> req option" where
  "gcoap_put a u payload = payload_vec payload \<bind> (\<lambda>p. Req_new METHOD_PUT a u (Some p))"

definition gcoap_get_blockwise :: "string \<Rightarrow> string \<Rightarrow> xbd_app \<Rightarrow> ((bw_error + nat) \<times> xbd_app) option" where
  "gcoap_get_blockwise a u s = map_option (\<lambda>(r, st). (r, s\<lparr>xb := st\<rparr>)) (send_blockwise_new a u (xb s))"

text \<open>\<^verbatim>\<open>Req::poll\<close>; the state of the future is entry \<open>k\<close> of the list of futures.\<close>

definition poll_inner :: "gcoap_env \<Rightarrow> req_inner \<Rightarrow> nat \<Rightarrow> xbd_app \<Rightarrow> (gmemo_state poll \<times> xbd_app) option" where
  "poll_inner env r k s = poll_plain env (ri_method r) (ri_addr r) (ri_uri r) (ri_payload r) k s"

fun poll_req :: "gcoap_env \<Rightarrow> req \<Rightarrow> nat \<Rightarrow> xbd_app \<Rightarrow> (gmemo_state poll \<times> xbd_app) option" where
  "poll_req env (BlockwiseGet b) k s = poll_blockwise env b k s"
| "poll_req env (Get r) k s = poll_inner env r k s"
| "poll_req env (Post r) k s = poll_inner env r k s"
| "poll_req env (Put r) k s = poll_inner env r k s"

text \<open>
  \<^verbatim>\<open>req.await\<close>, with the response the library reports for it: the memo state and the packet. A future
  that is ready at its first poll needs none.
\<close>

definition await_req :: "gcoap_env \<Rightarrow> req \<Rightarrow> memo_state \<Rightarrow> coap_pkt \<Rightarrow> xbd_app \<Rightarrow> (gmemo_state \<times> xbd_app) option" where
  "await_req env req state pk s =
     (let (k, s) = fut_new s in
      do {
        (r, s) \<leftarrow> poll_req env req k s;
        case r of
          Ready m \<Rightarrow> Some (m, s)
        | Pending \<Rightarrow> do {
            s \<leftarrow> gcoap_req_resp_handler env \<lparr>memo_st = state, memo_ctx = Fstat k\<rparr> pk s;
            (r, s) \<leftarrow> poll_req env req k s;
            case r of Ready m \<Rightarrow> Some (m, s) | Pending \<Rightarrow> None
          }
      })"

section \<open>Lemmas\<close>

text \<open>The packet of a new request, before its payload.\<close>

definition plain_packet :: "gcoap_env \<Rightarrow> u8 \<Rightarrow> string \<Rightarrow> bool \<Rightarrow> glog \<Rightarrow> int \<times> coap_pkt" where
  "plain_packet env method u has_payload log =
     opt_finish env has_payload (set_type env COAP_TYPE_NON (req_init env log (stack_buf env) method (Some u)))"

lemma plain_packet_buf:
  assumes "client_env env" and "plain_packet env m u p log = (n, pk)"
  shows "length (pk_buf pk) = pdu_buf_size env"
  using finish_lawD(1) [of env p] assms by (auto simp: client_env_def init_law_def plain_packet_def)

text \<open>Sending a message with data behind its header.\<close>

lemma xbd_gcoap_req_send_data:
  assumes env: "client_env env" and name: "\<forall>log. name2ep env log zero_ep a = (0, ep)"
    and hdr: "xbd_header env u m (d \<noteq> []) blockwise idx s = Some (len, buf, g)" "reqs g = reqs (xg s)"
    and fit: "unat len + length d \<le> length buf" "length buf < 2 ^ 30"
  shows "\<exists>s'. xbd_gcoap_req_send env a u m (Some d) blockwise idx ctx s = Some s' \<and> xb s' = xb s \<and> xf s' = xf s \<and>
     reqs (xg s') = reqs (xg s) @ [GReq (take (unat len) buf @ d) (default_port env ep) XbdHandler ctx]"
proof -
  define g1 where "g1 = xbd_req_log env a u len blockwise idx (Some d) (length d) g"
  have g1: "reqs g1 = reqs (xg s)" using hdr(2) by (simp add: g1_def)
  let ?len = "len + word_of_nat (length d)" and ?buf = "take (unat len) buf @ d @ drop (unat len + length d) buf"
  define l where "l = unat len"
  have "int l + int (length d) < 2 ^ 32" using fit unfolding l_def [symmetric] by simp
  from unat_small_sum [OF _ this] have sum: "unat ?len = unat len + length d" by (simp add: l_def)
  have w: "(if d \<noteq> [] then mem_write (unat len) d buf else Some buf) = Some ?buf"
    using fit by (auto simp: mem_write_def)
  have size: "unat ?len \<le> length ?buf" using sum fit by simp
  have msg: "take (unat ?len) ?buf = take (unat len) buf @ d" using sum fit by simp
  from xbd_send_request [OF size name] obtain n g2 where g2: "xbd_send env ?buf ?len a ctx g1 = Some (n, g2)"
      "reqs g2 = reqs (xg s) @ [GReq (take (unat len) buf @ d) (default_port env ep) XbdHandler ctx]"
    unfolding g1 [symmetric] msg by blast
  obtain g3 where g3: "notify_observers env g2 = Some g3" using notify_returns [OF env] by blast
  have "xbd_gcoap_req_send env a u m (Some d) blockwise idx ctx s =
      Some (s\<lparr>xg := if n = 0 then gputs ''gcoap_cli: msg send failed'' g2 else g3\<rparr>)"
    using hdr(1) g2(1) g3 w by (simp add: xbd_gcoap_req_send_def Let_def flip: g1_def)
  then show ?thesis using g2(2) notify_frame [OF g3] by simp
qed

text \<open>The first poll of a plain request sends it; \<open>d\<close> is its payload, empty for a GET.\<close>

definition req_data :: "req_inner \<Rightarrow> bytes" where
  "req_data r = (if ri_method r = METHOD_GET then [] else the (ri_payload r))"

definition well_made :: "req_inner \<Rightarrow> bool" where
  "well_made r \<longleftrightarrow> c_string REQ_ADDR_MAX (ri_addr r) \<and> c_string REQ_URI_MAX (ri_uri r) \<and>
     (ri_method r = METHOD_GET \<or> ri_method r \<in> {METHOD_POST, METHOD_PUT} \<and> ri_payload r \<noteq> None)"

lemma poll_inner_sends:
  assumes env: "client_env env" and name: "\<forall>log. name2ep env log zero_ep (ri_addr r) = (0, ep)"
    and r: "well_made r" and k: "k < length (xf s)" "xf s ! k = FNew"
    and pk: "plain_packet env (ri_method r) (ri_uri r) (req_data r \<noteq> []) (g_log (xg s)) = (n, pk)"
    and fit: "0 \<le> n" "nat n + length (req_data r) \<le> pdu_buf_size env"
  shows "\<exists>s'. poll_inner env r k s = Some (Pending, s') \<and> xb s' = xb s \<and> xf s' = (xf s)[k := FRegistered] \<and>
     reqs (xg s') = reqs (xg s) @
       [GReq (take (nat n) (pk_buf pk) @ req_data r) (default_port env ep) XbdHandler (Fstat k)]"
proof -
  let ?s = "s\<lparr>xf := (xf s)[k := FRegistered]\<rparr>"
  have max: "pdu_buf_size env < 2 ^ 30" using env by (simp add: client_env_def headers_fit_def)
  have len: "unat (word_of_int n :: u32) = nat n" using fit max by (intro unat_word_of_int) auto
  have buf: "length (pk_buf pk) = pdu_buf_size env" using plain_packet_buf [OF env pk] .
  obtain g where h: "xbd_header env (ri_uri r) (ri_method r) (req_data r \<noteq> []) False 0 ?s = Some (word_of_int n, pk_buf pk, g)"
      "reqs g = reqs (xg ?s)"
    using pk by (simp add: xbd_header_def xbd_new_header_def plain_packet_def Let_def)
  from r have c: "c_string REQ_ADDR_MAX (ri_addr r)" "c_string REQ_URI_MAX (ri_uri r)" by (simp_all add: well_made_def)
  have "\<exists>s'. gcoap_method env (ri_method r) (ri_addr r) (ri_uri r) (ri_payload r) (Fstat k) ?s = Some s' \<and>
      xb s' = xb s \<and> xf s' = xf ?s \<and> reqs (xg s') = reqs (xg s) @
        [GReq (take (nat n) (pk_buf pk) @ req_data r) (default_port env ep) XbdHandler (Fstat k)]"
  proof (cases "ri_method r = METHOD_GET")
    case True
    then have d: "req_data r = []" by (simp add: req_data_def)
    have "unat (word_of_int n :: u32) \<le> length (pk_buf pk)" using len fit buf by simp
    from xbd_gcoap_req_send_request [OF env name h(1) [unfolded d, simplified] this h(2), of "Fstat k"] show ?thesis
      unfolding True gcoap_method_plain(1) [OF c] by (simp add: d len True)
  next
    case False
    then obtain d where d: "ri_payload r = Some d" "req_data r = d" "ri_method r \<in> {METHOD_POST, METHOD_PUT}"
      using r by (auto simp: well_made_def req_data_def)
    have "unat (word_of_int n :: u32) + length d \<le> length (pk_buf pk)" "length (pk_buf pk) < 2 ^ 30"
      using len fit buf d(2) max by simp_all
    from xbd_gcoap_req_send_data [OF env name h(1) [unfolded d(2)] h(2) this, of "Fstat k"] show ?thesis
      unfolding d(1) gcoap_method_plain(2) [OF c d(3)] by (simp add: d(2) len)
  qed
  with k show ?thesis by (auto simp: poll_inner_def poll_plain_def)
qed

text \<open>A response without a Block2 option leaves the blockwise store alone.\<close>

definition memo_result :: "memo_state \<Rightarrow> coap_pkt \<Rightarrow> gmemo_state" where
  "memo_result state pk = (case state of
     GCOAP_MEMO_RESP \<Rightarrow> MResp (delivered pk (pk_buf pk))
   | GCOAP_MEMO_RESP_TRUNC \<Rightarrow> MRespTrunc (delivered pk (pk_buf pk))
   | GCOAP_MEMO_TIMEOUT \<Rightarrow> MTimeout
   | _ \<Rightarrow> MErr)"

abbreviation final_memo :: "memo_state \<Rightarrow> bool" where
  "final_memo state \<equiv> state \<in> {GCOAP_MEMO_RESP, GCOAP_MEMO_RESP_TRUNC, GCOAP_MEMO_TIMEOUT, GCOAP_MEMO_ERR}"

lemma response_plain:
  assumes k: "k < length (xf s)" "xf s ! k = FRegistered" and b: "get_block2 env pk = None"
    and ok: "payload_ok pk" and m: "final_memo state"
  shows "\<exists>s'. gcoap_req_resp_handler env \<lparr>memo_st = state, memo_ctx = Fstat k\<rparr> pk s = Some s' \<and>
     xf s' = (xf s)[k := FResolved (memo_result state pk)] \<and> xb s' = xb s \<and> reqs (xg s') = reqs (xg s)"
proof -
  let ?memo = "\<lparr>memo_st = state, memo_ctx = Fstat k\<rparr>"
  define t where "t = xprintf (''@@ memo->state: '' @ dec (unat (memo_num (memo_st ?memo))) @ nl) (xbd_resp_report env ?memo pk s)"
  have t: "xb t = xb s" "xf t = xf s" "reqs (xg t) = reqs (xg s)" by (simp_all add: t_def)
  show ?thesis
    using m copy_payload_delivered [OF ok refl] b k t
    unfolding gcoap_req_resp_handler_def xbd_resp_handler_def Let_def t_def [symmetric]
    by (auto simp: memo_result_def copy_payload_def)
qed

lemma poll_req_plain:
  "poll_req env (Get r) = poll_inner env r" "poll_req env (Post r) = poll_inner env r" "poll_req env (Put r) = poll_inner env r"
  by (simp_all add: fun_eq_iff)

text \<open>The whole \<^verbatim>\<open>await\<close> of a plain request.\<close>

lemma await_inner:
  assumes req: "poll_req env req = poll_inner env r" and env: "client_env env"
    and name: "\<forall>log. name2ep env log zero_ep (ri_addr r) = (0, ep)" and r: "well_made r"
    and pk: "plain_packet env (ri_method r) (ri_uri r) (req_data r \<noteq> []) (g_log (xg s)) = (n, pk0)"
    and fit: "0 \<le> n" "nat n + length (req_data r) \<le> pdu_buf_size env"
    and resp: "get_block2 env pk = None" "payload_ok pk" "final_memo state"
  shows "\<exists>s'. await_req env req state pk s = Some (memo_result state pk, s') \<and> xb s' = xb s \<and>
     reqs (xg s') = reqs (xg s) @
       [GReq (take (nat n) (pk_buf pk0) @ req_data r) (default_port env ep) XbdHandler (Fstat (length (xf s)))]"
proof -
  let ?k = "length (xf s)" and ?s = "s\<lparr>xf := xf s @ [FNew]\<rparr>"
  have k: "?k < length (xf ?s)" "xf ?s ! ?k = FNew" by simp_all
  from poll_inner_sends [OF env name r k, of n pk0] pk fit obtain t where
      t: "poll_inner env r ?k ?s = Some (Pending, t)" "xb t = xb s" "xf t = xf s @ [FRegistered]"
        "reqs (xg t) = reqs (xg s) @
          [GReq (take (nat n) (pk_buf pk0) @ req_data r) (default_port env ep) XbdHandler (Fstat ?k)]"
    by auto
  have "?k < length (xf t)" "xf t ! ?k = FRegistered" using t(3) by simp_all
  from response_plain [OF this resp] obtain t' where
      t': "gcoap_req_resp_handler env \<lparr>memo_st = state, memo_ctx = Fstat ?k\<rparr> pk t = Some t'"
        "xf t' = xf s @ [FResolved (memo_result state pk)]" "xb t' = xb t" "reqs (xg t') = reqs (xg t)"
    using t(3) by auto
  from t'(2) have "poll_inner env r ?k t' = Some (Ready (memo_result state pk), t'\<lparr>xf := xf s @ [FTaken]\<rparr>)"
    by (simp add: poll_inner_def poll_plain_def)
  with t t' req show ?thesis by (auto simp: await_req_def fut_new_def)
qed

section \<open>Properties\<close>

text \<open>The function for a method; a GET has no payload.\<close>

definition gcoap_call :: "u8 \<Rightarrow> string \<Rightarrow> string \<Rightarrow> bytes \<Rightarrow> req option" where
  "gcoap_call m a u d =
     (if m = METHOD_GET then gcoap_get a u else if m = METHOD_POST then gcoap_post a u d else gcoap_put a u d)"

lemma gcoap_call_req:
  assumes "c_string REQ_ADDR_MAX a" and "c_string REQ_URI_MAX u" and "m \<in> {METHOD_GET, METHOD_POST, METHOD_PUT}"
    and "length d \<le> PAYLOAD_REQ_MAX" and "m = METHOD_GET \<longrightarrow> d = []"
  shows "\<exists>req r. gcoap_call m a u d = Some req \<and> poll_req env req = poll_inner env r \<and> well_made r \<and>
     ri_method r = m \<and> ri_addr r = a \<and> ri_uri r = u \<and> req_data r = d"
proof (intro exI conjI)
  let ?r = "\<lparr>ri_method = m, ri_addr = a, ri_uri = u, ri_payload = if m = METHOD_GET then None else Some d\<rparr>"
  let ?req = "if m = METHOD_GET then Get ?r else if m = METHOD_POST then Post ?r else Put ?r"
  show "gcoap_call m a u d = Some ?req" using assms
    by (auto simp: gcoap_call_def gcoap_get_def gcoap_post_def gcoap_put_def payload_vec_def Req_new_def c_string_def Let_def)
  show "poll_req env ?req = poll_inner env ?r" by (simp add: poll_req_plain)
  show "well_made ?r" "req_data ?r = d" using assms by (auto simp: well_made_def req_data_def)
qed simp_all

text \<open>
  C6: A request is answered. \<^verbatim>\<open>gcoap_get\<close>, \<^verbatim>\<open>gcoap_post\<close> and \<^verbatim>\<open>gcoap_put\<close> with strings within their limits, and
  a payload of at most 48 bytes that fits behind the header, make a future whose \<^verbatim>\<open>await\<close> sends exactly
  one message, the encoded header followed by the payload, to the resolved host, and returns what
  the library reports: the payload of the response, in full or truncated, a timeout or an error.
  The blockwise transfers are not touched.
\<close>

theorem request_answered:
  assumes "client_env env" and "\<forall>log. name2ep env log zero_ep a = (0, ep)"
    and "c_string REQ_ADDR_MAX a" and "c_string REQ_URI_MAX u" and "m \<in> {METHOD_GET, METHOD_POST, METHOD_PUT}"
    and "length d \<le> PAYLOAD_REQ_MAX" and "m = METHOD_GET \<longrightarrow> d = []"
    and "plain_packet env m u (d \<noteq> []) (g_log (xg s)) = (n, pk0)" and "0 \<le> n" and "nat n + length d \<le> pdu_buf_size env"
    and "get_block2 env pk = None" and "payload_ok pk" and "final_memo state"
  shows "\<exists>req s'. gcoap_call m a u d = Some req \<and> await_req env req state pk s = Some (memo_result state pk, s') \<and>
     xb s' = xb s \<and> reqs (xg s') = reqs (xg s) @
       [GReq (take (nat n) (pk_buf pk0) @ d) (default_port env ep) XbdHandler (Fstat (length (xf s)))]"
proof -
  from gcoap_call_req [OF assms(3-7), of env] obtain req r where req: "gcoap_call m a u d = Some req"
      "poll_req env req = poll_inner env r" "well_made r" "ri_method r = m" "ri_addr r = a" "ri_uri r = u" "req_data r = d"
    by blast
  with await_inner [OF req(2) assms(1) _ req(3) _ assms(9), of ep s pk0 pk state] assms(2,8,10-13) show ?thesis by auto
qed

text \<open>A PUT of four bytes, answered by three.\<close>

definition plain_demo :: coap_pkt where
  "plain_demo = (demo_block 0 False)\<lparr>pk_opts := []\<rparr>"

lemma plain_demo_simps:
  "get_block2 gcoap_demo plain_demo = None" "payload_ok plain_demo"
  "memo_result GCOAP_MEMO_RESP plain_demo = MResp (Some [1, 2, 3])"
  by (simp_all add: plain_demo_def demo_block_def gcoap_demo_def payload_ok_def PAYLOAD_OUT_MAX_def memo_result_def delivered_def)

theorem request_answered_witness:
  "\<exists>req s' hdr. gcoap_call METHOD_PUT ''[::1]'' ''/cli/stats'' (bytes_of ''1000'') = Some req \<and>
     await_req gcoap_demo req GCOAP_MEMO_RESP plain_demo xbd_start = Some (MResp (Some [1, 2, 3]), s') \<and>
     reqs (xg s') = [GReq (hdr @ bytes_of ''1000'') (default_port gcoap_demo (zero_ep\<lparr>family := AF_INET6\<rparr>)) XbdHandler (Fstat 0)]"
proof -
  let ?pk = "plain_packet gcoap_demo METHOD_PUT ''/cli/stats'' (bytes_of ''1000'' \<noteq> []) (g_log (xg xbd_start))"
  have c: "c_string REQ_ADDR_MAX ''[::1]''" "c_string REQ_URI_MAX ''/cli/stats''" "METHOD_PUT \<in> {METHOD_GET, METHOD_POST, METHOD_PUT}"
    "length (bytes_of ''1000'') \<le> PAYLOAD_REQ_MAX" "METHOD_PUT = METHOD_GET \<longrightarrow> bytes_of ''1000'' = []"
    by (simp_all add: c_string_def REQ_ADDR_MAX_def REQ_URI_MAX_def PAYLOAD_REQ_MAX_def)
  have p: "?pk = (fst ?pk, snd ?pk)" "0 \<le> fst ?pk" "nat (fst ?pk) + length (bytes_of ''1000'') \<le> pdu_buf_size gcoap_demo"
    by (simp_all add: plain_packet_def gcoap_demo_def demo_finish_def demo_pkt_def stack_buf_def)
  have m: "final_memo GCOAP_MEMO_RESP" by simp
  have s: "reqs (xg xbd_start) = []" "xf xbd_start = []" by (simp_all add: xbd_start_def gcoap_start_def reqs_def)
  from request_answered [OF demo_client_env demo_name c p plain_demo_simps(1,2) m]
  show ?thesis unfolding plain_demo_simps(3) s by auto
qed

text \<open>
  C35: A plain request must not be answered in blocks. The response handler of all requests looks for
  a Block2 option and then unwraps the index of the blockwise transfer polled last; a plain
  \<^verbatim>\<open>gcoap_get\<close> never sets it. So as long as no blockwise transfer has been polled, a server that
  answers a plain request with the first block of a long resource stops the firmware with a panic
  in the callback, after the request was sent.
\<close>

theorem blockwise_answer_to_plain_get_panics:
  assumes "client_env env" and "\<forall>log. name2ep env log zero_ep a = (0, ep)"
    and "c_string REQ_ADDR_MAX a" and "c_string REQ_URI_MAX u" and "bw_last (xb s) = None"
    and "get_block2 env pk = Some b"
  shows "\<exists>req s'. gcoap_get a u = Some req \<and>
     poll_req env req (length (xf s)) (snd (fut_new s)) = Some (Pending, s') \<and>
     length (reqs (xg s')) = Suc (length (reqs (xg s))) \<and>
     gcoap_req_resp_handler env \<lparr>memo_st = state, memo_ctx = Fstat (length (xf s))\<rparr> pk s' = None \<and>
     await_req env req state pk s = None"
proof -
  let ?k = "length (xf s)" and ?s = "s\<lparr>xf := xf s @ [FNew]\<rparr>"
  from gcoap_call_req [OF assms(3,4), of METHOD_GET "[]" env] obtain req r where req: "gcoap_get a u = Some req"
      "poll_req env req = poll_inner env r" "well_made r" "ri_method r = METHOD_GET" "ri_addr r = a" "ri_uri r = u" "req_data r = []"
    by (auto simp: gcoap_call_def)
  obtain n pk0 where p: "first_packet env u (g_log (xg s)) = (n, pk0)" by fastforce
  note size = first_packet_size [OF assms(1) p]
  from p have p': "plain_packet env (ri_method r) (ri_uri r) (req_data r \<noteq> []) (g_log (xg ?s)) = (n, pk0)"
    by (simp add: plain_packet_def first_packet_def req)
  have k: "?k < length (xf ?s)" "xf ?s ! ?k = FNew" by simp_all
  from poll_inner_sends [OF assms(1) _ req(3) k p'] assms(2) size req(5,7) obtain t where
      t: "poll_inner env r ?k ?s = Some (Pending, t)" "xb t = xb s" "length (reqs (xg t)) = Suc (length (reqs (xg s)))"
    by auto
  have "gcoap_req_resp_handler env \<lparr>memo_st = state, memo_ctx = Fstat ?k\<rparr> pk t = None"
    using assms(5,6) t(2)
    by (simp add: gcoap_req_resp_handler_def xbd_resp_handler_def resp_handler_blockwise_async_def
        xbd_blockwise_state_index_def Let_def)
  with t req(1,2) show ?thesis by (auto simp: await_req_def fut_new_def)
qed

theorem blockwise_answer_to_plain_get_panics_witness:
  "\<exists>req. gcoap_get ''[::1]'' ''/const/song.txt'' = Some req \<and>
     await_req gcoap_demo req GCOAP_MEMO_RESP (demo_block 0 True) xbd_start = None"
proof -
  have c: "c_string REQ_ADDR_MAX ''[::1]''" "c_string REQ_URI_MAX ''/const/song.txt''" "bw_last (xb xbd_start) = None"
    by (simp_all add: c_string_def REQ_ADDR_MAX_def REQ_URI_MAX_def xbd_start_def bw_init_def)
  from blockwise_answer_to_plain_get_panics [OF demo_client_env demo_name c demo_block_simps(1)] show ?thesis by blast
qed

text \<open>A payload over the limit panics where the request is made.\<close>

lemma long_payload_panics: "PAYLOAD_REQ_MAX < length d \<Longrightarrow> gcoap_post a u d = None \<and> gcoap_put a u d = None"
  by (simp add: gcoap_post_def gcoap_put_def payload_vec_def)

end
