(* ===== verification/Xbd_Loopback.thy ===== *)
theory Xbd_Loopback
  imports Xbd_Requests Xbd_Server Xbd_Events
begin

text \<open>
  The firmware of \<^verbatim>\<open>examples/xbd-net\<close> as its own client. A future of \<^verbatim>\<open>gcoap.rs\<close> sends its request to the
  node itself; the message comes back as a socket event, which \<^verbatim>\<open>server.rs\<close> puts into the stream of
  the server task; a turn of the task reads it, calls the exported handler and sends the response,
  which comes back on the same socket and through the same stream, and resolves the future at
  another turn. Client and server share the static variables of \<^verbatim>\<open>minerva_gcoap\<close>: sending a request
  increments the counter that \<^verbatim>\<open>/cli/stats\<close> serves.

  The library between the socket and the handlers is the record \<open>wire\<close>.
\<close>

section \<open>The node\<close>

text \<open>
  \<open>w_dispatch\<close> is the handler the library calls for a message with the packet it has parsed, or the
  reply it makes on its own; \<open>w_reply\<close> is the message it sends for the result of a handler and the
  packet it wrote; \<open>w_response\<close> is the packet it parses from a response.
\<close>

record wire =
  w_self :: sock_ep
  w_dispatch :: "bytes \<Rightarrow> bytes option + exported_handler \<times> coap_pkt"
  w_reply :: "int \<Rightarrow> coap_pkt \<Rightarrow> bytes option"
  w_response :: "bytes \<Rightarrow> coap_pkt"

text \<open>What is waiting at the socket, with the context of the request it is or belongs to.\<close>

datatype datagram = Request bytes gctx | Response bytes gctx

record node =
  nd_app :: xbd_app
  nd_events :: sock_events
  nd_inbox :: "datagram list"

definition node_start :: node where
  "node_start = \<lparr>nd_app = xbd_start, nd_events = \<lparr>server_sd = [], handled = []\<rparr>, nd_inbox = []\<rparr>"

text \<open>Every datagram comes with an event of its socket.\<close>

definition arrive :: "datagram \<Rightarrow> node \<Rightarrow> node option" where
  "arrive d s =
     do { ev \<leftarrow> on_sock_evt (False, 0, SOCK_ASYNC_MSG_RECV, 0) (nd_events s);
          Some (s\<lparr>nd_events := ev, nd_inbox := nd_inbox s @ [d]\<rparr>) }"

definition to_self :: "wire \<Rightarrow> gcoap_ev list \<Rightarrow> datagram list" where
  "to_self w es = concat (map (\<lambda>e. case e of GReq msg ep XbdHandler ctx \<Rightarrow> if ep = w_self w then [Request msg ctx] else [] | _ \<Rightarrow> []) es)"

text \<open>A poll, and what it sends to the node itself.\<close>

definition poll_node :: "gcoap_env \<Rightarrow> wire \<Rightarrow> req \<Rightarrow> nat \<Rightarrow> node \<Rightarrow> (gmemo_state poll \<times> node) option" where
  "poll_node env w req k s =
     do {
       (r, x) \<leftarrow> poll_req env req k (nd_app s);
       s \<leftarrow> run_steps arrive (to_self w (drop (length (reqs (xg (nd_app s)))) (reqs (xg x)))) (s\<lparr>nd_app := x\<rparr>);
       Some (r, s)
     }"

text \<open>What the library does with a datagram.\<close>

definition send_back :: "bytes option \<Rightarrow> gctx \<Rightarrow> node \<Rightarrow> node option" where
  "send_back m ctx s = (case m of None \<Rightarrow> Some s | Some msg \<Rightarrow> arrive (Response msg ctx) s)"

fun receive :: "gcoap_env \<Rightarrow> fileserver \<Rightarrow> wire \<Rightarrow> datagram \<Rightarrow> node \<Rightarrow> node option" where
  "receive env fs w (Request msg ctx) s =
     (case w_dispatch w msg of
        Inl m \<Rightarrow> send_back m ctx s
      | Inr (h, pk) \<Rightarrow> do {
          (n, pk, g) \<leftarrow> call_handler env fs h pk (xg (nd_app s));
          send_back (w_reply w n pk) ctx (s\<lparr>nd_app := (nd_app s)\<lparr>xg := g\<rparr>\<rparr>)
        })"
| "receive env fs w (Response msg ctx) s =
     do {
       x \<leftarrow> gcoap_req_resp_handler env \<lparr>memo_st = GCOAP_MEMO_RESP, memo_ctx = ctx\<rparr> (w_response w msg) (nd_app s);
       Some (s\<lparr>nd_app := x\<rparr>)
     }"

text \<open>A turn of the server task: an event, and the datagram that came with it.\<close>

definition server_turn :: "gcoap_env \<Rightarrow> fileserver \<Rightarrow> wire \<Rightarrow> node \<Rightarrow> node option" where
  "server_turn env fs w s =
     (let s' = s\<lparr>nd_events := process_gcoap_server (nd_events s)\<rparr> in
      if server_sd (nd_events s) = [] then Some s'
      else (case nd_inbox s of [] \<Rightarrow> Some s' | d # ds \<Rightarrow> receive env fs w d (s'\<lparr>nd_inbox := ds\<rparr>)))"

text \<open>The executor: a task awaits a request while the server task has turns.\<close>

definition await_node :: "gcoap_env \<Rightarrow> fileserver \<Rightarrow> wire \<Rightarrow> nat \<Rightarrow> req \<Rightarrow> node \<Rightarrow> (gmemo_state \<times> node) option" where
  "await_node env fs w turns req s =
     (let (k, x) = fut_new (nd_app s) in
      do {
        (r, s) \<leftarrow> poll_node env w req k (s\<lparr>nd_app := x\<rparr>);
        case r of
          Ready m \<Rightarrow> Some (m, s)
        | Pending \<Rightarrow> do {
            s \<leftarrow> run_steps (\<lambda>_. server_turn env fs w) (replicate turns ()) s;
            (r, s) \<leftarrow> poll_node env w req k s;
            case r of Ready m \<Rightarrow> Some (m, s) | Pending \<Rightarrow> None
          }
      })"

text \<open>Requests for the resources of the node, one after the other, with two turns for each.\<close>

datatype self_call = Get_stats | Get_board | Set_stats u8 nat

fun self_req :: "string \<Rightarrow> self_call \<Rightarrow> req option" where
  "self_req a Get_stats = gcoap_get a ''/cli/stats''"
| "self_req a Get_board = gcoap_get a ''/riot/board''"
| "self_req a (Set_stats m k) =
     (if m = METHOD_POST then gcoap_post a ''/cli/stats'' (bytes_of (dec k)) else gcoap_put a ''/cli/stats'' (bytes_of (dec k)))"

fun self_calls :: "gcoap_env \<Rightarrow> fileserver \<Rightarrow> wire \<Rightarrow> string \<Rightarrow> self_call list \<Rightarrow> node \<Rightarrow> (gmemo_state list \<times> node) option" where
  "self_calls env fs w a [] s = Some ([], s)"
| "self_calls env fs w a (c # cs) s =
     do {
       req \<leftarrow> self_req a c;
       (m, s) \<leftarrow> await_node env fs w 2 req s;
       (ms, s) \<leftarrow> self_calls env fs w a cs s;
       Some (m # ms, s)
     }"

text \<open>What these requests do, as operations on one number.\<close>

fun service :: "self_call \<Rightarrow> u16 \<Rightarrow> gmemo_state \<times> u16" where
  "service Get_stats c = (MResp (Some (bytes_of (dec (unat (c + 1))))), c + 1)"
| "service Get_board c = (MResp (Some (bytes_of ''minerva'')), c + 1)"
| "service (Set_stats m k) c = (MResp None, word_of_nat k)"

fun services :: "self_call list \<Rightarrow> u16 \<Rightarrow> gmemo_state list \<times> u16" where
  "services [] c = ([], c)"
| "services (call # cs) c =
     (let (m, c) = service call c; (ms, c) = services cs c in (m # ms, c))"

section \<open>Documented behaviour\<close>

text \<open>
  \<^verbatim>\<open>gcoap_req_send\<close> succeeds, with a positive length. The buffers have room for the header with the
  five digits of a number, and for a response with the seven characters of the board's name.
\<close>

definition sends_law :: "gcoap_env \<Rightarrow> bool" where
  "sends_law env \<longleftrightarrow> (\<forall>log msg ep. 0 < req_send env log msg ep \<and> req_send env log msg ep < 2 ^ 31)"

definition exchange_fits :: "gcoap_env \<Rightarrow> bool" where
  "exchange_fits env \<longleftrightarrow>
     (\<forall>m log. 0 \<le> fst (plain_packet env m ''/cli/stats'' True log) \<and>
        nat (fst (plain_packet env m ''/cli/stats'' True log)) + 5 \<le> pdu_buf_size env) \<and>
     (\<forall>pk. length (pk_buf pk) = pdu_buf_size env \<longrightarrow>
        0 \<le> fst (stats_reply env pk) \<and> 7 \<le> pk_payload_len (snd (stats_reply env pk))) \<and>
     (\<forall>pk. length (pk_buf pk) = pdu_buf_size env \<longrightarrow> 0 < fst (response env COAP_CODE_CHANGED pk) \<and>
        nat (fst (response env COAP_CODE_CHANGED pk)) \<le> length (pk_buf (snd (response env COAP_CODE_CHANGED pk))))"

text \<open>
  A message that begins with the header of a request is dispatched to the handler of its path in a
  full-size buffer, with the method of the request and what follows the header as its payload. A
  handler's positive result is the length of the response in its buffer. What follows the header of a
  response is its payload, and neither header has a Block2 option.
\<close>

definition wire_law :: "gcoap_env \<Rightarrow> wire \<Rightarrow> bool" where
  "wire_law env w \<longleftrightarrow>
     (\<forall>m u d log n pk0 methods h. (u, methods, h) \<in> set (listener env) \<longrightarrow>
        plain_packet env m u (d \<noteq> []) log = (n, pk0) \<longrightarrow> 0 \<le> n \<longrightarrow> nat n + length d \<le> pdu_buf_size env \<longrightarrow>
        (\<exists>pk. w_dispatch w (take (nat n) (pk_buf pk0) @ d) = Inr (h, pk) \<and> length (pk_buf pk) = pdu_buf_size env \<and>
           get_detail env pk = m \<and> pk_payload_len pk = length d \<and> payload_bytes pk = d)) \<and>
     (\<forall>n pk. 0 < n \<longrightarrow> nat n \<le> length (pk_buf pk) \<longrightarrow> w_reply w n pk = Some (take (nat n) (pk_buf pk))) \<and>
     (\<forall>pk d. length (pk_buf pk) = pdu_buf_size env \<longrightarrow> length d \<le> 7 \<longrightarrow>
        (let p = w_response w (take (nat (fst (stats_reply env pk))) (pk_buf (snd (stats_reply env pk))) @ d) in
         get_block2 env p = None \<and> payload_ok p \<and> pk_payload_len p = length d \<and> payload_bytes p = d)) \<and>
     (\<forall>pk. length (pk_buf pk) = pdu_buf_size env \<longrightarrow>
        (let p = w_response w (take (nat (fst (response env COAP_CODE_CHANGED pk))) (pk_buf (snd (response env COAP_CODE_CHANGED pk)))) in
         get_block2 env p = None \<and> payload_ok p \<and> pk_payload_len p = 0))"

section \<open>Lemmas\<close>

text \<open>Sending a request counts it.\<close>

lemma sends_lawD:
  assumes "sends_law env"
  shows "(word_of_int (req_send env log msg ep) :: u32) \<noteq> 0"
proof -
  have n: "0 < req_send env log msg ep" "req_send env log msg ep < 2 ^ 31" using assms by (simp_all add: sends_law_def)
  then have "unat (word_of_int (req_send env log msg ep) :: u32) = nat (req_send env log msg ep)"
    by (intro unat_word_of_int) simp_all
  with n(1) show ?thesis by auto
qed

lemma xbd_send_count:
  assumes "sends_law env" and "\<forall>log. name2ep env log zero_ep a = (0, ep)" and "xbd_send env buf len a ctx g = Some (n, g')"
  shows "n \<noteq> 0 \<and> req_count g' = req_count g + 1"
  using assms sends_lawD [OF assms(1)]
  by (auto simp: xbd_send_def resolve_def gcoap_req_send_def count_sent_def word_neq_0_conv Let_def
      split: prod.splits if_splits)

lemma xbd_header_count: "xbd_header env u m p blockwise idx s = Some (n, buf, g) \<Longrightarrow> req_count g = req_count (xg s)"
  by (auto simp: xbd_header_def xbd_new_header_def Let_def bind_eq_Some_conv split: if_splits prod.splits)

lemma req_count_xbd_req_log [simp]: "req_count (xbd_req_log env a u l b i p n g) = req_count g"
  by (simp add: xbd_req_log_def Let_def)

lemma req_send_count:
  assumes "sends_law env" and "\<forall>log. name2ep env log zero_ep a = (0, ep)"
    and "xbd_gcoap_req_send env a u m p blockwise idx ctx s = Some s'"
  shows "req_count (xg s') = req_count (xg s) + 1"
  using assms(3)
  by (auto simp: xbd_gcoap_req_send_def Let_def bind_eq_Some_conv dest!: xbd_header_count notify_frame
      xbd_send_count [OF assms(1,2)] split: if_splits prod.splits)

lemma poll_inner_count:
  assumes "sends_law env" and "\<forall>log. name2ep env log zero_ep (ri_addr r) = (0, ep)" and "well_made r"
    and "poll_inner env r k s = Some (Pending, s')"
  shows "req_count (xg s') = req_count (xg s) + 1"
proof -
  have c: "c_string REQ_ADDR_MAX (ri_addr r)" "c_string REQ_URI_MAX (ri_uri r)" using assms(3) by (simp_all add: well_made_def)
  from assms(4) obtain t where t: "gcoap_method env (ri_method r) (ri_addr r) (ri_uri r) (ri_payload r) (Fstat k) t = Some s'"
      "xg t = xg s"
    by (fastforce simp: poll_inner_def poll_plain_def bind_eq_Some_conv split: if_splits fstate.splits)
  then have "\<exists>m p. xbd_gcoap_req_send env (ri_addr r) (ri_uri r) m p False 0 (Fstat k) t = Some s'"
    by (auto simp: gcoap_method_def gcoap_req_c_string [OF c] bind_eq_Some_conv split: if_splits)
  with req_send_count [OF assms(1,2)] t(2) show ?thesis by metis
qed

text \<open>Handling a response without a Block2 option leaves the counter alone.\<close>

lemma resp_report_count [simp]: "req_count (snd (resp_report env memo pk s)) = req_count s"
  by (simp add: resp_report_def resp_body_def Let_def split: memo_state.split option.split)

lemma xbd_resp_handler_count:
  assumes "xbd_resp_handler env memo pk s = Some (state, ptr, len, ctx, buf, t)" and "get_block2 env pk = None"
  shows "req_count (xg t) = req_count (xg s)"
  using assms by (auto simp: xbd_resp_handler_def xbd_resp_report_def Let_def split: if_splits prod.splits)

lemma response_plain_count:
  assumes "gcoap_req_resp_handler env memo pk s = Some s'" and "get_block2 env pk = None"
  shows "req_count (xg s') = req_count (xg s)"
proof -
  have "fstat_resolve c m t = Some t' \<Longrightarrow> xg t' = xg t" for c m t t'
    by (cases c) (auto split: if_splits)
  with assms show ?thesis
    by (auto simp: gcoap_req_resp_handler_def bind_eq_Some_conv dest!: xbd_resp_handler_count)
qed

text \<open>The handlers send no requests.\<close>

lemma stats_handler_reqs:
  assumes "stats_handler env pk g = Some (n, pk', g')"
  shows "reqs g' = reqs g"
proof -
  obtain n1 pk1 n2 pk2 where "response env COAP_CODE_CHANGED pk = (n1, pk1)" "response env COAP_CODE_BAD_REQUEST pk = (n2, pk2)"
    by fastforce
  with assms show ?thesis
    by (auto simp: stats_handler_def Let_def bind_eq_Some_conv reqs_def split: prod.splits if_splits)
qed

lemma board_handler_reqs: "riot_board_handler_minerva env pk b g = Some (n, pk', g') \<Longrightarrow> reqs g' = reqs g"
  by (auto simp: riot_board_handler_minerva_def Let_def bind_eq_Some_conv reqs_def split: prod.splits if_splits)

lemma print_pdu_len_reqs: "print_pdu_len name (n, pk, g) = (n', pk', g') \<Longrightarrow> reqs g' = reqs g"
  by (auto simp: print_pdu_len_def)

lemma call_handler_reqs:
  assumes "call_handler env fs h pk g = Some (n, pk', g')"
  shows "reqs g' = reqs g"
  using assms
  by (cases h) (auto simp: xbd_riot_stats_handler_def xbd_riot_board_handler_def xbd_riot_fileserver_handler_def
      riot_stats_handler_minerva_def dest!: stats_handler_reqs board_handler_reqs print_pdu_len_reqs)

text \<open>Nothing is waiting at the socket or in the stream; and exactly one datagram is.\<close>

definition idle :: "node \<Rightarrow> bool" where
  "idle s \<longleftrightarrow> server_sd (nd_events s) = [] \<and> nd_inbox s = []"

definition arrived :: "datagram \<Rightarrow> node \<Rightarrow> bool" where
  "arrived d s \<longleftrightarrow> length (server_sd (nd_events s)) = 1 \<and> nd_inbox s = [d]"

lemma arrive_idle: "idle s \<Longrightarrow> \<exists>t. arrive d s = Some t \<and> arrived d t \<and> nd_app t = nd_app s"
  by (simp add: idle_def arrived_def arrive_def on_sock_evt_def is_msg_def SOCK_ASYNC_MSG_RECV_def xs_add_def
      SERVER_STREAM_SIZE_def)

lemma turn_arrived:
  assumes "arrived d s"
  shows "\<exists>t. server_turn env fs w s = receive env fs w d t \<and> idle t \<and> nd_app t = nd_app s"
proof -
  from assms obtain e where "server_sd (nd_events s) = [e]" "nd_inbox s = [d]"
    by (auto simp: arrived_def length_Suc_conv)
  then show ?thesis
    by (intro exI [of _ "s\<lparr>nd_events := (nd_events s)\<lparr>server_sd := [], handled := handled (nd_events s) @ [e]\<rparr>, nd_inbox := []\<rparr>"])
       (simp add: server_turn_def process_gcoap_server_def xs_poll_next_def idle_def)
qed

lemma to_self_reqs:
  "to_self w (drop (length rs) (rs @ [GReq msg (w_self w) XbdHandler ctx])) = [Request msg ctx]"
  by (simp add: to_self_def)

lemma poll_node_sends:
  assumes "poll_req env req k (nd_app s) = Some (Pending, x)" and "idle s"
    and "reqs (xg x) = reqs (xg (nd_app s)) @ [GReq msg (w_self w) XbdHandler ctx]"
  shows "\<exists>t. poll_node env w req k s = Some (Pending, t) \<and> arrived (Request msg ctx) t \<and> nd_app t = x"
proof -
  have "idle (s\<lparr>nd_app := x\<rparr>)" using assms(2) by (simp add: idle_def)
  from arrive_idle [OF this] obtain t where "arrive (Request msg ctx) (s\<lparr>nd_app := x\<rparr>) = Some t"
      "arrived (Request msg ctx) t" "nd_app t = x" by auto
  with assms(1,3) to_self_reqs [of w "reqs (xg (nd_app s))"] show ?thesis by (simp add: poll_node_def)
qed

lemma poll_node_quiet:
  assumes "poll_req env req k (nd_app s) = Some (r, x)" and "reqs (xg x) = reqs (xg (nd_app s))"
  shows "poll_node env w req k s = Some (r, s\<lparr>nd_app := x\<rparr>)"
  using assms by (simp add: poll_node_def to_self_def)

text \<open>
  One exchange. A message is served with \<open>p\<close> if, whatever the state with this counter, reading it
  sends a response back from which \<open>p\<close> is parsed; then the future is resolved with \<open>p\<close> after two turns
  of the server task. That is so for a message with a handler that answers, and for one that the library
  answers on its own.
\<close>

definition served :: "gcoap_env \<Rightarrow> fileserver \<Rightarrow> wire \<Rightarrow> bytes \<Rightarrow> u16 \<Rightarrow> coap_pkt \<Rightarrow> u16 \<Rightarrow> bool" where
  "served env fs w msg c p c' \<longleftrightarrow> (\<forall>s ctx. idle s \<longrightarrow> req_count (xg (nd_app s)) = c \<longrightarrow>
     (\<exists>t m g. receive env fs w (Request msg ctx) s = Some t \<and> arrived (Response m ctx) t \<and> w_response w m = p \<and>
        nd_app t = (nd_app s)\<lparr>xg := g\<rparr> \<and> reqs g = reqs (xg (nd_app s)) \<and> req_count g = c'))"

definition answers :: "gcoap_env \<Rightarrow> fileserver \<Rightarrow> wire \<Rightarrow> exported_handler \<Rightarrow> coap_pkt \<Rightarrow> u16 \<Rightarrow> coap_pkt \<Rightarrow> u16 \<Rightarrow> bool" where
  "answers env fs w h pk c p c' \<longleftrightarrow> (\<forall>g. req_count g = c \<longrightarrow> (\<exists>n pk' g' msg. call_handler env fs h pk g = Some (n, pk', g') \<and>
     w_reply w n pk' = Some msg \<and> w_response w msg = p \<and> req_count g' = c'))"

lemma served_handler:
  assumes "w_dispatch w msg = Inr (h, pk)" and "answers env fs w h pk c p c'"
  shows "served env fs w msg c p c'"
  unfolding served_def
proof (intro allI impI)
  fix s ctx
  assume s: "idle s" "req_count (xg (nd_app s)) = c"
  with assms(2) obtain n pk' g m where h: "call_handler env fs h pk (xg (nd_app s)) = Some (n, pk', g)"
      "w_reply w n pk' = Some m" "w_response w m = p" "req_count g = c'" by (auto simp: answers_def)
  let ?s = "s\<lparr>nd_app := (nd_app s)\<lparr>xg := g\<rparr>\<rparr>"
  have "idle ?s" using s(1) by (simp add: idle_def)
  from arrive_idle [OF this] obtain t where "arrive (Response m ctx) ?s = Some t" "arrived (Response m ctx) t"
      "nd_app t = (nd_app s)\<lparr>xg := g\<rparr>" by auto
  with assms(1) h call_handler_reqs [OF h(1)]
  show "\<exists>t m g. receive env fs w (Request msg ctx) s = Some t \<and> arrived (Response m ctx) t \<and> w_response w m = p \<and>
      nd_app t = (nd_app s)\<lparr>xg := g\<rparr> \<and> reqs g = reqs (xg (nd_app s)) \<and> req_count g = c'"
    by (auto simp: send_back_def)
qed

lemma served_library:
  assumes "w_dispatch w msg = Inl (Some m)" and "w_response w m = p"
  shows "served env fs w msg c p c"
  unfolding served_def
proof (intro allI impI)
  fix s ctx
  assume s: "idle s" "req_count (xg (nd_app s)) = c"
  from arrive_idle [OF s(1)] obtain t where "arrive (Response m ctx) s = Some t" "arrived (Response m ctx) t" "nd_app t = nd_app s"
    by blast
  with assms s(2)
  show "\<exists>t m g. receive env fs w (Request msg ctx) s = Some t \<and> arrived (Response m ctx) t \<and> w_response w m = p \<and>
      nd_app t = (nd_app s)\<lparr>xg := g\<rparr> \<and> reqs g = reqs (xg (nd_app s)) \<and> req_count g = c"
    by (intro exI [of _ t] exI [of _ m] exI [of _ "xg (nd_app s)"]) (simp add: send_back_def)
qed

lemma two_turns:
  assumes d: "arrived (Request msg (Fstat k)) s" and serve: "served env fs w msg (req_count (xg (nd_app s))) p c'"
    and k: "k < length (xf (nd_app s))" "xf (nd_app s) ! k = FRegistered"
    and p: "get_block2 env p = None" "payload_ok p"
  shows "\<exists>t. run_steps (\<lambda>_. server_turn env fs w) [(), ()] s = Some t \<and> idle t \<and> req_count (xg (nd_app t)) = c' \<and>
     reqs (xg (nd_app t)) = reqs (xg (nd_app s)) \<and> xb (nd_app t) = xb (nd_app s) \<and>
     xf (nd_app t) = (xf (nd_app s))[k := FResolved (memo_result GCOAP_MEMO_RESP p)]"
proof -
  let ?x = "nd_app s"
  from turn_arrived [OF d] obtain t1 where t1: "server_turn env fs w s = receive env fs w (Request msg (Fstat k)) t1"
      "idle t1" "nd_app t1 = ?x" by blast
  with serve obtain t2 m g' where t2: "server_turn env fs w s = Some t2" "arrived (Response m (Fstat k)) t2"
      "w_response w m = p" "nd_app t2 = ?x\<lparr>xg := g'\<rparr>" "reqs g' = reqs (xg ?x)" "req_count g' = c'"
    unfolding served_def by metis
  from turn_arrived [OF t2(2)] obtain t3 where t3: "server_turn env fs w t2 = receive env fs w (Response m (Fstat k)) t3"
      "idle t3" "nd_app t3 = nd_app t2" by blast
  have "k < length (xf (nd_app t2))" "xf (nd_app t2) ! k = FRegistered" using k t2(4) by simp_all
  from response_plain [OF this p, of GCOAP_MEMO_RESP] obtain x where
      x: "gcoap_req_resp_handler env \<lparr>memo_st = GCOAP_MEMO_RESP, memo_ctx = Fstat k\<rparr> p (nd_app t2) = Some x"
        "xf x = (xf (nd_app t2))[k := FResolved (memo_result GCOAP_MEMO_RESP p)]" "xb x = xb (nd_app t2)"
        "reqs (xg x) = reqs (xg (nd_app t2))" by auto
  have s2: "server_turn env fs w t2 = Some (t3\<lparr>nd_app := x\<rparr>)" using t3(1,3) t2(3) x(1) by simp
  have "req_count (xg x) = c'" using response_plain_count [OF x(1) p(1)] t2(4,6) by simp
  with t2 s2 x t3(2) show ?thesis by (simp add: idle_def)
qed

lemma await_node_inner:
  assumes req: "poll_req env req = poll_inner env r" "well_made r" and laws: "client_env env" "sends_law env"
    and name: "\<forall>log. name2ep env log zero_ep (ri_addr r) = (0, ep)" "default_port env ep = w_self w" and s: "idle s"
    and pk: "plain_packet env (ri_method r) (ri_uri r) (req_data r \<noteq> []) (g_log (xg (nd_app s))) = (n, pk0)"
    and fit: "0 \<le> n" "nat n + length (req_data r) \<le> pdu_buf_size env"
    and serve: "served env fs w (take (nat n) (pk_buf pk0) @ req_data r) (req_count (xg (nd_app s)) + 1) p c'"
    and resp: "get_block2 env p = None" "payload_ok p"
  shows "\<exists>s'. await_node env fs w 2 req s = Some (memo_result GCOAP_MEMO_RESP p, s') \<and> idle s' \<and>
     req_count (xg (nd_app s')) = c' \<and> xb (nd_app s') = xb (nd_app s) \<and>
     reqs (xg (nd_app s')) = reqs (xg (nd_app s)) @ [GReq (take (nat n) (pk_buf pk0) @ req_data r) (w_self w) XbdHandler
       (Fstat (length (xf (nd_app s))))]"
proof -
  let ?k = "length (xf (nd_app s))" and ?x = "(nd_app s)\<lparr>xf := xf (nd_app s) @ [FNew]\<rparr>"
  let ?msg = "take (nat n) (pk_buf pk0) @ req_data r"
  let ?m = "memo_result GCOAP_MEMO_RESP p"
  have k: "?k < length (xf ?x)" "xf ?x ! ?k = FNew" by simp_all
  have "plain_packet env (ri_method r) (ri_uri r) (req_data r \<noteq> []) (g_log (xg ?x)) = (n, pk0)" using pk by simp
  from poll_inner_sends [OF laws(1) name(1) req(2) k this fit] obtain x where
      x: "poll_inner env r ?k ?x = Some (Pending, x)" "xb x = xb (nd_app s)" "xf x = xf (nd_app s) @ [FRegistered]"
        "reqs (xg x) = reqs (xg (nd_app s)) @ [GReq ?msg (w_self w) XbdHandler (Fstat ?k)]"
    using name(2) by auto
  have count: "req_count (xg x) = req_count (xg (nd_app s)) + 1"
    using poll_inner_count [OF laws(2) name(1) req(2) x(1)] by simp
  have "idle (s\<lparr>nd_app := ?x\<rparr>)" using s by (simp add: idle_def)
  from poll_node_sends [OF _ this, of env req ?k x ?msg w "Fstat ?k"] x(1,4) req(1) obtain t where
      t: "poll_node env w req ?k (s\<lparr>nd_app := ?x\<rparr>) = Some (Pending, t)" "arrived (Request ?msg (Fstat ?k)) t" "nd_app t = x"
    by auto
  from two_turns [OF t(2), of env fs w p c'] serve count t(3) x(3) resp obtain u where
      u: "run_steps (\<lambda>_. server_turn env fs w) [(), ()] t = Some u" "idle u" "req_count (xg (nd_app u)) = c'"
        "reqs (xg (nd_app u)) = reqs (xg x)" "xb (nd_app u) = xb x" "xf (nd_app u) = xf (nd_app s) @ [FResolved ?m]"
    by auto
  have ready: "poll_req env req ?k (nd_app u) = Some (Ready ?m, (nd_app u)\<lparr>xf := xf (nd_app s) @ [FTaken]\<rparr>)"
    using u(6) req(1) by (simp add: poll_inner_def poll_plain_def)
  let ?s = "u\<lparr>nd_app := (nd_app u)\<lparr>xf := xf (nd_app s) @ [FTaken]\<rparr>\<rparr>"
  have "poll_node env w req ?k u = Some (Ready ?m, ?s)"
    using poll_node_quiet [OF ready] by simp
  moreover have "replicate 2 () = [(), ()]" by (simp add: numeral_2_eq_2)
  ultimately have "await_node env fs w 2 req s = Some (?m, ?s)"
    using t(1) u(1) by (simp add: await_node_def fut_new_def)
  with u x(2,4) show ?thesis by (simp add: idle_def)
qed

text \<open>The answers of the two resources.\<close>

lemma wire_lawD:
  assumes "wire_law env w"
  shows "(u, methods, h) \<in> set (listener env) \<Longrightarrow> plain_packet env m u (d \<noteq> []) log = (n, pk0) \<Longrightarrow> 0 \<le> n \<Longrightarrow>
       nat n + length d \<le> pdu_buf_size env \<Longrightarrow>
       \<exists>pk. w_dispatch w (take (nat n) (pk_buf pk0) @ d) = Inr (h, pk) \<and> length (pk_buf pk) = pdu_buf_size env \<and>
         get_detail env pk = m \<and> pk_payload_len pk = length d \<and> payload_bytes pk = d"
    and "0 < k \<Longrightarrow> nat k \<le> length (pk_buf q) \<Longrightarrow> w_reply w k q = Some (take (nat k) (pk_buf q))"
    and "length (pk_buf q) = pdu_buf_size env \<Longrightarrow> length d \<le> 7 \<Longrightarrow> stats_reply env q = (k, q1) \<Longrightarrow>
       get_block2 env (w_response w (take (nat k) (pk_buf q1) @ d)) = None \<and> payload_ok (w_response w (take (nat k) (pk_buf q1) @ d)) \<and>
       pk_payload_len (w_response w (take (nat k) (pk_buf q1) @ d)) = length d \<and> payload_bytes (w_response w (take (nat k) (pk_buf q1) @ d)) = d"
    and "length (pk_buf q) = pdu_buf_size env \<Longrightarrow> response env COAP_CODE_CHANGED q = (k, q1) \<Longrightarrow>
       get_block2 env (w_response w (take (nat k) (pk_buf q1))) = None \<and> payload_ok (w_response w (take (nat k) (pk_buf q1))) \<and>
       pk_payload_len (w_response w (take (nat k) (pk_buf q1))) = 0"
  using assms unfolding wire_law_def Let_def by (metis (no_types, lifting) fst_conv snd_conv)+

lemma memo_result_payload:
  assumes "pk_payload_len p = length d" and "payload_bytes p = d"
  shows "memo_result GCOAP_MEMO_RESP p = MResp (if d = [] then None else Some d)"
  using assms by (auto simp: memo_result_def delivered_def payload_bytes_def)

lemma answers_content:
  assumes env: "client_env env" and law: "wire_law env w" and pk: "length (pk_buf pk) = pdu_buf_size env"
    and q: "stats_reply env pk = (n, q1)" "0 \<le> n" "length t \<le> pk_payload_len q1" "length t \<le> 7" "t \<noteq> []"
    and call: "\<forall>g. req_count g = c \<longrightarrow> (\<exists>g'. call_handler env fs h pk g = Some (n + int (length t),
      q1\<lparr>pk_buf := take (nat n) (pk_buf q1) @ bytes_of t @ drop (nat n + length t) (pk_buf q1)\<rparr>, g') \<and> req_count g' = c')"
  shows "\<exists>p. answers env fs w h pk c p c' \<and> get_block2 env p = None \<and> payload_ok p \<and>
     memo_result GCOAP_MEMO_RESP p = MResp (Some (bytes_of t))"
proof -
  let ?q = "q1\<lparr>pk_buf := take (nat n) (pk_buf q1) @ bytes_of t @ drop (nat n + length t) (pk_buf q1)\<rparr>"
  let ?n = "n + int (length t)" and ?msg = "take (nat n) (pk_buf q1) @ bytes_of t"
  have "finish_law env" using env by (simp add: client_env_def)
  from finish_lawD(2) [OF this q(1) [unfolded stats_reply_def] q(2)]
  have size: "nat n + length t \<le> length (pk_buf q1)" using q(3) by linarith
  have n: "0 < ?n" using q(2,5) by (cases t) simp_all
  have l: "nat ?n \<le> length (pk_buf ?q)" using q(2) size by (simp add: nat_add_distrib)
  have m: "take (nat ?n) (pk_buf ?q) = ?msg" using q(2) size by (simp add: nat_add_distrib)
  from wire_lawD(2) [OF law n l] have reply: "w_reply w ?n ?q = Some ?msg" unfolding m .
  let ?p = "w_response w ?msg"
  have d: "length (bytes_of t) \<le> 7" using q(4) by simp
  note parsed = wire_lawD(3) [OF law pk d q(1)]
  have "answers env fs w h pk c ?p c'" using call reply unfolding answers_def by blast
  moreover have "memo_result GCOAP_MEMO_RESP ?p = MResp (Some (bytes_of t))"
    using memo_result_payload [of ?p "bytes_of t"] parsed q(5) by simp
  ultimately show ?thesis using parsed by blast
qed

lemma stats_call:
  assumes "client_env env" and "flag_law env" and "get_detail env pk = 1"
    and q: "stats_reply env pk = (n, q1)" "0 \<le> n" "n < 2 ^ 30" "5 \<le> pk_payload_len q1"
  shows "\<exists>g'. call_handler env fs Xbd_riot_stats_handler pk g = Some (n + int (length (dec (unat (req_count g)))),
      q1\<lparr>pk_buf := take (nat n) (pk_buf q1) @ bytes_of (dec (unat (req_count g))) @
        drop (nat n + length (dec (unat (req_count g)))) (pk_buf q1)\<rparr>, g') \<and> req_count g' = req_count g"
proof -
  let ?t = "dec (unat (req_count g))"
  let ?q = "q1\<lparr>pk_buf := take (nat n) (pk_buf q1) @ bytes_of ?t @ drop (nat n + length ?t) (pk_buf q1)\<rparr>"
  have laws: "finish_law env" "fmt_law env" using assms(1) by (simp_all add: client_env_def)
  have m: "method2flag env (get_detail env pk) = flag_get env" using assms(2,3) by (simp add: flag_law_def)
  have "unat (req_count g) < 10 ^ 5" using unsigned_less [of "req_count g", where 'a = nat] by simp
  then have len: "length ?t \<le> 5" by (intro length_dec_le) simp_all
  with stats_get [OF m laws(1) q(1,2), of g] laws(2) q
  have "map_option (\<lambda>(r, pk, _). (r, pk)) (riot_stats_handler_minerva env pk g) = Some (n + int (length ?t), ?q)"
    by (simp add: fmt_law_def Let_def int_of_small_sum)
  then obtain g1 where "riot_stats_handler_minerva env pk g = Some (n + int (length ?t), ?q, g1)" by auto
  then obtain g' where g': "call_handler env fs Xbd_riot_stats_handler pk g = Some (n + int (length ?t), ?q, g')"
    by (simp add: xbd_riot_stats_handler_def print_pdu_len_def)
  then have "serve env fs (Xbd_riot_stats_handler, pk) g = Some g'" by (simp add: serve_def)
  from serve_count [OF this assms(2)] m assms(2) have "req_count g' = req_count g" by (simp add: stores_def flag_law_def)
  with g' show ?thesis by blast
qed

lemma board_call:
  assumes "client_env env" and "flag_law env"
    and q: "stats_reply env pk = (n, q1)" "0 \<le> n" "n < 2 ^ 30" "7 \<le> pk_payload_len q1"
  shows "\<exists>g'. call_handler env fs Xbd_riot_board_handler pk g = Some (n + int (length ''minerva''),
      q1\<lparr>pk_buf := take (nat n) (pk_buf q1) @ bytes_of ''minerva'' @ drop (nat n + length ''minerva'') (pk_buf q1)\<rparr>, g') \<and>
      req_count g' = req_count g"
proof -
  have law: "finish_law env" using assms(1) by (simp add: client_env_def)
  have "sint (word_of_int n + word_of_nat 7 :: u32) = n + int 7" using q(2,3) by (intro sint_small_sum) simp_all
  then obtain g' where g': "call_handler env fs Xbd_riot_board_handler pk g = Some (n + int (length ''minerva''),
      q1\<lparr>pk_buf := take (nat n) (pk_buf q1) @ bytes_of ''minerva'' @ drop (nat n + length ''minerva'') (pk_buf q1)\<rparr>, g')"
    using q put_payload_finished [OF law q(1) [unfolded stats_reply_def] q(2), of "''minerva''"]
    by (simp add: xbd_riot_board_handler_def riot_board_handler_minerva_def cstr_def print_pdu_len_def stats_reply_def Let_def)
  then have "serve env fs (Xbd_riot_board_handler, pk) g = Some g'" by (simp add: serve_def)
  from serve_count [OF this assms(2)] have "req_count g' = req_count g" by (simp add: stores_def)
  with g' show ?thesis by blast
qed

lemma stats_put_packet:
  assumes "stats_handler env pk s = Some (n, pk', s')" and "method2flag env (get_detail env pk) \<in> {flag_post env, flag_put env}"
    and "flag_law env" and "pk_payload_len pk \<le> 5"
  shows "(n, pk') = response env COAP_CODE_CHANGED pk"
proof -
  have "method2flag env (get_detail env pk) \<noteq> flag_get env" using assms(2,3) by (auto simp: flag_law_def)
  moreover obtain n1 pk1 where "response env COAP_CODE_CHANGED pk = (n1, pk1)" by fastforce
  ultimately show ?thesis using assms(1,2,4) by (auto simp: stats_handler_def Let_def bind_eq_Some_conv)
qed

lemma set_call:
  assumes "flag_law env" and "get_detail env pk \<in> {2, 3}" and "pk_payload_len pk \<le> 5"
    and "payload_bytes pk = bytes_of (dec k)" and "k < 65536" and r: "response env COAP_CODE_CHANGED pk = (n, q)"
  shows "\<exists>g'. call_handler env fs Xbd_riot_stats_handler pk g = Some (n, q, g') \<and> req_count g' = word_of_nat k"
proof -
  have m: "method2flag env (get_detail env pk) \<in> {flag_post env, flag_put env}" using assms(1,2) by (auto simp: flag_law_def)
  from stats_put_count [OF m assms(1,3), of "gprintf (''@@ riot_stats_handler_minerva(): ^^'' @ nl) g"] r
  obtain q' g' where g': "riot_stats_handler_minerva env pk g = Some (n, q', g')" "req_count g' = stored_count pk"
    by (auto simp: riot_stats_handler_minerva_def)
  from stats_put_packet [OF g'(1) [unfolded riot_stats_handler_minerva_def] m assms(1,3)] r have "q' = q" by simp
  with g' stored_count_dec [OF assms(4)] assms(5) show ?thesis
    by (simp add: xbd_riot_stats_handler_def print_pdu_len_def)
qed

section \<open>The node refines its service\<close>

definition node_env :: "gcoap_env \<Rightarrow> wire \<Rightarrow> string \<Rightarrow> bool" where
  "node_env env w a \<longleftrightarrow> client_env env \<and> flag_law env \<and> sends_law env \<and> exchange_fits env \<and> wire_law env w \<and>
     c_string REQ_ADDR_MAX a \<and> (\<exists>ep. (\<forall>log. name2ep env log zero_ep a = (0, ep)) \<and> default_port env ep = w_self w)"

definition call_ok :: "self_call \<Rightarrow> bool" where
  "call_ok c = (case c of Set_stats m k \<Rightarrow> m \<in> {METHOD_POST, METHOD_PUT} \<and> k < 65536 | _ \<Rightarrow> True)"

text \<open>Any request that is served, and any exchange with a resource of the listener.\<close>

lemma node_request:
  assumes env: "node_env env w a" and s: "idle s" and u: "c_string REQ_URI_MAX u"
    and m: "m \<in> {METHOD_GET, METHOD_POST, METHOD_PUT}" "length d \<le> PAYLOAD_REQ_MAX" "m = METHOD_GET \<longrightarrow> d = []"
    and fit: "\<And>log. 0 \<le> fst (plain_packet env m u (d \<noteq> []) log) \<and>
      nat (fst (plain_packet env m u (d \<noteq> []) log)) + length d \<le> pdu_buf_size env"
    and serve: "\<And>n pk. plain_packet env m u (d \<noteq> []) (g_log (xg (nd_app s))) = (n, pk) \<Longrightarrow> 0 \<le> n \<Longrightarrow>
      nat n + length d \<le> pdu_buf_size env \<Longrightarrow> \<exists>p. served env fs w (take (nat n) (pk_buf pk) @ d) (req_count (xg (nd_app s)) + 1) p c' \<and>
        get_block2 env p = None \<and> payload_ok p \<and> memo_result GCOAP_MEMO_RESP p = result"
  shows "\<exists>req s'. gcoap_call m a u d = Some req \<and> await_node env fs w 2 req s = Some (result, s') \<and> idle s' \<and>
     req_count (xg (nd_app s')) = c' \<and> xb (nd_app s') = xb (nd_app s) \<and>
     length (reqs (xg (nd_app s'))) = Suc (length (reqs (xg (nd_app s))))"
proof -
  from env obtain ep where laws: "client_env env" "sends_law env" and a: "c_string REQ_ADDR_MAX a"
    and name: "\<forall>log. name2ep env log zero_ep a = (0, ep)" "default_port env ep = w_self w"
    by (auto simp: node_env_def)
  from gcoap_call_req [OF a u m, of env] obtain req r where req: "gcoap_call m a u d = Some req"
      "poll_req env req = poll_inner env r" "well_made r" "ri_method r = m" "ri_addr r = a" "ri_uri r = u" "req_data r = d"
    by blast
  obtain n pk0 where p: "plain_packet env m u (d \<noteq> []) (g_log (xg (nd_app s))) = (n, pk0)" by fastforce
  with fit [of "g_log (xg (nd_app s))"] have n: "0 \<le> n" "nat n + length d \<le> pdu_buf_size env" by simp_all
  from serve [OF p n] obtain q where q: "served env fs w (take (nat n) (pk_buf pk0) @ d) (req_count (xg (nd_app s)) + 1) q c'"
      "get_block2 env q = None" "payload_ok q" "memo_result GCOAP_MEMO_RESP q = result" by blast
  from await_node_inner [OF req(2,3) laws _ name(2) s _ n(1) _ _ q(2,3), of pk0 fs c'] req name(1) p n(2) q(1,4)
  show ?thesis by auto
qed

lemma node_exchange:
  assumes env: "node_env env w a" and s: "idle s"
    and u: "(u, methods, h) \<in> set (listener env)" "c_string REQ_URI_MAX u"
    and m: "m \<in> {METHOD_GET, METHOD_POST, METHOD_PUT}" "length d \<le> PAYLOAD_REQ_MAX" "m = METHOD_GET \<longrightarrow> d = []"
    and fit: "\<And>log. 0 \<le> fst (plain_packet env m u (d \<noteq> []) log) \<and>
      nat (fst (plain_packet env m u (d \<noteq> []) log)) + length d \<le> pdu_buf_size env"
    and ans: "\<And>pk. length (pk_buf pk) = pdu_buf_size env \<Longrightarrow> get_detail env pk = m \<Longrightarrow> pk_payload_len pk = length d \<Longrightarrow>
      payload_bytes pk = d \<Longrightarrow> \<exists>p. answers env fs w h pk (req_count (xg (nd_app s)) + 1) p c' \<and> get_block2 env p = None \<and>
        payload_ok p \<and> memo_result GCOAP_MEMO_RESP p = result"
  shows "\<exists>req s'. gcoap_call m a u d = Some req \<and> await_node env fs w 2 req s = Some (result, s') \<and> idle s' \<and>
     req_count (xg (nd_app s')) = c' \<and> xb (nd_app s') = xb (nd_app s) \<and>
     length (reqs (xg (nd_app s'))) = Suc (length (reqs (xg (nd_app s))))"
proof (rule node_request [OF env s u(2) m fit])
  fix n pk0
  assume p: "plain_packet env m u (d \<noteq> []) (g_log (xg (nd_app s))) = (n, pk0)" and n: "0 \<le> n" "nat n + length d \<le> pdu_buf_size env"
  from env have law: "wire_law env w" by (simp add: node_env_def)
  from wire_lawD(1) [OF law u(1) p n] obtain pk where pk: "w_dispatch w (take (nat n) (pk_buf pk0) @ d) = Inr (h, pk)"
      "length (pk_buf pk) = pdu_buf_size env" "get_detail env pk = m" "pk_payload_len pk = length d" "payload_bytes pk = d"
    by blast
  from ans [OF pk(2-5)] served_handler [OF pk(1)]
  show "\<exists>p. served env fs w (take (nat n) (pk_buf pk0) @ d) (req_count (xg (nd_app s)) + 1) p c' \<and>
      get_block2 env p = None \<and> payload_ok p \<and> memo_result GCOAP_MEMO_RESP p = result" by blast
qed

lemma get_fits:
  assumes "client_env env"
  shows "0 \<le> fst (plain_packet env METHOD_GET u False log) \<and> nat (fst (plain_packet env METHOD_GET u False log)) \<le> pdu_buf_size env"
proof -
  have "plain_packet env METHOD_GET u False log = first_packet env u log" by (simp add: plain_packet_def first_packet_def)
  with first_packet_size [OF assms, of u log] show ?thesis by (cases "first_packet env u log") simp
qed

lemma content_fits:
  assumes "client_env env" and "exchange_fits env" and "length (pk_buf pk) = pdu_buf_size env" and "stats_reply env pk = (n, q)"
  shows "0 \<le> n" and "n < 2 ^ 30" and "7 \<le> pk_payload_len q"
proof -
  from assms(2-4) show n: "0 \<le> n" and "7 \<le> pk_payload_len q" unfolding exchange_fits_def by (metis fst_conv snd_conv)+
  from assms(1) have law: "finish_law env" and max: "pdu_buf_size env < 2 ^ 30" by (simp_all add: client_env_def headers_fit_def)
  have "length (pk_buf (opt_add env (Format (format_text env)) (resp_init env COAP_CODE_CONTENT pk))) = pdu_buf_size env"
    using assms(1,3) by (simp add: client_env_def init_law_def)
  from finish_size [OF law assms(4) [unfolded stats_reply_def] n this] have "nat n \<le> pdu_buf_size env" by linarith
  with max have "nat n < 2 ^ 30" by (rule le_less_trans [rotated])
  then show "n < 2 ^ 30" by (simp add: nat_less_iff n)
qed

lemma self_call_exchange:
  assumes env: "node_env env w a" and c: "call_ok c" and s: "idle s"
  shows "\<exists>req s'. self_req a c = Some req \<and>
     await_node env fs w 2 req s = Some (fst (service c (req_count (xg (nd_app s)))), s') \<and> idle s' \<and>
     req_count (xg (nd_app s')) = snd (service c (req_count (xg (nd_app s)))) \<and> xb (nd_app s') = xb (nd_app s) \<and>
     length (reqs (xg (nd_app s'))) = Suc (length (reqs (xg (nd_app s))))"
proof -
  from env have laws: "client_env env" "flag_law env" "exchange_fits env" "wire_law env w" by (simp_all add: node_env_def)
  let ?c = "req_count (xg (nd_app s)) + 1"
  have l: "(''/cli/stats'', flag_get env OR flag_post env OR flag_put env, Xbd_riot_stats_handler) \<in> set (listener env)"
    "(''/riot/board'', flag_get env, Xbd_riot_board_handler) \<in> set (listener env)"
    "c_string REQ_URI_MAX ''/cli/stats''" "c_string REQ_URI_MAX ''/riot/board''"
    by (simp_all add: listener_def c_string_def REQ_URI_MAX_def)
  have g: "METHOD_GET \<in> {METHOD_GET, METHOD_POST, METHOD_PUT}" "length [] \<le> PAYLOAD_REQ_MAX" "METHOD_GET = METHOD_GET \<longrightarrow> [] = []"
    by simp_all
  note get = get_fits [OF laws(1)]
  show ?thesis
  proof (cases c)
    case Get_stats
    have "\<exists>p. answers env fs w Xbd_riot_stats_handler pk ?c p ?c \<and> get_block2 env p = None \<and> payload_ok p \<and>
        memo_result GCOAP_MEMO_RESP p = MResp (Some (bytes_of (dec (unat ?c))))"
      if "length (pk_buf pk) = pdu_buf_size env" "get_detail env pk = METHOD_GET" for pk
    proof -
      obtain n q where q: "stats_reply env pk = (n, q)" by fastforce
      note f = content_fits [OF laws(1,3) that(1) q]
      have "unat ?c < 10 ^ 5" using unsigned_less [of ?c, where 'a = nat] by simp
      then have len: "length (dec (unat ?c)) \<le> 5" by (intro length_dec_le) simp_all
      have "5 \<le> pk_payload_len q" using f(3) by simp
      note stats = stats_call [OF laws(1,2) that(2) q f(1,2) this]
      have "\<exists>g'. call_handler env fs Xbd_riot_stats_handler pk g = Some (n + int (length (dec (unat ?c))),
          q\<lparr>pk_buf := take (nat n) (pk_buf q) @ bytes_of (dec (unat ?c)) @ drop (nat n + length (dec (unat ?c))) (pk_buf q)\<rparr>, g') \<and>
          req_count g' = ?c" if "req_count g = ?c" for g using stats [of fs g] unfolding that .
      then show ?thesis using len f(3) by (intro answers_content [OF laws(1,4) that(1) q f(1)]) auto
    qed
    with node_exchange [OF env s l(1,3) g, of fs ?c] get Get_stats show ?thesis by (simp add: gcoap_call_def)
  next
    case Get_board
    have "\<exists>p. answers env fs w Xbd_riot_board_handler pk ?c p ?c \<and> get_block2 env p = None \<and> payload_ok p \<and>
        memo_result GCOAP_MEMO_RESP p = MResp (Some (bytes_of ''minerva''))"
      if "length (pk_buf pk) = pdu_buf_size env" for pk
    proof -
      obtain n q where q: "stats_reply env pk = (n, q)" by fastforce
      note f = content_fits [OF laws(1,3) that q]
      note board = board_call [OF laws(1,2) q f]
      have "\<exists>g'. call_handler env fs Xbd_riot_board_handler pk g = Some (n + int (length ''minerva''),
          q\<lparr>pk_buf := take (nat n) (pk_buf q) @ bytes_of ''minerva'' @ drop (nat n + length ''minerva'') (pk_buf q)\<rparr>, g') \<and>
          req_count g' = ?c" if "req_count g = ?c" for g using board [of fs g] unfolding that .
      then show ?thesis using f(3) by (intro answers_content [OF laws(1,4) that q f(1)]) auto
    qed
    with node_exchange [OF env s l(2,4) g, of fs ?c] get Get_board show ?thesis by (simp add: gcoap_call_def)
  next
    case (Set_stats m k)
    with c have m: "m \<in> {METHOD_POST, METHOD_PUT}" and k: "k < 65536" by (simp_all add: call_ok_def)
    let ?d = "bytes_of (dec k)"
    have len: "length (dec k) \<le> 5" using k by (intro length_dec_le) simp_all
    then have d: "length ?d \<le> PAYLOAD_REQ_MAX" "?d \<noteq> []" by (simp_all add: PAYLOAD_REQ_MAX_def dec_not_Nil)
    have mm: "m \<in> {METHOD_GET, METHOD_POST, METHOD_PUT}" "m = METHOD_GET \<longrightarrow> ?d = []" using m by auto
    have fit: "0 \<le> fst (plain_packet env m ''/cli/stats'' (?d \<noteq> []) log) \<and>
        nat (fst (plain_packet env m ''/cli/stats'' (?d \<noteq> []) log)) + length ?d \<le> pdu_buf_size env" for log
    proof -
      from laws(3) have "0 \<le> fst (plain_packet env m ''/cli/stats'' True log) \<and>
          nat (fst (plain_packet env m ''/cli/stats'' True log)) + 5 \<le> pdu_buf_size env"
        unfolding exchange_fits_def by blast
      with len show ?thesis by simp
    qed
    have "\<exists>p. answers env fs w Xbd_riot_stats_handler pk ?c p (word_of_nat k) \<and> get_block2 env p = None \<and> payload_ok p \<and>
        memo_result GCOAP_MEMO_RESP p = MResp None"
      if pk: "length (pk_buf pk) = pdu_buf_size env" "get_detail env pk = m" "pk_payload_len pk = length ?d" "payload_bytes pk = ?d" for pk
    proof -
      obtain n q where q: "response env COAP_CODE_CHANGED pk = (n, q)" by fastforce
      from laws(3) pk(1) q have n: "0 < n" "nat n \<le> length (pk_buf q)" unfolding exchange_fits_def by (metis fst_conv snd_conv)+
      let ?p = "w_response w (take (nat n) (pk_buf q))"
      note p = wire_lawD(4) [OF laws(4) pk(1) q]
      have "get_detail env pk \<in> {2, 3}" "pk_payload_len pk \<le> 5" using pk(2,3) m len by auto
      from set_call [OF laws(2) this pk(4) k q] wire_lawD(2) [OF laws(4) n]
      have "answers env fs w Xbd_riot_stats_handler pk ?c ?p (word_of_nat k)" unfolding answers_def by blast
      moreover have "memo_result GCOAP_MEMO_RESP ?p = MResp None" using p by (simp add: memo_result_def delivered_def)
      ultimately show ?thesis using p by blast
    qed
    with node_exchange [OF env s l(1,3) mm(1) d(1) mm(2) fit, of fs "word_of_nat k"] m Set_stats
    show ?thesis by (auto simp: gcoap_call_def)
  qed
qed

lemma self_calls_service:
  assumes env: "node_env env w a" and "\<forall>c \<in> set cs. call_ok c" and "idle s"
  shows "\<exists>s'. self_calls env fs w a cs s = Some (fst (services cs (req_count (xg (nd_app s)))), s') \<and> idle s' \<and>
     req_count (xg (nd_app s')) = snd (services cs (req_count (xg (nd_app s)))) \<and> xb (nd_app s') = xb (nd_app s) \<and>
     length (reqs (xg (nd_app s'))) = length (reqs (xg (nd_app s))) + length cs"
  using assms(2,3)
proof (induction cs arbitrary: s)
  case Nil
  then show ?case by simp
next
  case (Cons c cs)
  let ?n = "req_count (xg (nd_app s))"
  from Cons.prems(1) have c: "call_ok c" "\<forall>c \<in> set cs. call_ok c" by simp_all
  from self_call_exchange [OF env c(1) Cons.prems(2), of fs] obtain req t where
      t: "self_req a c = Some req" "await_node env fs w 2 req s = Some (fst (service c ?n), t)" "idle t"
        "req_count (xg (nd_app t)) = snd (service c ?n)" "xb (nd_app t) = xb (nd_app s)"
        "length (reqs (xg (nd_app t))) = Suc (length (reqs (xg (nd_app s))))" by blast
  from Cons.IH [OF c(2) t(3)] t show ?case by (auto split: prod.split)
qed

section \<open>Properties\<close>

text \<open>
  C3: The node as a client of itself refines a single number. Whatever sequence of requests asynchronous
  code makes to the node's own resources (GET of \<^verbatim>\<open>/cli/stats\<close>, POST or PUT of a number below 65536 to
  it, GET of \<^verbatim>\<open>/riot/board\<close>), two turns of the server task for each suffice, through the socket events, the
  stream, the handlers and the response handler, to resolve every future, in order, with the result of the
  operation on the number: the request itself is counted when it is sent, before it is served, so that a
  GET returns the number after its own increment, in decimal and modulo 65536; a number that was put
  replaces it; and the board answers \<^verbatim>\<open>minerva\<close>. Afterwards nothing is left waiting, the counter of the
  firmware is the number, and the blockwise transfers are untouched.
\<close>

theorem node_refines_service:
  assumes "node_env env w a" and "\<forall>c \<in> set cs. call_ok c" and "idle s"
    and "services cs (req_count (xg (nd_app s))) = (results, c')"
  shows "\<exists>s'. self_calls env fs w a cs s = Some (results, s') \<and> idle s' \<and> req_count (xg (nd_app s')) = c' \<and>
     xb (nd_app s') = xb (nd_app s) \<and> length (reqs (xg (nd_app s'))) = length (reqs (xg (nd_app s))) + length cs"
  using self_calls_service [OF assms(1-3), of fs] assms(4) by simp

text \<open>
  A library whose messages carry the method in their second byte and the resource in their third (2 is the
  list of resources, which the library serves itself), and
  the payload behind a header of four bytes, five for a request with a payload, or seven for content.
\<close>

definition path_code :: "string option \<Rightarrow> byte" where
  "path_code p = (if p = Some ''/riot/board'' then 1 else if p = Some ''/.well-known/core'' then 2 else 0)"

definition loop_demo :: gcoap_env where
  "loop_demo = gcoap_demo\<lparr>req_init := \<lambda>_ b m p. \<lparr>pk_buf = b[1 := m, 2 := path_code p], pk_payload = 4, pk_payload_len = 0, pk_opts = []\<rparr>,
     req_send := \<lambda>_ msg _. max 1 (min 128 (int (length msg)))\<rparr>"

definition demo_parse :: "nat \<Rightarrow> nat \<Rightarrow> bytes \<Rightarrow> coap_pkt" where
  "demo_parse hdr room msg = \<lparr>pk_buf = msg @ replicate (room - length msg) 0, pk_payload = hdr, pk_payload_len = length msg - hdr, pk_opts = []\<rparr>"

definition wire_demo :: wire where
  "wire_demo = \<lparr>w_self = zero_ep\<lparr>family := AF_INET6, port := 5683\<rparr>,
     w_dispatch = \<lambda>msg. if msg ! 2 = 2 then Inl (Some (replicate 7 0 @ bytes_of ''</cli/stats>''))
       else Inr (if msg ! 2 = 1 then Xbd_riot_board_handler else Xbd_riot_stats_handler,
         demo_parse (if length msg = 4 then 4 else 5) 128 msg),
     w_reply = \<lambda>n pk. if 0 < n then Some (take (nat n) (pk_buf pk)) else None,
     w_response = \<lambda>msg. demo_parse (if length msg = 4 then 4 else 7) 128 msg\<rparr>"

lemma loop_demo_simps [simp]:
  "opt_finish loop_demo = demo_finish" "pdu_buf_size loop_demo = 128" "set_type loop_demo t pk = pk"
  "obs_init loop_demo = (\<lambda>_ n _. (GCOAP_OBS_INIT_OK, demo_pkt n 1))" "response loop_demo code pk = (4, pk)"
  "opt_add loop_demo = (\<lambda>opt pk. pk\<lparr>pk_opts := pk_opts pk @ [opt]\<rparr>)" "resp_init loop_demo code pk = pk\<lparr>pk_opts := []\<rparr>"
  "get_detail loop_demo pk = (if 1 < length (pk_buf pk) then pk_buf pk ! 1 else 0)"
  "get_block2 loop_demo pk = (case pk_opts pk of [Block2 b] \<Rightarrow> Some b | _ \<Rightarrow> None)"
  by (simp_all add: loop_demo_def gcoap_demo_def)

lemma loop_req_init:
  "req_init loop_demo log b m p = \<lparr>pk_buf = b[1 := m, 2 := path_code p], pk_payload = 4, pk_payload_len = 0, pk_opts = []\<rparr>"
  by (simp add: loop_demo_def)

lemma loop_demo_env: "client_env loop_demo" "flag_law loop_demo" "sends_law loop_demo"
proof -
  have "finish_law loop_demo" by (auto simp: finish_law_def demo_finish_def Let_def)
  moreover have "init_law loop_demo" "fmt_law loop_demo" by (simp_all add: init_law_def fmt_law_def loop_demo_def gcoap_demo_def demo_pkt_def)
  moreover have "headers_fit loop_demo" by (simp add: headers_fit_def demo_finish_def demo_pkt_def Let_def)
  ultimately show "client_env loop_demo" by (simp add: client_env_def)
  show "flag_law loop_demo" by (simp add: flag_law_def loop_demo_def gcoap_demo_def)
  show "sends_law loop_demo" by (auto simp: sends_law_def loop_demo_def less_max_iff_disj min_less_iff_disj)
qed

lemma demo_plain_packet:
  "\<exists>q. plain_packet loop_demo m u p log = (if p then 5 else 4, q) \<and>
     take 5 (pk_buf q) = [0, m, path_code (Some u), 0, 0] \<and> take 4 (pk_buf q) = [0, m, path_code (Some u), 0]"
  by (simp add: plain_packet_def demo_finish_def stack_buf_def loop_req_init take_update_swap) (simp add: eval_nat_numeral)

lemma demo_stats_reply:
  "length (pk_buf pk) = 128 \<Longrightarrow> \<exists>q. stats_reply loop_demo pk = (7, q) \<and> pk_payload_len q = 121 \<and> pk_buf q = pk_buf pk"
  by (simp add: stats_reply_def demo_finish_def)

lemma demo_parse_simps:
  "pk_opts (demo_parse hdr room msg) = []"
  "length msg \<le> room \<Longrightarrow> length (pk_buf (demo_parse hdr room msg)) = room"
  "pk_payload_len (demo_parse (length h) room (h @ d)) = length d" "payload_bytes (demo_parse (length h) room (h @ d)) = d"
  "length h + length d \<le> 128 \<Longrightarrow> payload_ok (demo_parse (length h) 128 (h @ d))"
  by (simp_all add: demo_parse_def payload_bytes_def payload_ok_def PAYLOAD_OUT_MAX_def)

lemma demo_exchange_fits: "exchange_fits loop_demo"
  unfolding exchange_fits_def
proof (intro conjI allI impI)
  fix m :: u8 and log
  show "0 \<le> fst (plain_packet loop_demo m ''/cli/stats'' True log)"
    "nat (fst (plain_packet loop_demo m ''/cli/stats'' True log)) + 5 \<le> pdu_buf_size loop_demo"
    using demo_plain_packet [of m "''/cli/stats''" True log] by auto
next
  fix pk :: coap_pkt
  assume "length (pk_buf pk) = pdu_buf_size loop_demo"
  then show "0 \<le> fst (stats_reply loop_demo pk)" "7 \<le> pk_payload_len (snd (stats_reply loop_demo pk))"
    "0 < fst (response loop_demo COAP_CODE_CHANGED pk)"
    "nat (fst (response loop_demo COAP_CODE_CHANGED pk)) \<le> length (pk_buf (snd (response loop_demo COAP_CODE_CHANGED pk)))"
    using demo_stats_reply [of pk] by auto
qed

lemma demo_request:
  assumes "(u, methods, h) \<in> set (listener loop_demo)" and "plain_packet loop_demo m u (d \<noteq> []) log = (n, q)"
    and "nat n + length d \<le> 128"
  shows "\<exists>pk. w_dispatch wire_demo (take (nat n) (pk_buf q) @ d) = Inr (h, pk) \<and> length (pk_buf pk) = 128 \<and>
     get_detail loop_demo pk = m \<and> pk_payload_len pk = length d \<and> payload_bytes pk = d"
proof -
  let ?hdr = "if d = [] then [0, m, path_code (Some u), 0] else [0, m, path_code (Some u), 0, 0]"
  have hdr: "take (nat n) (pk_buf q) = ?hdr" and n: "nat n = length ?hdr"
    using demo_plain_packet [of m u "d \<noteq> []" log] assms(2) by auto
  have four: "length (?hdr @ d) = 4 \<longleftrightarrow> d = []" by auto
  let ?k = "if d = [] then 4 else 5 :: nat"
  let ?pk = "demo_parse ?k 128 (?hdr @ d)"
  have k: "?k = length ?hdr" by simp
  have p: "pk_payload_len ?pk = length d" "payload_bytes ?pk = d" unfolding k by (rule demo_parse_simps)+
  have "(if (?hdr @ d) ! 2 = 1 then Xbd_riot_board_handler else Xbd_riot_stats_handler) = h" "(?hdr @ d) ! 2 \<noteq> 2"
    using assms(1) by (auto simp: listener_def path_code_def)
  then have "w_dispatch wire_demo (?hdr @ d) = Inr (h, ?pk)"
    unfolding wire_demo_def by (simp only: four wire.simps if_False)
  moreover have "length (?hdr @ d) \<le> 128" using n assms(3) by simp
  then have "length (pk_buf ?pk) = 128" by (rule demo_parse_simps)
  moreover have "pk_buf ?pk ! 1 = m" by (simp add: demo_parse_def nth_append)
  ultimately show ?thesis unfolding hdr using p by (intro exI [of _ ?pk]) simp
qed

lemma demo_wire_law: "wire_law loop_demo wire_demo"
  unfolding wire_law_def
proof (intro conjI allI impI)
  fix m u log n pk0 methods h and d :: bytes
  assume "(u, methods, h) \<in> set (listener loop_demo)" "plain_packet loop_demo m u (d \<noteq> []) log = (n, pk0)"
    "nat n + length d \<le> pdu_buf_size loop_demo"
  then show "\<exists>pk. w_dispatch wire_demo (take (nat n) (pk_buf pk0) @ d) = Inr (h, pk) \<and> length (pk_buf pk) = pdu_buf_size loop_demo \<and>
      get_detail loop_demo pk = m \<and> pk_payload_len pk = length d \<and> payload_bytes pk = d"
    using demo_request by simp
next
  fix n :: int and pk :: coap_pkt
  assume "0 < n"
  then show "w_reply wire_demo n pk = Some (take (nat n) (pk_buf pk))" by (simp add: wire_demo_def)
next
  fix pk :: coap_pkt and d :: bytes
  assume pk: "length (pk_buf pk) = pdu_buf_size loop_demo" and d: "length d \<le> 7"
  from demo_stats_reply [of pk] pk obtain q where q: "stats_reply loop_demo pk = (7, q)" "length (pk_buf q) = 128" by auto
  let ?h = "take 7 (pk_buf q)"
  have h: "length ?h = 7" using q(2) by simp
  have "w_response wire_demo (?h @ d) = demo_parse (length ?h) 128 (?h @ d)" using q(2) by (simp add: wire_demo_def)
  moreover have "payload_ok (demo_parse (length ?h) 128 (?h @ d))" using h d by (intro demo_parse_simps) simp
  ultimately show "let p = w_response wire_demo (take (nat (fst (stats_reply loop_demo pk))) (pk_buf (snd (stats_reply loop_demo pk))) @ d) in
      get_block2 loop_demo p = None \<and> payload_ok p \<and> pk_payload_len p = length d \<and> payload_bytes p = d"
    using q(1) by (simp add: Let_def demo_parse_simps del: length_take)
next
  fix pk :: coap_pkt
  assume "length (pk_buf pk) = pdu_buf_size loop_demo"
  then have h: "length (take 4 (pk_buf pk)) = 4" by simp
  then have "w_response wire_demo (take 4 (pk_buf pk)) = demo_parse 4 128 (take 4 (pk_buf pk))" by (simp add: wire_demo_def)
  moreover have "payload_ok (demo_parse 4 128 (take 4 (pk_buf pk)))" "pk_payload_len (demo_parse 4 128 (take 4 (pk_buf pk))) = 0"
    using demo_parse_simps(3) [of "take 4 (pk_buf pk)" 128 "[]"] demo_parse_simps(5) [of "take 4 (pk_buf pk)" "[]"] h by simp_all
  ultimately show "let p = w_response wire_demo (take (nat (fst (response loop_demo COAP_CODE_CHANGED pk)))
      (pk_buf (snd (response loop_demo COAP_CODE_CHANGED pk)))) in
      get_block2 loop_demo p = None \<and> payload_ok p \<and> pk_payload_len p = 0"
    by (simp add: Let_def demo_parse_simps(1))
qed

lemma demo_node_env: "node_env loop_demo wire_demo ''[::1]:5683''"
proof -
  have "\<forall>log. name2ep loop_demo log zero_ep ''[::1]:5683'' = (0, zero_ep\<lparr>family := AF_INET6\<rparr>)"
    "default_port loop_demo (zero_ep\<lparr>family := AF_INET6\<rparr>) = w_self wire_demo"
    by (simp_all add: loop_demo_def gcoap_demo_def default_port_def zero_ep_def wire_demo_def)
  with loop_demo_env demo_exchange_fits demo_wire_law show ?thesis
    by (auto simp: node_env_def c_string_def REQ_ADDR_MAX_def)
qed

text \<open>A new node: its first GET returns 1; after a PUT of 65535 the count wraps around.\<close>

theorem node_refines_service_witness:
  "\<exists>s'. self_calls loop_demo (\<lambda>_. None) wire_demo ''[::1]:5683'' [Get_stats, Set_stats METHOD_PUT 65535, Get_board, Get_stats] node_start =
     Some ([MResp (Some (bytes_of (dec 1))), MResp None, MResp (Some (bytes_of ''minerva'')), MResp (Some (bytes_of (dec 1)))], s') \<and>
     length (reqs (xg (nd_app s'))) = 4"
proof -
  let ?cs = "[Get_stats, Set_stats METHOD_PUT 65535, Get_board, Get_stats]"
  have c: "\<forall>c \<in> set ?cs. call_ok c" and i: "idle node_start" by (simp_all add: call_ok_def idle_def node_start_def)
  have n: "req_count (xg (nd_app node_start)) = 0" "reqs (xg (nd_app node_start)) = []"
    by (simp_all add: node_start_def xbd_start_def gcoap_start_def reqs_def)
  have w: "(word_of_nat 65535 + 1 :: u16) = 0" by simp
  have s: "services ?cs (req_count (xg (nd_app node_start))) =
      ([MResp (Some (bytes_of (dec 1))), MResp None, MResp (Some (bytes_of ''minerva'')), MResp (Some (bytes_of (dec 1)))], 1)"
    unfolding n by simp
  from node_refines_service [OF demo_node_env c i s, of "\<lambda>_. None"] n show ?thesis by auto
qed

end
