(* ===== verification/Self_Test.thy ===== *)
theory Self_Test
  imports Xbd_Requests
begin

text \<open>
  The test of the blockwise transfers that the firmware carries, \<^verbatim>\<open>test_blockwise\<close> of \<^verbatim>\<open>src/lib.rs\<close> in
  \<^verbatim>\<open>examples/xbd-net\<close> (alias of the shell), as a program over the client: two plain requests, a
  transfer with a second one in the middle of it, a third one, the closing of all transfers, and
  transfers that end with a timeout and with an empty response. A failed assertion, a panic or an
  error returned to the caller, which unwraps it, is \<^const>\<open>None\<close>. The responses of the network are
  arguments.
\<close>

section \<open>The test\<close>

text \<open>\<^verbatim>\<open>get_blockwise()?\<close>\<close>

definition open_transfer :: "string \<Rightarrow> string \<Rightarrow> xbd_app \<Rightarrow> (nat \<times> xbd_app) option" where
  "open_transfer a u s =
     (case gcoap_get_blockwise a u s of Some (Inr i, s) \<Rightarrow> Some (i, s) | _ \<Rightarrow> None)"

definition assert_slot :: "nat \<Rightarrow> bool \<Rightarrow> xbd_app \<Rightarrow> xbd_app option" where
  "assert_slot i used s = (if state_is_valid i (xb s) = used then Some s else None)"

text \<open>\<^verbatim>\<open>bs.next().await\<close> of a stream that has an item.\<close>

definition next_item :: "nat \<Rightarrow> xbd_app \<Rightarrow> (breq option \<times> xbd_app) option" where
  "next_item i s = (case bs_poll_next i (xb s) of (Ready r, st) \<Rightarrow> Some (r, s\<lparr>xb := st\<rparr>) | _ \<Rightarrow> None)"

definition close_transfer :: "nat \<Rightarrow> xbd_app \<Rightarrow> xbd_app option" where
  "close_transfer i s = map_option (\<lambda>st. s\<lparr>xb := st\<rparr>) (bs_close i (xb s))"

definition test_get :: "gcoap_env \<Rightarrow> string \<Rightarrow> string \<Rightarrow> coap_pkt \<Rightarrow> xbd_app \<Rightarrow> xbd_app option" where
  "test_get env a u pk s =
     do { req \<leftarrow> gcoap_get a u; (_, s) \<leftarrow> await_req env req GCOAP_MEMO_RESP pk s; Some s }"

text \<open>The inner transfer of \<^verbatim>\<open>[blockwise-2]\<close>, and the loop of \<^verbatim>\<open>[blockwise-1]\<close> with its counter.\<close>

definition test_inner :: "gcoap_env \<Rightarrow> string \<Rightarrow> string \<Rightarrow> coap_pkt list \<Rightarrow> xbd_app \<Rightarrow> xbd_app option" where
  "test_inner env a u pks s =
     do {
       (i, s) \<leftarrow> open_transfer a u s;
       s \<leftarrow> assert_slot 1 True s;
       (_, s) \<leftarrow> blockwise_transfer env i pks s;
       assert_slot 1 False s
     }"

fun test_loop ::
  "gcoap_env \<Rightarrow> string \<Rightarrow> string \<Rightarrow> nat \<Rightarrow> coap_pkt list \<Rightarrow> nat \<Rightarrow> coap_pkt list \<Rightarrow> xbd_app \<Rightarrow> xbd_app option" where
  "test_loop env a u i inner count [] s =
     (case next_item i s of Some (None, s) \<Rightarrow> Some s | _ \<Rightarrow> None)"
| "test_loop env a u i inner count (pk # pks) s =
     do {
       (_, s) \<leftarrow> blockwise_round env i pk s;
       s \<leftarrow> (if Suc count = 3 then test_inner env a u inner s else Some s);
       test_loop env a u i inner (Suc count) pks s
     }"

definition test_nested ::
  "gcoap_env \<Rightarrow> string \<Rightarrow> string \<Rightarrow> coap_pkt list \<Rightarrow> coap_pkt list \<Rightarrow> xbd_app \<Rightarrow> xbd_app option" where
  "test_nested env a u outer inner s =
     do {
       (i, s) \<leftarrow> open_transfer a u s;
       s \<leftarrow> assert_slot 0 True s;
       s \<leftarrow> test_loop env a u i inner 0 outer s;
       assert_slot 0 False s
     }"

definition test_again :: "gcoap_env \<Rightarrow> string \<Rightarrow> string \<Rightarrow> coap_pkt list \<Rightarrow> xbd_app \<Rightarrow> xbd_app option" where
  "test_again env a u pks s =
     do {
       (i, s) \<leftarrow> open_transfer a u s;
       s \<leftarrow> assert_slot 0 True s;
       (_, s) \<leftarrow> blockwise_transfer env i pks s;
       assert_slot 0 False s
     }"

text \<open>\<^verbatim>\<open>[blockwise-close]\<close>: the vector \<^verbatim>\<open>bss\<close> holds one stream for each slot.\<close>

fun open_transfers :: "nat \<Rightarrow> string \<Rightarrow> string \<Rightarrow> xbd_app \<Rightarrow> (nat list \<times> xbd_app) option" where
  "open_transfers 0 a u s = Some ([], s)"
| "open_transfers (Suc n) a u s =
     do { (i, s) \<leftarrow> open_transfer a u s; (is, s) \<leftarrow> open_transfers n a u s; Some (i # is, s) }"

fun close_transfers :: "nat list \<Rightarrow> xbd_app \<Rightarrow> xbd_app option" where
  "close_transfers [] s = Some s"
| "close_transfers (i # is) s = close_transfer i s \<bind> close_transfers is"

definition has_payload :: "gmemo_state \<Rightarrow> bool" where
  "has_payload m = (case m of MResp (Some x) \<Rightarrow> 0 < length x | _ \<Rightarrow> False)"

definition test_close :: "gcoap_env \<Rightarrow> string \<Rightarrow> string \<Rightarrow> coap_pkt \<Rightarrow> xbd_app \<Rightarrow> xbd_app option" where
  "test_close env a u pk s =
     do {
       (bss, s) \<leftarrow> open_transfers BLOCKWISE_STATES_MAX a u s;
       s \<leftarrow> (case gcoap_get_blockwise a u s of Some (Inl StateNotAvailable, s) \<Rightarrow> Some s | _ \<Rightarrow> None);
       (r0, s) \<leftarrow> next_item (bss ! 0) s;
       req0 \<leftarrow> r0;
       (r1, s) \<leftarrow> next_item (bss ! 1) s;
       req1 \<leftarrow> r1;
       (m, s) \<leftarrow> await_req env (BlockwiseGet req0) GCOAP_MEMO_RESP pk s;
       s \<leftarrow> (if has_payload m then Some s else None);
       s \<leftarrow> close_transfers bss s;
       s \<leftarrow> (if list_all (\<lambda>i. \<not> state_is_valid i (xb s)) [0..<BLOCKWISE_STATES_MAX] then Some s else None);
       (e0, s) \<leftarrow> next_item (bss ! 0) s;
       (e1, s) \<leftarrow> next_item (bss ! 1) s;
       s \<leftarrow> (if e0 = None \<and> e1 = None then Some s else None);
       (m, s) \<leftarrow> await_req env (BlockwiseGet req1) GCOAP_MEMO_RESP pk s;
       if m = MErr then Some s else None
     }"

text \<open>\<^verbatim>\<open>[blockwise-timeout]\<close> and \<^verbatim>\<open>[blockwise-resp-none]\<close>: any other result panics.\<close>

fun close_on :: "gcoap_env \<Rightarrow> gmemo_state \<Rightarrow> nat \<Rightarrow> (memo_state \<times> coap_pkt) list \<Rightarrow> xbd_app \<Rightarrow> xbd_app option" where
  "close_on env expected i [] s = (case next_item i s of Some (None, s) \<Rightarrow> Some s | _ \<Rightarrow> None)"
| "close_on env expected i ((state, pk) # rs) s =
     (case next_item i s of
        Some (Some req, s) \<Rightarrow> do {
          (m, s) \<leftarrow> await_req env (BlockwiseGet req) state pk s;
          s \<leftarrow> (if m = expected then close_transfer i s else None);
          close_on env expected i rs s
        }
      | _ \<Rightarrow> None)"

definition test_closed ::
  "gcoap_env \<Rightarrow> gmemo_state \<Rightarrow> string \<Rightarrow> string \<Rightarrow> memo_state \<times> coap_pkt \<Rightarrow> xbd_app \<Rightarrow> xbd_app option" where
  "test_closed env expected a u r s = do { (i, s) \<leftarrow> open_transfer a u s; close_on env expected i [r] s }"

text \<open>What the network answers: to the plain requests, the three transfers and the others.\<close>

record test_net =
  tn_stats1 :: coap_pkt
  tn_stats2 :: coap_pkt
  tn_outer :: "coap_pkt list"
  tn_inner :: "coap_pkt list"
  tn_third :: "coap_pkt list"
  tn_close :: coap_pkt
  tn_timeout :: coap_pkt
  tn_none :: coap_pkt

definition test_blockwise :: "gcoap_env \<Rightarrow> test_net \<Rightarrow> string \<Rightarrow> xbd_app \<Rightarrow> xbd_app option" where
  "test_blockwise env net addr_self s =
     (let song = ''/const/song.txt'' in
      do {
        s \<leftarrow> test_get env addr_self ''/cli/stats'' (tn_stats1 net) s;
        s \<leftarrow> test_get env addr_self ''/cli/stats'' (tn_stats2 net) s;
        s \<leftarrow> test_nested env addr_self song (tn_outer net) (tn_inner net) s;
        s \<leftarrow> test_again env addr_self song (tn_third net) s;
        s \<leftarrow> test_close env addr_self song (tn_close net) s;
        s \<leftarrow> test_closed env MTimeout ''[::1]:5680'' song (GCOAP_MEMO_TIMEOUT, tn_timeout net) s;
        test_closed env (MResp None) ''[::1]:5683'' ''/const/song2.txt'' (GCOAP_MEMO_RESP, tn_none net) s
      })"

section \<open>Lemmas\<close>

text \<open>The first \<open>k\<close> slots are in use and no other.\<close>

definition used_upto :: "nat \<Rightarrow> xbd_app \<Rightarrow> bool" where
  "used_upto k s \<longleftrightarrow> bw_ok (xb s) \<and> (\<forall>j. state_is_valid j (xb s) \<longleftrightarrow> j < k)"

lemma used_uptoD: "used_upto k s \<Longrightarrow> bw_ok (xb s)" "used_upto k s \<Longrightarrow> state_is_valid j (xb s) \<longleftrightarrow> j < k"
  by (simp_all add: used_upto_def)

lemma used_upto_less:
  assumes "used_upto (Suc k) t" and "bw_ok (xb s)" and "\<forall>j. state_is_valid j (xb s) \<longleftrightarrow> state_is_valid j (xb t) \<and> j \<noteq> k"
  shows "used_upto k s"
  unfolding used_upto_def using assms(2,3) used_uptoD(2) [OF assms(1)] by (simp add: less_Suc_eq) blast

lemma pending_ok: "pending_request env i a u s \<Longrightarrow> bw_ok (xb s)"
  by (simp add: pending_request_def)

lemma pending_kept:
  assumes "pending_request env j a u s" and "bw_ok (xb s')" and "state_is_valid j (xb s')"
    and "bw_sd (xb s') ! j = bw_sd (xb s) ! j" and "bw_state j (xb s') = bw_state j (xb s)"
  shows "pending_request env j a u s'"
  using assms by (auto simp: pending_request_def hdr_fits_def split: option.splits)

lemma open_at:
  assumes "c_string REQ_ADDR_MAX a" and "c_string REQ_URI_MAX u" and "used_upto k s" and "k < BLOCKWISE_STATES_MAX"
  shows "\<exists>s'. open_transfer a u s = Some (k, s') \<and> used_upto (Suc k) s' \<and> pending_request env k a u s' \<and> xf s' = xf s \<and>
     (\<forall>j. j \<noteq> k \<longrightarrow> bw_sd (xb s') ! j = bw_sd (xb s) ! j \<and> bw_state j (xb s') = bw_state j (xb s))"
proof -
  note u = used_uptoD [OF assms(3)]
  have "\<not> state_is_valid k (xb s)" by (simp add: u(2))
  from new_transfer_pending [OF assms(1,2) u(1) this assms(4), of env] obtain i st where
      i: "send_blockwise_new a u (xb s) = Some (Inr i, st)" "pending_request env i a u (s\<lparr>xb := st\<rparr>)"
        "\<not> state_is_valid i (xb s)" "\<forall>j. state_is_valid j st \<longleftrightarrow> state_is_valid j (xb s) \<or> j = i"
        "\<forall>j < i. state_is_valid j (xb s)"
        "\<forall>j. j \<noteq> i \<longrightarrow> bw_sd st ! j = bw_sd (xb s) ! j \<and> bw_state j st = bw_state j (xb s)" by blast
  from i(3) have "\<not> i < k" by (simp add: u(2))
  moreover from i(5) have "\<not> k < i" unfolding u(2) by blast
  ultimately have "i = k" by simp
  with i pending_ok [OF i(2)] show ?thesis
    by (auto simp: open_transfer_def gcoap_get_blockwise_def used_upto_def u(2))
qed

lemma open_all:
  assumes "c_string REQ_ADDR_MAX a" and "c_string REQ_URI_MAX u" and "used_upto k s" and "k + n \<le> BLOCKWISE_STATES_MAX"
    and "\<forall>j < k. pending_request env j a u s"
  shows "\<exists>s'. open_transfers n a u s = Some ([k..<k + n], s') \<and> used_upto (k + n) s' \<and> xf s' = xf s \<and>
     (\<forall>j < k + n. pending_request env j a u s')"
  using assms(3-5)
proof (induction n arbitrary: k s)
  case 0
  then show ?case by simp
next
  case (Suc n)
  from Suc.prems have k: "k < BLOCKWISE_STATES_MAX" by simp
  from open_at [OF assms(1,2) Suc.prems(1) k, of env] obtain t where t: "open_transfer a u s = Some (k, t)"
      "used_upto (Suc k) t" "pending_request env k a u t" "xf t = xf s"
      "\<forall>j. j \<noteq> k \<longrightarrow> bw_sd (xb t) ! j = bw_sd (xb s) ! j \<and> bw_state j (xb t) = bw_state j (xb s)" by blast
  have "\<forall>j < Suc k. pending_request env j a u t"
  proof (intro allI impI)
    fix j
    assume "j < Suc k"
    then show "pending_request env j a u t"
      using t(3,5) Suc.prems(3) used_uptoD [OF t(2)] by (cases "j = k") (auto intro: pending_kept [of env j a u s])
  qed
  with Suc.IH [OF t(2)] Suc.prems(2) obtain s' where "open_transfers n a u t = Some ([Suc k..<Suc k + n], s')"
      "used_upto (Suc k + n) s'" "xf s' = xf t" "\<forall>j < Suc k + n. pending_request env j a u s'" by auto
  with t(1,4) show ?case by (simp add: upt_conv_Cons)
qed

text \<open>Closing transfers.\<close>

lemma close_at:
  assumes "bw_ok (xb s)" and "state_is_valid i (xb s)"
  shows "\<exists>s'. close_transfer i s = Some s' \<and> bw_ok (xb s') \<and> xf s' = xf s \<and> xg s' = xg s \<and>
     (\<forall>j. state_is_valid j (xb s') \<longleftrightarrow> state_is_valid j (xb s) \<and> j \<noteq> i) \<and> bw_sd (xb s') = (bw_sd (xb s))[i := [None]]"
proof -
  from release_slot_returns [OF assms] obtain st where st: "release_slot i (xb s) = Some st" "bw_ok st"
      "\<forall>j. state_is_valid j st \<longleftrightarrow> state_is_valid j (xb s) \<and> j \<noteq> i" "bw_sd st = bw_sd (xb s)" by blast
  have add: "bs_add i None (bs_empty i st) = Some (st\<lparr>bw_sd := (bw_sd st)[i := [None]]\<rparr>)"
    using bs_add_emptied [OF st(2)] state_is_valid_less [OF assms] by blast
  have "bw_ok (st\<lparr>bw_sd := (bw_sd st)[i := [None]]\<rparr>)" using st(2) by (rule bw_ok_sd) simp
  with st add show ?thesis by (simp add: close_transfer_def bs_close_def)
qed

lemma close_all:
  assumes "bw_ok (xb s)" and "\<forall>i \<in> set is. state_is_valid i (xb s)" and "distinct is"
  shows "\<exists>s'. close_transfers is s = Some s' \<and> bw_ok (xb s') \<and> xf s' = xf s \<and> xg s' = xg s \<and>
     (\<forall>j. state_is_valid j (xb s') \<longleftrightarrow> state_is_valid j (xb s) \<and> j \<notin> set is) \<and> (\<forall>i \<in> set is. bw_sd (xb s') ! i = [None]) \<and>
     (\<forall>j. j \<notin> set is \<longrightarrow> bw_sd (xb s') ! j = bw_sd (xb s) ! j)"
  using assms
proof (induction "is" arbitrary: s)
  case Nil
  then show ?case by simp
next
  case (Cons i r)
  then have v: "state_is_valid i (xb s)" by simp
  from close_at [OF Cons.prems(1) v] obtain t where t: "close_transfer i s = Some t" "bw_ok (xb t)" "xf t = xf s" "xg t = xg s"
      "\<forall>j. state_is_valid j (xb t) \<longleftrightarrow> state_is_valid j (xb s) \<and> j \<noteq> i" "bw_sd (xb t) = (bw_sd (xb s))[i := [None]]" by blast
  have "i < length (bw_sd (xb s))" using Cons.prems(1) state_is_valid_less [OF Cons.prems(1) v] by (simp add: bw_ok_def)
  moreover from Cons.IH [OF t(2)] Cons.prems t(5) obtain s' where "close_transfers r t = Some s'" "bw_ok (xb s')"
      "xf s' = xf t" "xg s' = xg t" "\<forall>j. state_is_valid j (xb s') \<longleftrightarrow> state_is_valid j (xb t) \<and> j \<notin> set r"
      "\<forall>i \<in> set r. bw_sd (xb s') ! i = [None]" "\<forall>j. j \<notin> set r \<longrightarrow> bw_sd (xb s') ! j = bw_sd (xb t) ! j" by auto
  ultimately show ?case using t Cons.prems(3) by auto
qed

text \<open>Taking the waiting request from its stream.\<close>

lemma next_pending:
  assumes "pending_request env i a u s"
  shows "\<exists>req. bw_sd (xb s) ! i = [Some req] \<and> next_item i s = Some (Some req, s\<lparr>xb := (xb s)\<lparr>bw_sd := (bw_sd (xb s))[i := []]\<rparr>\<rparr>) \<and> rq_idx req = i"
  using assms by (auto simp: pending_request_def next_item_def bs_poll_next_def xs_poll_next_def)

lemma next_end:
  "bw_sd (xb s) ! i = [None] \<Longrightarrow>
     next_item i s = Some (None, s\<lparr>xb := (xb s)\<lparr>bw_sd := (bw_sd (xb s))[i := []]\<rparr>\<rparr>)"
  by (simp add: next_item_def bs_poll_next_def xs_poll_next_def)

text \<open>A round of a transfer is an \<^verbatim>\<open>await\<close>; so is a response that is none, and one for a closed transfer.\<close>

lemma round_await:
  assumes "blockwise_round env i pk s = Some (m, s')" and "next_item i s = Some (Some req, t)"
  shows "await_req env (BlockwiseGet req) GCOAP_MEMO_RESP pk t = Some (m, s')"
proof -
  from assms(2) obtain st where n: "bs_poll_next i (xb s) = (Ready (Some req), st)" "t = s\<lparr>xb := st\<rparr>"
    by (auto simp: next_item_def split: poll.splits prod.splits)
  let ?s = "snd (fut_new t)" and ?k = "length (xf t)"
  obtain u where u: "poll_blockwise env req ?k ?s = Some (Pending, u)"
    using assms(1) n by (auto simp: blockwise_round_def fut_new_def split: option.splits poll.splits)
  with assms(1) n show ?thesis
    by (auto simp: blockwise_round_def await_req_def fut_new_def bind_eq_Some_conv split: poll.splits)
qed

lemma await_other:
  assumes env: "client_env env" and name: "\<forall>log. name2ep env log zero_ep a = (0, ep)"
    and lens: "c_string REQ_ADDR_MAX a" "c_string REQ_URI_MAX u" and p: "pending_request env i a u s"
    and resp: "get_block2 env pk = None" "payload_ok pk" "final_memo state"
  shows "\<exists>req t s'. next_item i s = Some (Some req, t) \<and>
     await_req env (BlockwiseGet req) state pk t = Some (memo_result state pk, s') \<and> bw_ok (xb s') \<and>
     (\<forall>j. state_is_valid j (xb s') = state_is_valid j (xb s)) \<and> bw_sd (xb s') = (bw_sd (xb s))[i := []]"
proof -
  let ?k = "length (xf s)"
  from round_sends [OF env name lens p] obtain req st t where
      poll: "bs_poll_next i (xb s) = (Ready (Some req), st)"
        "poll_blockwise env req ?k (s\<lparr>xb := st, xf := xf s @ [FNew]\<rparr>) = Some (Pending, t)" and
      t: "xf t = xf s @ [FRegistered]" "slot_holds i a u (xb t)" "bw_sd (xb t) = (bw_sd (xb s))[i := []]"
        "\<forall>j. state_is_valid j (xb t) = state_is_valid j (xb s)"
    by blast
  have "?k < length (xf t)" "xf t ! ?k = FRegistered" using t(1) by simp_all
  from response_plain [OF this resp] obtain t' where
      t': "gcoap_req_resp_handler env \<lparr>memo_st = state, memo_ctx = Fstat ?k\<rparr> pk t = Some t'"
        "xf t' = xf s @ [FResolved (memo_result state pk)]" "xb t' = xb t"
    using t(1) by auto
  from t'(2) have "poll_blockwise env req ?k t' = Some (Ready (memo_result state pk), t'\<lparr>xf := xf s @ [FTaken]\<rparr>)"
    by (simp add: poll_blockwise_def)
  with poll t'(1) have "await_req env (BlockwiseGet req) state pk (s\<lparr>xb := st\<rparr>) =
      Some (memo_result state pk, t'\<lparr>xf := xf s @ [FTaken]\<rparr>)"
    by (simp add: await_req_def fut_new_def)
  with poll(1) t t'(3) show ?thesis
    by (intro exI [of _ req] exI [of _ "s\<lparr>xb := st\<rparr>"] exI [of _ "t'\<lparr>xf := xf s @ [FTaken]\<rparr>"])
       (simp add: next_item_def slot_holds_def)
qed

lemma await_closed:
  assumes "\<not> state_is_valid (rq_idx req) (xb s)"
  shows "\<exists>s'. await_req env (BlockwiseGet req) state pk s = Some (MErr, s') \<and> xg s' = xg s \<and>
     xb s' = (xb s)\<lparr>bw_last := None\<rparr>"
  using assms by (simp add: await_req_def fut_new_def poll_blockwise_def Let_def)

section \<open>The parts of the test pass\<close>

lemma test_get_passes:
  assumes env: "client_env env" and name: "\<forall>log. name2ep env log zero_ep a = (0, ep)"
    and lens: "c_string REQ_ADDR_MAX a" "c_string REQ_URI_MAX u" and resp: "get_block2 env pk = None" "payload_ok pk"
  shows "\<exists>s'. test_get env a u pk s = Some s' \<and> xb s' = xb s"
proof -
  have m: "METHOD_GET \<in> {METHOD_GET, METHOD_POST, METHOD_PUT}" "length [] \<le> PAYLOAD_REQ_MAX"
    "METHOD_GET = METHOD_GET \<longrightarrow> [] = []" by simp_all
  from gcoap_call_req [OF lens m, of env] obtain req r where req: "gcoap_get a u = Some req"
      "poll_req env req = poll_inner env r" "well_made r" "ri_method r = METHOD_GET" "ri_addr r = a" "ri_uri r = u" "req_data r = []"
    by (auto simp: gcoap_call_def)
  obtain n pk0 where p: "first_packet env u (g_log (xg s)) = (n, pk0)" by fastforce
  then have p': "plain_packet env (ri_method r) (ri_uri r) (req_data r \<noteq> []) (g_log (xg s)) = (n, pk0)"
    by (simp add: plain_packet_def first_packet_def req)
  have "0 \<le> n" "nat n + length (req_data r) \<le> pdu_buf_size env"
    using first_packet_size [OF env p] req(7) by simp_all
  moreover have "\<forall>log. name2ep env log zero_ep (ri_addr r) = (0, ep)" using name req(5) by simp
  ultimately obtain s' where "await_req env req GCOAP_MEMO_RESP pk s = Some (memo_result GCOAP_MEMO_RESP pk, s')" "xb s' = xb s"
    using await_inner [OF req(2) env _ req(3) p' _ _ resp, of ep GCOAP_MEMO_RESP] by auto
  with req(1) show ?thesis by (simp add: test_get_def)
qed

lemma used_upto_xb: "xb s' = xb s \<Longrightarrow> used_upto k s' = used_upto k s"
  by (simp add: used_upto_def)

text \<open>A transfer that is opened and run to its end, with \<open>k\<close> others open.\<close>

lemma open_and_run:
  assumes env: "client_env env" and name: "\<forall>log. name2ep env log zero_ep a = (0, ep)"
    and lens: "c_string REQ_ADDR_MAX a" "c_string REQ_URI_MAX u" "u \<noteq> []"
    and used: "used_upto k s" "k < BLOCKWISE_STATES_MAX" and blocks: "block_sequence env u pks"
  shows "\<exists>t ms s'. open_transfer a u s = Some (k, t) \<and> state_is_valid k (xb t) \<and>
     blockwise_transfer env k pks t = Some (ms, s') \<and> used_upto k s' \<and>
     (\<forall>j. j \<noteq> k \<longrightarrow> bw_sd (xb s') ! j = bw_sd (xb s) ! j) \<and> ms = map (\<lambda>pk. MResp (delivered pk (pk_buf pk))) pks"
proof -
  from open_at [OF lens(1,2) used, of env] obtain t where t: "open_transfer a u s = Some (k, t)" "used_upto (Suc k) t"
      "pending_request env k a u t" "\<forall>j. j \<noteq> k \<longrightarrow> bw_sd (xb t) ! j = bw_sd (xb s) ! j" by blast
  let ?ms = "map (\<lambda>pk. MResp (delivered pk (pk_buf pk))) pks"
  from transfer_pending [OF env name lens t(3) blocks] obtain s' where s': "blockwise_transfer env k pks t = Some (?ms, s')"
      "bw_ok (xb s')" "\<forall>j. j \<noteq> k \<longrightarrow> bw_sd (xb s') ! j = bw_sd (xb t) ! j"
      "\<forall>j. state_is_valid j (xb s') \<longleftrightarrow> state_is_valid j (xb t) \<and> j \<noteq> k" by blast
  have "used_upto k s'" using t(2) s'(2,4) by (rule used_upto_less)
  moreover have "state_is_valid k (xb t)" by (simp add: used_uptoD(2) [OF t(2)])
  moreover have "\<forall>j. j \<noteq> k \<longrightarrow> bw_sd (xb s') ! j = bw_sd (xb s) ! j" using t(4) s'(3) by simp
  ultimately show ?thesis using t(1) s'(1) by blast
qed

lemma test_again_passes:
  assumes "client_env env" and "\<forall>log. name2ep env log zero_ep a = (0, ep)"
    and "c_string REQ_ADDR_MAX a" and "c_string REQ_URI_MAX u" and "u \<noteq> []"
    and "used_upto 0 s" and "block_sequence env u pks"
  shows "\<exists>s'. test_again env a u pks s = Some s' \<and> used_upto 0 s'"
proof -
  have "0 < BLOCKWISE_STATES_MAX" by (simp add: BLOCKWISE_STATES_MAX_def)
  from open_and_run [OF assms(1-6) this assms(7)] obtain t ms s' where r: "open_transfer a u s = Some (0, t)"
      "state_is_valid 0 (xb t)" "blockwise_transfer env 0 pks t = Some (ms, s')" "used_upto 0 s'" by blast
  then have "\<not> state_is_valid 0 (xb s')" by (simp add: used_upto_def)
  with r show ?thesis by (simp add: test_again_def assert_slot_def)
qed

lemma test_inner_passes:
  assumes "client_env env" and "\<forall>log. name2ep env log zero_ep a = (0, ep)"
    and "c_string REQ_ADDR_MAX a" and "c_string REQ_URI_MAX u" and "u \<noteq> []"
    and "used_upto 1 s" and "block_sequence env u pks"
  shows "\<exists>s'. test_inner env a u pks s = Some s' \<and> used_upto 1 s' \<and> (\<forall>j. j \<noteq> 1 \<longrightarrow> bw_sd (xb s') ! j = bw_sd (xb s) ! j)"
proof -
  have "1 < BLOCKWISE_STATES_MAX" by (simp add: BLOCKWISE_STATES_MAX_def)
  from open_and_run [OF assms(1-6) this assms(7)] obtain t ms s' where r: "open_transfer a u s = Some (1, t)" "state_is_valid 1 (xb t)"
      "blockwise_transfer env 1 pks t = Some (ms, s')" "used_upto 1 s'" "\<forall>j. j \<noteq> 1 \<longrightarrow> bw_sd (xb s') ! j = bw_sd (xb s) ! j"
    by blast
  then have "\<not> state_is_valid 1 (xb s')" by (simp add: used_upto_def)
  with r show ?thesis by (simp add: test_inner_def assert_slot_def)
qed

lemma test_loop_rest: "3 \<le> count \<Longrightarrow> test_loop env a u i inner count pks s = map_option snd (blockwise_transfer env i pks s)"
proof (induction pks arbitrary: count s)
  case Nil
  then show ?case by (auto simp: next_item_def split: poll.splits option.splits prod.splits)
next
  case (Cons pk pks)
  show ?case
  proof (cases "blockwise_round env i pk s")
    case None
    then show ?thesis by simp
  next
    case (Some r)
    with Cons show ?thesis
      by (cases r; cases "blockwise_transfer env i pks (snd r)") auto
  qed
qed

lemma test_nested_passes:
  assumes env: "client_env env" and name: "\<forall>log. name2ep env log zero_ep a = (0, ep)"
    and lens: "c_string REQ_ADDR_MAX a" "c_string REQ_URI_MAX u" "u \<noteq> []"
    and used: "used_upto 0 s" and outer: "block_sequence env u outer" "3 < length outer" and inner: "block_sequence env u inner"
  shows "\<exists>s'. test_nested env a u outer inner s = Some s' \<and> used_upto 0 s'"
proof -
  from outer(2) have "Suc (Suc (Suc (Suc 0))) \<le> length outer" by simp
  then obtain p1 p2 p3 p4 ps where ps: "outer = p1 # p2 # p3 # p4 # ps"
    by (auto simp: Suc_le_length_iff)
  with outer(1) have more: "more_block env u p1" "more_block env u p2" "more_block env u p3" "block_sequence env u (p4 # ps)"
    by simp_all
  from open_at [OF lens(1,2) used, of env] obtain t where t: "open_transfer a u s = Some (0, t)" "used_upto 1 t"
      "pending_request env 0 a u t" by (auto simp: BLOCKWISE_STATES_MAX_def)
  note next1 = round_next [OF env name lens t(3) more(1)]
  then obtain s1 where s1: "blockwise_round env 0 p1 t = Some (MResp (delivered p1 (pk_buf p1)), s1)" "pending_request env 0 a u s1"
      "\<forall>j. state_is_valid j (xb s1) = state_is_valid j (xb t)" by blast
  note next2 = round_next [OF env name lens s1(2) more(2)]
  then obtain s2 where s2: "blockwise_round env 0 p2 s1 = Some (MResp (delivered p2 (pk_buf p2)), s2)" "pending_request env 0 a u s2"
      "\<forall>j. state_is_valid j (xb s2) = state_is_valid j (xb s1)" by blast
  note next3 = round_next [OF env name lens s2(2) more(3)]
  then obtain s3 h where s3: "blockwise_round env 0 p3 s2 = Some (MResp (delivered p3 (pk_buf p3)), s3)" "pending_request env 0 a u s3"
      "bw_sd (xb s3) ! 0 = [Some \<lparr>rq_addr = a, rq_uri = u, rq_idx = 0, rq_hdr = Some h\<rparr>]"
      "\<forall>j. state_is_valid j (xb s3) = state_is_valid j (xb s2)" by blast
  have u3: "used_upto 1 s3" using t(2) s1(3) s2(3) s3(4) pending_ok [OF s3(2)] by (simp add: used_upto_def)
  from test_inner_passes [OF env name lens u3 inner] obtain s4 where s4: "test_inner env a u inner s3 = Some s4" "used_upto 1 s4"
      "\<forall>j. j \<noteq> 1 \<longrightarrow> bw_sd (xb s4) ! j = bw_sd (xb s3) ! j" by blast
  have "pending_request env 0 a u s4"
    using s3(2,3) s4(3) used_uptoD [OF s4(2)] by (simp add: pending_request_def hdr_fits_def)
  from transfer_pending [OF env name lens this more(4)] obtain ms s5 where
      s5: "blockwise_transfer env 0 (p4 # ps) s4 = Some (ms, s5)" "bw_ok (xb s5)"
        "\<forall>j. state_is_valid j (xb s5) \<longleftrightarrow> state_is_valid j (xb s4) \<and> j \<noteq> 0" by blast
  have "used_upto 0 s5" using s4(2) [unfolded One_nat_def] s5(2,3) by (rule used_upto_less)
  moreover have "test_loop env a u 0 inner 0 outer t = Some s5"
  proof -
    have "test_loop env a u 0 inner 3 (p4 # ps) s4 = Some s5" using s5(1) by (subst test_loop_rest) simp_all
    with s1(1) s2(1) s3(1) s4(1) show ?thesis unfolding ps
      by (simp del: test_loop.simps add: test_loop.simps(2) [of _ _ _ _ _ _ p1] test_loop.simps(2) [of _ _ _ _ _ _ p2]
          test_loop.simps(2) [of _ _ _ _ _ _ p3] numeral_3_eq_3)
  qed
  moreover have "state_is_valid 0 (xb t)" "\<not> state_is_valid 0 (xb s5)" using t(2) \<open>used_upto 0 s5\<close> by (simp_all add: used_upto_def)
  ultimately show ?thesis using t(1) by (simp add: test_nested_def assert_slot_def)
qed

lemma test_closed_passes:
  assumes env: "client_env env" and name: "\<forall>log. name2ep env log zero_ep a = (0, ep)"
    and lens: "c_string REQ_ADDR_MAX a" "c_string REQ_URI_MAX u" and used: "used_upto 0 s"
    and resp: "get_block2 env pk = None" "payload_ok pk" "final_memo state" "memo_result state pk = expected"
  shows "\<exists>s'. test_closed env expected a u (state, pk) s = Some s' \<and> used_upto 0 s'"
proof -
  have "0 < BLOCKWISE_STATES_MAX" by (simp add: BLOCKWISE_STATES_MAX_def)
  from open_at [OF lens used this, of env] obtain t where t: "open_transfer a u s = Some (0, t)" "used_upto (Suc 0) t"
      "pending_request env 0 a u t" by blast
  from await_other [OF env name lens t(3) resp(1-3)] obtain req t1 t2 where a: "next_item 0 t = Some (Some req, t1)"
      "await_req env (BlockwiseGet req) state pk t1 = Some (memo_result state pk, t2)" "bw_ok (xb t2)"
      "\<forall>j. state_is_valid j (xb t2) = state_is_valid j (xb t)" by blast
  have v: "state_is_valid 0 (xb t2)" using a(4) used_uptoD(2) [OF t(2)] by simp
  from close_at [OF a(3) v] obtain t3 where c: "close_transfer 0 t2 = Some t3" "bw_ok (xb t3)"
      "\<forall>j. state_is_valid j (xb t3) \<longleftrightarrow> state_is_valid j (xb t2) \<and> j \<noteq> 0" "bw_sd (xb t3) = (bw_sd (xb t2))[0 := [None]]" by blast
  have "0 < length (bw_sd (xb t2))" using a(3) by (simp add: bw_ok_def BLOCKWISE_STATES_MAX_def)
  then have "bw_sd (xb t3) ! 0 = [None]" by (simp add: c(4))
  note e = next_end [OF this]
  let ?s = "t3\<lparr>xb := (xb t3)\<lparr>bw_sd := (bw_sd (xb t3))[0 := []]\<rparr>\<rparr>"
  have "bw_ok (xb ?s)" using bw_ok_sd [OF c(2)] by simp
  moreover have "\<forall>j. state_is_valid j (xb ?s) \<longleftrightarrow> state_is_valid j (xb t) \<and> j \<noteq> 0" using a(4) c(3) by simp
  ultimately have "used_upto 0 ?s" using used_upto_less [OF t(2)] by blast
  with t(1) a(1,2) c(1) e resp(4) show ?thesis by (simp add: test_closed_def)
qed

lemma test_close_passes:
  assumes env: "client_env env" and name: "\<forall>log. name2ep env log zero_ep a = (0, ep)"
    and lens: "c_string REQ_ADDR_MAX a" "c_string REQ_URI_MAX u" "u \<noteq> []" and used: "used_upto 0 s"
    and pk: "more_block env u pk" "0 < pk_payload_len pk"
  shows "\<exists>s'. test_close env a u pk s = Some s' \<and> used_upto 0 s'"
proof -
  let ?N = BLOCKWISE_STATES_MAX and ?all = "[0..<BLOCKWISE_STATES_MAX]"
  have N: "?N = 4" by (rule BLOCKWISE_STATES_MAX_def)
  from open_all [OF lens(1,2) used, of ?N env] obtain s1 where s1: "open_transfers ?N a u s = Some (?all, s1)"
      "used_upto ?N s1" "\<forall>j < ?N. pending_request env j a u s1" by auto
  note u1 = used_uptoD [OF s1(2)]
  have "alloc_slot (xb s1) = None" using bw.alloc_full [OF u1(1)] u1(2) by blast
  then have full: "gcoap_get_blockwise a u s1 = Some (Inl StateNotAvailable, s1)"
    by (simp add: gcoap_get_blockwise_def send_blockwise_new_def)
  define s2 where "s2 = s1\<lparr>xb := (xb s1)\<lparr>bw_sd := (bw_sd (xb s1))[0 := []]\<rparr>\<rparr>"
  define s3 where "s3 = s2\<lparr>xb := (xb s2)\<lparr>bw_sd := (bw_sd (xb s2))[1 := []]\<rparr>\<rparr>"
  define w where "w = s1\<lparr>xb := (xb s1)\<lparr>bw_sd := (bw_sd (xb s1))[1 := []]\<rparr>\<rparr>"
  have p: "pending_request env 0 a u s1" "pending_request env 1 a u s1" using s1(3) N by simp_all
  have ok2: "bw_ok (xb s2)" "bw_ok (xb w)" using bw_ok_sd [OF u1(1)] by (simp_all add: s2_def w_def)
  from next_pending [OF p(1)] obtain req0 where r0: "bw_sd (xb s1) ! 0 = [Some req0]"
      "next_item 0 s1 = Some (Some req0, s2)" by (auto simp: s2_def)
  have "pending_request env 1 a u s2"
    using p(2) by (rule pending_kept) (use ok2 u1(2) N in \<open>simp_all add: s2_def\<close>)
  from next_pending [OF this] obtain req1 where r1: "next_item 1 s2 = Some (Some req1, s3)" "rq_idx req1 = 1"
    by (auto simp: s3_def)
  have pw: "pending_request env 0 a u w"
    using p(1) by (rule pending_kept) (use ok2 u1(2) N in \<open>simp_all add: w_def\<close>)
  have "next_item 0 w = Some (Some req0, s3)"
    using r0(1) by (simp add: next_item_def bs_poll_next_def xs_poll_next_def w_def s2_def s3_def list_update_swap)
  note aw = round_await [OF _ this]
  from round_next [OF env name lens pw pk(1)] obtain s4 where
      s4: "blockwise_round env 0 pk w = Some (MResp (delivered pk (pk_buf pk)), s4)" "pending_request env 0 a u s4"
        "\<forall>j. state_is_valid j (xb s4) = state_is_valid j (xb w)" by blast
  have full_payload: "has_payload (MResp (delivered pk (pk_buf pk)))"
    using pk by (simp add: has_payload_def delivered_def more_block_def payload_ok_def)
  have "\<forall>i \<in> set ?all. state_is_valid i (xb s4)" using s4(3) u1(2) by (simp add: w_def)
  from close_all [OF pending_ok [OF s4(2)] this] obtain s5 where s5: "close_transfers ?all s4 = Some s5" "bw_ok (xb s5)"
      "\<forall>j. state_is_valid j (xb s5) \<longleftrightarrow> state_is_valid j (xb s4) \<and> j \<notin> set ?all" "\<forall>i \<in> set ?all. bw_sd (xb s5) ! i = [None]"
    by auto
  have none: "\<not> state_is_valid j (xb s5)" for j using s5(3) s4(3) u1(2) by (simp add: w_def)
  define s6 where "s6 = s5\<lparr>xb := (xb s5)\<lparr>bw_sd := (bw_sd (xb s5))[0 := []]\<rparr>\<rparr>"
  define s7 where "s7 = s6\<lparr>xb := (xb s6)\<lparr>bw_sd := (bw_sd (xb s6))[1 := []]\<rparr>\<rparr>"
  have e0: "next_item 0 s5 = Some (None, s6)" unfolding s6_def using s5(4) N by (intro next_end) simp
  have e1: "next_item 1 s6 = Some (None, s7)" unfolding s7_def using s5(4) N by (intro next_end) (simp add: s6_def)
  have "\<not> state_is_valid (rq_idx req1) (xb s7)" using none by (simp add: s7_def s6_def)
  from await_closed [OF this] obtain s8 where s8: "await_req env (BlockwiseGet req1) GCOAP_MEMO_RESP pk s7 = Some (MErr, s8)"
      "xb s8 = (xb s7)\<lparr>bw_last := None\<rparr>" by blast
  have "bw_ok (xb s7)" unfolding s7_def s6_def using bw_ok_sd [OF bw_ok_sd [OF s5(2)]] by simp
  then have "used_upto 0 s8" using none s8(2) by (simp add: used_upto_def s7_def s6_def)
  moreover have "?all ! 0 = 0" "?all ! 1 = 1" using N by simp_all
  moreover have "list_all (\<lambda>i. \<not> state_is_valid i (xb s5)) ?all" using none by (simp add: list_all_iff)
  ultimately show ?thesis
    using s1(1) full r0(2) r1(1) aw [OF s4(1)] full_payload s5(1) e0 e1 s8(1) by (simp add: test_close_def)
qed

definition net_ok :: "gcoap_env \<Rightarrow> test_net \<Rightarrow> bool" where
  "net_ok env net \<longleftrightarrow>
     (\<forall>pk \<in> {tn_stats1 net, tn_stats2 net, tn_timeout net, tn_none net}. get_block2 env pk = None \<and> payload_ok pk) \<and>
     (\<forall>pks \<in> {tn_outer net, tn_inner net, tn_third net}. block_sequence env ''/const/song.txt'' pks) \<and>
     3 < length (tn_outer net) \<and> more_block env ''/const/song.txt'' (tn_close net) \<and> 0 < pk_payload_len (tn_close net) \<and>
     pk_payload_len (tn_none net) = 0"

lemma test_blockwise_passes:
  assumes env: "client_env env" and self: "\<forall>log. name2ep env log zero_ep ''[::1]:5683'' = (0, ep)"
    and other: "\<forall>log. name2ep env log zero_ep ''[::1]:5680'' = (0, ep')" and u0: "used_upto 0 s" and net: "net_ok env net"
  shows "\<exists>s'. test_blockwise env net ''[::1]:5683'' s = Some s' \<and> used_upto 0 s'"
proof -
  have c: "c_string REQ_ADDR_MAX ''[::1]:5683''" "c_string REQ_ADDR_MAX ''[::1]:5680''"
    "c_string REQ_URI_MAX ''/cli/stats''" "c_string REQ_URI_MAX ''/const/song.txt''" "c_string REQ_URI_MAX ''/const/song2.txt''"
    "''/const/song.txt'' \<noteq> []"
    by (simp_all add: c_string_def REQ_ADDR_MAX_def REQ_URI_MAX_def)
  have l: "3 < length (tn_outer net)" "more_block env ''/const/song.txt'' (tn_close net)" "0 < pk_payload_len (tn_close net)"
    "pk_payload_len (tn_none net) = 0" using net by (simp_all add: net_ok_def)
  have r: "get_block2 env (tn_stats1 net) = None" "payload_ok (tn_stats1 net)" "get_block2 env (tn_stats2 net) = None"
    "payload_ok (tn_stats2 net)" "get_block2 env (tn_timeout net) = None" "payload_ok (tn_timeout net)"
    "get_block2 env (tn_none net) = None" "payload_ok (tn_none net)"
    and b: "block_sequence env ''/const/song.txt'' (tn_outer net)" "block_sequence env ''/const/song.txt'' (tn_inner net)"
    "block_sequence env ''/const/song.txt'' (tn_third net)"
    using net by (auto simp: net_ok_def)
  have m: "memo_result GCOAP_MEMO_TIMEOUT (tn_timeout net) = MTimeout" "memo_result GCOAP_MEMO_RESP (tn_none net) = MResp None"
    "final_memo GCOAP_MEMO_TIMEOUT" "final_memo GCOAP_MEMO_RESP"
    using l(4) by (simp_all add: memo_result_def delivered_def)
  from test_get_passes [OF env self c(1,3) r(1,2)] obtain s1 where
      s1: "test_get env ''[::1]:5683'' ''/cli/stats'' (tn_stats1 net) s = Some s1" "xb s1 = xb s" by blast
  from test_get_passes [OF env self c(1,3) r(3,4)] obtain s2 where
      s2: "test_get env ''[::1]:5683'' ''/cli/stats'' (tn_stats2 net) s1 = Some s2" "xb s2 = xb s1" by blast
  have u2: "used_upto 0 s2" using u0 s1(2) s2(2) by (simp add: used_upto_def)
  from test_nested_passes [OF env self c(1,4,6) u2 b(1) l(1) b(2)] obtain s3 where
      s3: "test_nested env ''[::1]:5683'' ''/const/song.txt'' (tn_outer net) (tn_inner net) s2 = Some s3" "used_upto 0 s3" by blast
  from test_again_passes [OF env self c(1,4,6) s3(2) b(3)] obtain s4 where
      s4: "test_again env ''[::1]:5683'' ''/const/song.txt'' (tn_third net) s3 = Some s4" "used_upto 0 s4" by blast
  from test_close_passes [OF env self c(1,4,6) s4(2) l(2,3)] obtain s5 where
      s5: "test_close env ''[::1]:5683'' ''/const/song.txt'' (tn_close net) s4 = Some s5" "used_upto 0 s5" by blast
  from test_closed_passes [OF env other c(2,4) s5(2) r(5,6) m(3,1)] obtain s6 where
      s6: "test_closed env MTimeout ''[::1]:5680'' ''/const/song.txt'' (GCOAP_MEMO_TIMEOUT, tn_timeout net) s5 = Some s6"
        "used_upto 0 s6" by blast
  from test_closed_passes [OF env self c(1,5) s6(2) r(7,8) m(4,2)] obtain s7 where
      s7: "test_closed env (MResp None) ''[::1]:5683'' ''/const/song2.txt'' (GCOAP_MEMO_RESP, tn_none net) s6 = Some s7"
        "used_upto 0 s7" by blast
  show ?thesis unfolding test_blockwise_def Let_def s1(1) s2(1) s3(1) s4(1) s5(1) s6(1) s7(1) bind.bind_lunit
    using s7(2) by simp
qed

section \<open>Properties\<close>

text \<open>
  C5: The blockwise self-test passes. On any idle client, if the two addresses resolve, the plain
  requests are answered without a Block2 option, the three transfers are answered in blocks, the
  outer one by at least four, the closed one gets a first block with a payload, and the last two
  requests time out and get an empty response, then \<^verbatim>\<open>test_blockwise\<close> returns: none of its assertions
  fails and nothing panics, although a second transfer runs to its end inside of the first, and
  four transfers are closed with requests under way. It leaves every slot free.
\<close>

theorem self_test_passes:
  assumes "client_env env" and "\<forall>log. name2ep env log zero_ep ''[::1]:5683'' = (0, ep)"
    and "\<forall>log. name2ep env log zero_ep ''[::1]:5680'' = (0, ep')"
    and "bw_ok (xb s)" and "\<forall>j. \<not> state_is_valid j (xb s)"
    and "\<forall>pk \<in> {tn_stats1 net, tn_stats2 net, tn_timeout net, tn_none net}. get_block2 env pk = None \<and> payload_ok pk"
    and "\<forall>pks \<in> {tn_outer net, tn_inner net, tn_third net}. block_sequence env ''/const/song.txt'' pks"
    and "3 < length (tn_outer net)"
    and "more_block env ''/const/song.txt'' (tn_close net)" and "0 < pk_payload_len (tn_close net)"
    and "pk_payload_len (tn_none net) = 0"
  shows "\<exists>s'. test_blockwise env net ''[::1]:5683'' s = Some s' \<and> bw_ok (xb s') \<and> (\<forall>j. \<not> state_is_valid j (xb s'))"
  using test_blockwise_passes [OF assms(1-3), of s net] assms(4-11) by (auto simp: used_upto_def net_ok_def)

definition net_demo :: test_net where
  "net_demo = \<lparr>tn_stats1 = plain_demo, tn_stats2 = plain_demo,
     tn_outer = [demo_block 0 True, demo_block 1 True, demo_block 2 True, demo_block 3 False],
     tn_inner = [demo_block 0 True, demo_block 1 False], tn_third = [demo_block 0 False],
     tn_close = demo_block 0 True, tn_timeout = plain_demo, tn_none = plain_demo\<lparr>pk_payload_len := 0\<rparr>\<rparr>"

theorem self_test_passes_witness:
  "\<exists>s'. test_blockwise gcoap_demo net_demo ''[::1]:5683'' xbd_start = Some s' \<and> (\<forall>j. \<not> state_is_valid j (xb s'))"
proof -
  have s: "bw_ok (xb xbd_start)" "\<forall>j. \<not> state_is_valid j (xb xbd_start)"
    by (simp_all add: xbd_start_def bw_ok_init) (simp add: state_is_valid_def bw_state_def bw_init_def bw_sizes)
  have p: "\<forall>pk \<in> {tn_stats1 net_demo, tn_stats2 net_demo, tn_timeout net_demo, tn_none net_demo}.
      get_block2 gcoap_demo pk = None \<and> payload_ok pk"
    using plain_demo_simps by (simp add: net_demo_def) (simp add: gcoap_demo_def plain_demo_def payload_ok_def demo_block_def)
  have b: "\<forall>pks \<in> {tn_outer net_demo, tn_inner net_demo, tn_third net_demo}. block_sequence gcoap_demo ''/const/song.txt'' pks"
    by (simp add: net_demo_def demo_more_block demo_final_block)
  have l: "3 < length (tn_outer net_demo)" "more_block gcoap_demo ''/const/song.txt'' (tn_close net_demo)"
    "0 < pk_payload_len (tn_close net_demo)" "pk_payload_len (tn_none net_demo) = 0"
    by (simp_all add: net_demo_def demo_more_block demo_block_simps)
  from self_test_passes [OF demo_client_env demo_name demo_name s p b l] show ?thesis by blast
qed

end
