(* ===== verification/Shell_Tests.thy ===== *)
theory Shell_Tests
  imports Xbd_Loopback Self_Test Async_Shell
begin

text \<open>
  The function aliases of the shell in \<^verbatim>\<open>examples/xbd-net\<close>, \<^verbatim>\<open>src/xbd/shell.rs\<close>: typed at the terminal, they
  run asynchronous tests within the shell task. The requests of \<^verbatim>\<open>test_heapless_req\<close> go through the
  node of \<^verbatim>\<open>Xbd_Loopback\<close>, the blocks of the transfers are arguments as in \<^verbatim>\<open>Self_Test\<close>, and sleeping
  sets a timer of \<^verbatim>\<open>Xbd_Events\<close>. What the tests print is their result; a panic is \<^const>\<open>None\<close>. The
  tests share the world of the shell task: the node, the timers and the state of the libcoap client.
\<close>

section \<open>Sleeping\<close>

definition Timeout_new :: "u32 \<Rightarrow> nat option \<Rightarrow> timeout_fut" where
  "Timeout_new msec cb = \<lparr>to_msec = msec, to_cb = cb, to_waker = True\<rparr>"

definition async_sleep :: "u32 \<Rightarrow> timeout_fut" where
  "async_sleep msec = Timeout_new msec None"

definition async_set_timeout :: "u32 \<Rightarrow> nat \<Rightarrow> timeout_fut" where
  "async_set_timeout msec cb = Timeout_new msec (Some cb)"

text \<open>
  \<^verbatim>\<open>timeout.await\<close>: the timer expires, the task of the callbacks calls \<open>wake\<close>, the closure that wakes the
  awaiting task, and the second poll is ready. The closure of the timeout, if it has one, is called there.
\<close>

definition await_timeout :: "nat \<Rightarrow> timeout_fut \<Rightarrow> timers \<Rightarrow> (nat option \<times> timers) option" where
  "await_timeout wake f s =
     do {
       (r, cb, f, t) \<leftarrow> timeout_poll True wake f s;
       case r of
         Ready _ \<Rightarrow> Some (cb, t)
       | Pending \<Rightarrow> do {
           t \<leftarrow> run_steps timer_step [Fire (fresh s), Process] t;
           (r, cb, f, t) \<leftarrow> timeout_poll True wake f t;
           case r of Ready _ \<Rightarrow> Some (cb, t) | Pending \<Rightarrow> None
         }
     }"

section \<open>The tests\<close>

datatype shell_out = Say string | Result gmemo_state

record shell_world =
  sw_node :: node
  sw_timers :: timers
  sw_lc :: lc_state

definition call_node ::
  "gcoap_env \<Rightarrow> fileserver \<Rightarrow> wire \<Rightarrow> req option \<Rightarrow> node \<Rightarrow> (gmemo_state \<times> node) option" where
  "call_node env fs w r s = r \<bind> (\<lambda>req. await_node env fs w 2 req s)"

definition test_async_sleep :: "nat \<Rightarrow> timers \<Rightarrow> (shell_out list \<times> timers) option" where
  "test_async_sleep wake s =
     do { (_, s) \<leftarrow> await_timeout wake (async_sleep 2000) s;
          Some ([Say ''test_async_sleep(): ^^'', Say ''test_async_sleep(): $$''], s) }"

definition test_blockwise_all :: "gcoap_env \<Rightarrow> test_net \<Rightarrow> xbd_app \<Rightarrow> (shell_out list \<times> xbd_app) option" where
  "test_blockwise_all env net s =
     do { s \<leftarrow> test_blockwise env net ''[::1]:5683'' s;
          Some ([Say ''test_blockwise_all(): ^^'', Say ''test_blockwise_all(): $$''], s) }"

definition test_async_blockwise :: "gcoap_env \<Rightarrow> coap_pkt list \<Rightarrow> xbd_app \<Rightarrow> (shell_out list \<times> xbd_app) option" where
  "test_async_blockwise env pks s =
     do {
       (i, s) \<leftarrow> open_transfer ''[::1]:5683'' ''/const/song.txt'' s;
       (ms, s) \<leftarrow> blockwise_transfer env i pks s;
       Some ([Say ''test_async_blockwise(): ^^''] @ map Result ms @ [Say ''test_async_blockwise(): $$''], s)
     }"

definition test_heapless_req :: "gcoap_env \<Rightarrow> fileserver \<Rightarrow> wire \<Rightarrow> node \<Rightarrow> (shell_out list \<times> node) option" where
  "test_heapless_req env fs w s =
     (let addr_self = ''[::1]:5683'' in
      do {
        (m0, s) \<leftarrow> call_node env fs w (gcoap_get ''[::1]'' ''/.well-known/core'') s;
        (m1, s) \<leftarrow> call_node env fs w (gcoap_get ''[::1]'' ''/cli/stats'') s;
        (_, s) \<leftarrow> call_node env fs w (gcoap_post addr_self ''/cli/stats'' (bytes_of ''3000'')) s;
        (m2, s) \<leftarrow> call_node env fs w (gcoap_get addr_self ''/cli/stats'') s;
        (_, s) \<leftarrow> call_node env fs w (gcoap_put addr_self ''/cli/stats'' (bytes_of ''1000'')) s;
        (m3, s) \<leftarrow> call_node env fs w (gcoap_get addr_self ''/cli/stats'') s;
        Some ([Say ''test_heapless_req(): ^^'', Say ''-------- out-0:'', Result m0, Say ''-------- out-1:'', Result m1,
          Say ''-------- out-2:'', Result m2, Say ''-------- out-3:'', Result m3, Say ''test_heapless_req(): $$''], s)
      })"

section \<open>The aliases\<close>

text \<open>
  What the network answers while a line runs: the blocks for the transfers of an alias, and what libcoap
  gets; and the closure that wakes the shell task.
\<close>

record alias_net =
  an_song :: "coap_pkt list"
  an_test :: test_net
  an_wake :: nat
  an_lc :: lc_env

definition on_app :: "(xbd_app \<Rightarrow> (shell_out list \<times> xbd_app) option) \<Rightarrow> shell_world \<Rightarrow> (shell_out list \<times> shell_world) option" where
  "on_app f sw = map_option (\<lambda>(out, x). (out, sw\<lparr>sw_node := (sw_node sw)\<lparr>nd_app := x\<rparr>\<rparr>)) (f (nd_app (sw_node sw)))"

fun run_alias :: "gcoap_env \<Rightarrow> fileserver \<Rightarrow> wire \<Rightarrow> alias_net \<Rightarrow> alias_fn \<Rightarrow> shell_world \<Rightarrow> (shell_out list \<times> shell_world) option" where
  "run_alias env fs w net Test_heapless_req sw =
     map_option (\<lambda>(out, s). (out, sw\<lparr>sw_node := s\<rparr>)) (test_heapless_req env fs w (sw_node sw))"
| "run_alias env fs w net Test_blockwise_all sw = on_app (test_blockwise_all env (an_test net)) sw"
| "run_alias env fs w net Hello_world sw = Some ([Say ''hello world!''], sw)"
| "run_alias env fs w net Test_async_sleep sw =
     map_option (\<lambda>(out, s). (out, sw\<lparr>sw_timers := s\<rparr>)) (test_async_sleep (an_wake net) (sw_timers sw))"
| "run_alias env fs w net Test_async_blockwise sw = on_app (test_async_blockwise env (an_song net)) sw"
| "run_alias env fs w net Test_blockwise sw =
     on_app (\<lambda>x. map_option (Pair []) (test_blockwise env (an_test net) ''[::1]:5683'' x)) sw"
| "run_alias env fs w net (Undefined_alias name) sw = Some ([Say (''function alias ['' @ name @ ''] is not defined!'')], sw)"

definition print_aliases :: "string list" where
  "print_aliases =
     [''---- named alias ----''] @ map (\<lambda>(name, cmd). ''['' @ name @ ''] '' @ cmd) ARRAY_ALIAS_NAMED @
     [''---- function alias ----''] @ map (\<lambda>name. ''['' @ name @ ''] <function>'') ARRAY_ALIAS_FUNCTION @
     [''---- enumerated alias ----''] @ map (\<lambda>(idx, cmd). ''['' @ dec idx @ ''] '' @ cmd) (enumerate 0 ARRAY_ALIAS_ENUMERATED)"

section \<open>Lemmas\<close>

text \<open>A timeout is over when its own timer has fired, and leaves the timers as they were.\<close>

lemma await_timeout_returns:
  assumes "timers_ok s" and "api_sd s = []" and f: "to_waker f"
  shows "\<exists>t. await_timeout wake f s = Some (to_cb f, t) \<and> timers_ok t \<and> api_sd t = [] \<and> armed t = armed s \<and>
     called t = called s @ [wake]"
proof -
  let ?n = "fresh s"
  obtain s1 where s1: "set_timeout True (to_msec f) wake s = Some s1" by (simp add: set_timeout_eq)
  have ok1: "timers_ok s1" using set_timeout_ok [OF assms(1) s1] .
  have a1: "armed s1 = armed s @ [?n]" "api_sd s1 = []" "closures s1 ?n = Some wake" "called s1 = called s"
    using s1 assms(2) by (auto simp: set_timeout_eq)
  have n: "?n \<notin> set (armed s)" using assms(1) by (auto simp: timers_ok_def)
  let ?s2 = "s1\<lparr>armed := remove1 ?n (armed s1), api_sd := api_sd s1 @ [?n]\<rparr>"
  have s2: "fire ?n s1 = Some ?s2" using fire_eq [OF ok1, of ?n] a1 by simp
  have "api_sd ?s2 = ?n # []" using a1 by simp
  from process_api_eq [OF fire_ok [OF ok1 s2] this] obtain s3 where
      s3: "process_api ?s2 = Some s3" "api_sd s3 = []" "armed s3 = remove1 ?n (armed s1)" "called s3 = called s1 @ [wake]"
    using a1 by auto
  have "timers_ok s3" using process_api_ok [OF fire_ok [OF ok1 s2]] s3(1) by simp
  moreover have "await_timeout wake f s = Some (to_cb f, s3)"
    using f s1 s2 s3(1) by (simp add: await_timeout_def timeout_poll_def)
  ultimately show ?thesis using s3 a1 n by (intro exI [of _ s3]) (simp add: remove1_append remove1_idem)
qed

text \<open>The requests of \<^verbatim>\<open>test_heapless_req\<close>.\<close>

lemma call_node_self:
  assumes "node_env env w a" and "call_ok c" and "idle s" and "r = self_req a c"
  shows "\<exists>s'. call_node env fs w r s = Some (fst (service c (req_count (xg (nd_app s)))), s') \<and> idle s' \<and>
     req_count (xg (nd_app s')) = snd (service c (req_count (xg (nd_app s)))) \<and> xb (nd_app s') = xb (nd_app s)"
  using self_call_exchange [OF assms(1-3), of fs] assms(4) by (auto simp: call_node_def)

definition core_ok :: "gcoap_env \<Rightarrow> wire \<Rightarrow> coap_pkt \<Rightarrow> bool" where
  "core_ok env w core \<longleftrightarrow> get_block2 env core = None \<and> payload_ok core \<and>
     (\<forall>log n pk. plain_packet env METHOD_GET ''/.well-known/core'' False log = (n, pk) \<longrightarrow>
        (\<exists>m. w_dispatch w (take (nat n) (pk_buf pk)) = Inl (Some m) \<and> w_response w m = core))"

lemma call_node_core:
  assumes env: "node_env env w a" and core: "core_ok env w core" and s: "idle s"
  shows "\<exists>s'. call_node env fs w (gcoap_get a ''/.well-known/core'') s = Some (memo_result GCOAP_MEMO_RESP core, s') \<and>
     idle s' \<and> req_count (xg (nd_app s')) = req_count (xg (nd_app s)) + 1 \<and> xb (nd_app s') = xb (nd_app s)"
proof -
  have u: "c_string REQ_URI_MAX ''/.well-known/core''" by (simp add: c_string_def REQ_URI_MAX_def)
  have g: "METHOD_GET \<in> {METHOD_GET, METHOD_POST, METHOD_PUT}" "length [] \<le> PAYLOAD_REQ_MAX" "METHOD_GET = METHOD_GET \<longrightarrow> [] = []"
    by simp_all
  have "client_env env" using env by (simp add: node_env_def)
  note fits = get_fits [OF this]
  have serve: "\<exists>p. served env fs w (take (nat n) (pk_buf pk)) (req_count (xg (nd_app s)) + 1) p (req_count (xg (nd_app s)) + 1) \<and>
      get_block2 env p = None \<and> payload_ok p \<and> memo_result GCOAP_MEMO_RESP p = memo_result GCOAP_MEMO_RESP core"
    if "plain_packet env METHOD_GET ''/.well-known/core'' False (g_log (xg (nd_app s))) = (n, pk)" for n pk
  proof -
    from core that obtain m where "w_dispatch w (take (nat n) (pk_buf pk)) = Inl (Some m)" "w_response w m = core"
      unfolding core_ok_def by blast
    from served_library [OF this] core show ?thesis unfolding core_ok_def by blast
  qed
  from node_request [OF env s u g, of fs "req_count (xg (nd_app s)) + 1" "memo_result GCOAP_MEMO_RESP core"] fits serve
  obtain req s' where "gcoap_call METHOD_GET a ''/.well-known/core'' [] = Some req"
      "await_node env fs w 2 req s = Some (memo_result GCOAP_MEMO_RESP core, s')" "idle s'"
      "req_count (xg (nd_app s')) = req_count (xg (nd_app s)) + 1" "xb (nd_app s') = xb (nd_app s)" by auto
  then show ?thesis by (auto simp: gcoap_call_def call_node_def)
qed

definition heapless_results :: "coap_pkt \<Rightarrow> u16 \<Rightarrow> gmemo_state list" where
  "heapless_results core c = [memo_result GCOAP_MEMO_RESP core, MResp (Some (bytes_of (dec (unat (c + 2))))),
     MResp (Some (bytes_of ''3001'')), MResp (Some (bytes_of ''1001''))]"

definition results :: "shell_out list \<Rightarrow> gmemo_state list" where
  "results out = concat (map (\<lambda>x. case x of Result m \<Rightarrow> [m] | Say _ \<Rightarrow> []) out)"

lemma results_simps [simp]:
  "results [] = []" "results (Result m # out) = m # results out" "results (Say t # out) = results out"
  "results (xs @ ys) = results xs @ results ys" "results (map Result ms) = ms"
  by (simp_all add: results_def o_def)

lemma test_heapless_req_results:
  assumes env: "node_env env w ''[::1]''" "node_env env w ''[::1]:5683''" and core: "core_ok env w core" and s: "idle s"
  shows "\<exists>out s'. test_heapless_req env fs w s = Some (out, s') \<and> idle s' \<and> xb (nd_app s') = xb (nd_app s) \<and>
     results out = heapless_results core (req_count (xg (nd_app s))) \<and> req_count (xg (nd_app s')) = 1001"
proof -
  let ?c = "req_count (xg (nd_app s))"
  have d: "dec 3000 = ''3000''" "dec 1000 = ''1000''" "dec 3001 = ''3001''" "dec 1001 = ''1001''" by code_simp+
  have ok: "call_ok Get_stats" "call_ok (Set_stats METHOD_POST 3000)" "call_ok (Set_stats METHOD_PUT 1000)"
    by (simp_all add: call_ok_def)
  from call_node_core [OF env(1) core s] obtain s1 where s1:
      "call_node env fs w (gcoap_get ''[::1]'' ''/.well-known/core'') s = Some (memo_result GCOAP_MEMO_RESP core, s1)" "idle s1"
      "req_count (xg (nd_app s1)) = ?c + 1" "xb (nd_app s1) = xb (nd_app s)" by blast
  from call_node_self [OF env(1) ok(1) s1(2), of _ fs] s1(3) obtain s2 where s2:
      "call_node env fs w (gcoap_get ''[::1]'' ''/cli/stats'') s1 = Some (MResp (Some (bytes_of (dec (unat (?c + 2))))), s2)" "idle s2"
      "xb (nd_app s2) = xb (nd_app s1)" by (auto simp: add.assoc)
  from call_node_self [OF env(2) ok(2) s2(2), of _ fs] d(1) obtain s3 where s3:
      "call_node env fs w (gcoap_post ''[::1]:5683'' ''/cli/stats'' (bytes_of ''3000'')) s2 = Some (MResp None, s3)" "idle s3"
      "req_count (xg (nd_app s3)) = 3000" "xb (nd_app s3) = xb (nd_app s2)" by auto
  from call_node_self [OF env(2) ok(1) s3(2), of _ fs] s3(3) d(3) obtain s4 where s4:
      "call_node env fs w (gcoap_get ''[::1]:5683'' ''/cli/stats'') s3 = Some (MResp (Some (bytes_of ''3001'')), s4)" "idle s4"
      "xb (nd_app s4) = xb (nd_app s3)" by auto
  from call_node_self [OF env(2) ok(3) s4(2), of _ fs] d(2) obtain s5 where s5:
      "call_node env fs w (gcoap_put ''[::1]:5683'' ''/cli/stats'' (bytes_of ''1000'')) s4 = Some (MResp None, s5)" "idle s5"
      "req_count (xg (nd_app s5)) = 1000" "xb (nd_app s5) = xb (nd_app s4)" by auto
  from call_node_self [OF env(2) ok(1) s5(2), of _ fs] s5(3) d(4) obtain s6 where s6:
      "call_node env fs w (gcoap_get ''[::1]:5683'' ''/cli/stats'') s5 = Some (MResp (Some (bytes_of ''1001'')), s6)" "idle s6"
      "req_count (xg (nd_app s6)) = 1001" "xb (nd_app s6) = xb (nd_app s5)" by auto
  show ?thesis
    using s1(1,4) s2(1,3) s3(1,4) s4(1,3) s5(1,4) s6
    by (simp add: test_heapless_req_def Let_def heapless_results_def)
qed

text \<open>The world between two lines: nothing is waiting, no transfer is open, and no timer has fired unnoticed.\<close>

definition world_ok :: "shell_world \<Rightarrow> bool" where
  "world_ok sw \<longleftrightarrow> idle (sw_node sw) \<and> used_upto 0 (nd_app (sw_node sw)) \<and> timers_ok (sw_timers sw) \<and> api_sd (sw_timers sw) = []"

lemma on_app_ok:
  assumes "f (nd_app (sw_node sw)) = Some (out, x)" and "used_upto 0 x" and "world_ok sw"
  shows "\<exists>sw'. on_app f sw = Some (out, sw') \<and> world_ok sw'"
  using assms by (simp add: on_app_def world_ok_def idle_def)

definition alias_env :: "gcoap_env \<Rightarrow> wire \<Rightarrow> coap_pkt \<Rightarrow> bool" where
  "alias_env env w core \<longleftrightarrow> node_env env w ''[::1]'' \<and> node_env env w ''[::1]:5683'' \<and> core_ok env w core \<and>
     (\<exists>ep. \<forall>log. name2ep env log zero_ep ''[::1]:5680'' = (0, ep))"

definition alias_net_ok :: "gcoap_env \<Rightarrow> alias_net \<Rightarrow> bool" where
  "alias_net_ok env net \<longleftrightarrow> net_ok env (an_test net) \<and> block_sequence env ''/const/song.txt'' (an_song net)"

lemma run_alias_returns:
  assumes env: "alias_env env w core" and net: "alias_net_ok env net" and sw: "world_ok sw"
  shows "\<exists>out sw'. run_alias env fs w net f sw = Some (out, sw') \<and> world_ok sw'"
proof -
  from env obtain ep ep' where e: "client_env env" "\<forall>log. name2ep env log zero_ep ''[::1]:5683'' = (0, ep)"
      "\<forall>log. name2ep env log zero_ep ''[::1]:5680'' = (0, ep')" by (auto simp: alias_env_def node_env_def)
  from sw have u: "used_upto 0 (nd_app (sw_node sw))" by (simp add: world_ok_def)
  from net have n: "net_ok env (an_test net)" "block_sequence env ''/const/song.txt'' (an_song net)" by (simp_all add: alias_net_ok_def)
  from test_blockwise_passes [OF e u n(1)] obtain x where
      x: "test_blockwise env (an_test net) ''[::1]:5683'' (nd_app (sw_node sw)) = Some x" "used_upto 0 x" by blast
  show ?thesis
  proof (cases f)
    case Test_heapless_req
    from env have a: "node_env env w ''[::1]''" "node_env env w ''[::1]:5683''" "core_ok env w core" by (simp_all add: alias_env_def)
    have "idle (sw_node sw)" using sw by (simp add: world_ok_def)
    from test_heapless_req_results [OF a this] obtain out s' where
        s': "test_heapless_req env fs w (sw_node sw) = Some (out, s')" "idle s'" "xb (nd_app s') = xb (nd_app (sw_node sw))"
      by blast
    have "used_upto 0 (nd_app s')" using u by (simp add: used_upto_xb [OF s'(3)])
    with sw s'(1,2) Test_heapless_req show ?thesis by (simp add: world_ok_def)
  next
    case Test_blockwise_all
    with on_app_ok [OF _ x(2) sw, of "test_blockwise_all env (an_test net)"] x(1) show ?thesis
      by (auto simp: test_blockwise_all_def)
  next
    case Test_async_sleep
    from await_timeout_returns [of "sw_timers sw" "async_sleep 2000" "an_wake net"] sw obtain t where
        "await_timeout (an_wake net) (async_sleep 2000) (sw_timers sw) = Some (None, t)" "timers_ok t" "api_sd t = []"
      by (auto simp: world_ok_def async_sleep_def Timeout_new_def)
    with sw Test_async_sleep show ?thesis by (simp add: test_async_sleep_def world_ok_def)
  next
    case Test_async_blockwise
    have c: "c_string REQ_ADDR_MAX ''[::1]:5683''" "c_string REQ_URI_MAX ''/const/song.txt''" "''/const/song.txt'' \<noteq> []"
      "0 < BLOCKWISE_STATES_MAX"
      by (simp_all add: c_string_def REQ_ADDR_MAX_def REQ_URI_MAX_def BLOCKWISE_STATES_MAX_def)
    from open_and_run [OF e(1,2) c(1-3) u c(4) n(2)] obtain t ms y where
        "open_transfer ''[::1]:5683'' ''/const/song.txt'' (nd_app (sw_node sw)) = Some (0, t)"
        "blockwise_transfer env 0 (an_song net) t = Some (ms, y)" "used_upto 0 y" by blast
    with on_app_ok [OF _ this(3) sw, of "test_async_blockwise env (an_song net)"] Test_async_blockwise show ?thesis
      by (auto simp: test_async_blockwise_def)
  next
    case Test_blockwise
    with on_app_ok [OF _ x(2) sw, of "\<lambda>x. map_option (Pair []) (test_blockwise env (an_test net) ''[::1]:5683'' x)"] x(1)
    show ?thesis by auto
  qed (use sw in simp_all)
qed

section \<open>An instance\<close>

text \<open>Blocks for the library of \<^verbatim>\<open>Xbd_Loopback\<close>.\<close>

lemma loop_next:
  "length (pk_buf pk) = 128 \<Longrightarrow> next_block_packet loop_demo u pk b log =
     (6, \<lparr>pk_buf = (pk_buf pk)[1 := 1, 2 := path_code (Some u)], pk_payload = 6, pk_payload_len = 122,
       pk_opts = [Block2 (b\<lparr>blknum := blknum b + 1\<rparr>)]\<rparr>)"
  by (simp add: next_block_packet_def demo_finish_def loop_req_init Let_def)

lemma loop_block_simps:
  "pk_opts (demo_block j m) = [Block2 \<lparr>blknum = j, szx = 2, more_blocks = m\<rparr>]"
  by (simp add: demo_block_def)

lemma loop_more_block: "more_block loop_demo u (demo_block j True)"
proof -
  have "drop 6 ((pk_buf (demo_block j True))[1 := 1, 2 := path_code (Some u)]) = drop 6 (pk_buf (demo_block j True))"
    by (simp add: drop_update_cancel)
  then show ?thesis
    by (simp add: more_block_def loop_block_simps demo_block_simps payload_ok_def next_fits_def keeps_payload_def loop_next
        PAYLOAD_OUT_MAX_def BLOCKWISE_HDR_MAX_def)
qed

lemma loop_final_block: "final_block loop_demo (demo_block j False)"
  by (simp add: final_block_def loop_block_simps demo_block_simps payload_ok_def PAYLOAD_OUT_MAX_def)

lemma loop_net_ok: "net_ok loop_demo net_demo"
proof -
  have "get_block2 loop_demo plain_demo = None" "payload_ok plain_demo"
    using plain_demo_simps(2) by (simp_all add: plain_demo_def)
  then show ?thesis
    by (simp add: net_ok_def net_demo_def loop_more_block loop_final_block demo_block_simps payload_ok_def)
qed

definition core_demo :: coap_pkt where
  "core_demo = demo_parse 7 128 (replicate 7 0 @ bytes_of ''</cli/stats>'')"

lemma demo_core: "core_ok loop_demo wire_demo core_demo"
proof -
  have w: "w_response wire_demo (replicate 7 0 @ bytes_of ''</cli/stats>'') = core_demo"
    by (simp add: wire_demo_def core_demo_def)
  have "w_dispatch wire_demo (take (nat n) (pk_buf pk)) = Inl (Some (replicate 7 0 @ bytes_of ''</cli/stats>''))"
    if "plain_packet loop_demo METHOD_GET ''/.well-known/core'' False log = (n, pk)" for log n pk
  proof -
    have "take (nat n) (pk_buf pk) = [0, METHOD_GET, 2, 0]"
      using demo_plain_packet [of METHOD_GET "''/.well-known/core''" False log] that by (auto simp: path_code_def)
    then show ?thesis by (simp add: wire_demo_def)
  qed
  moreover have "payload_ok core_demo"
    using demo_parse_simps(5) [of "replicate 7 (0 :: byte)" "bytes_of ''</cli/stats>''"] by (simp add: core_demo_def)
  ultimately show ?thesis using w unfolding core_ok_def by (auto simp: core_demo_def demo_parse_simps(1))
qed

lemma demo_alias_env: "alias_env loop_demo wire_demo core_demo"
proof -
  have "\<forall>log. name2ep loop_demo log zero_ep a = (0, zero_ep\<lparr>family := AF_INET6\<rparr>)" for a
    by (simp add: loop_demo_def gcoap_demo_def)
  moreover have "node_env loop_demo wire_demo a" if "c_string REQ_ADDR_MAX a" for a
    using demo_node_env that unfolding node_env_def by (simp add: loop_demo_def gcoap_demo_def)
  moreover have "c_string REQ_ADDR_MAX ''[::1]''" "c_string REQ_ADDR_MAX ''[::1]:5683''" by (simp_all add: c_string_def REQ_ADDR_MAX_def)
  ultimately show ?thesis using demo_core by (auto simp: alias_env_def)
qed

definition anet_demo :: alias_net where
  "anet_demo = \<lparr>an_song = [demo_block 0 True, demo_block 1 False], an_test = net_demo, an_wake = 9, an_lc = lc_demo\<rparr>"

lemma demo_anet: "alias_net_ok loop_demo anet_demo"
  by (simp add: alias_net_ok_def anet_demo_def loop_net_ok loop_more_block loop_final_block)

definition world_demo :: shell_world where
  "world_demo = \<lparr>sw_node = node_start, sw_timers = timers_init, sw_lc = lc_init\<rparr>"

lemma demo_world: "world_ok world_demo"
proof -
  have "used_upto 0 xbd_start"
    by (simp add: used_upto_def xbd_start_def bw_ok_init) (simp add: state_is_valid_def bw_state_def bw_init_def bw_sizes)
  then show ?thesis
    by (simp add: world_ok_def world_demo_def idle_def node_start_def timers_ok_init) (simp add: timers_init_def)
qed

end
