(* ===== verification/Firmware_Session.thy ===== *)
theory Firmware_Session
  imports Shell_Tests
begin

text \<open>
  Sessions at the terminal of \<^verbatim>\<open>examples/xbd-net\<close>: one line after the other goes through the signal handler,
  the stream, the alias table and the tests to the command interpreter, \<^verbatim>\<open>process_shell_stream\<close> of
  \<^verbatim>\<open>src/xbd/shell.rs\<close> with all that it calls. The interface to what runs the aliases and the commands is
  a locale, with the lemma that a session returns. The other lemmas are about the static variables
  of the CoAP client, which the tests change: their invariant is that of the synchronous commands.
\<close>

section \<open>Lines\<close>

text \<open>What the shell task does on the way of a line, one thing after the other.\<close>

fun run_acts ::
  "('n \<Rightarrow> alias_fn \<Rightarrow> 'w \<Rightarrow> (shell_out list \<times> 'w) option) \<Rightarrow> ('n \<Rightarrow> string \<Rightarrow> 'w \<Rightarrow> 'w option) \<Rightarrow> 'n \<Rightarrow> shell_act list \<Rightarrow> 'w \<Rightarrow>
   (shell_out list \<times> 'w) option" where
  "run_acts run handle net [] w = Some ([], w)"
| "run_acts run handle net (Run_function f # as) w =
     do { (out, w) \<leftarrow> run net f w; (out', w) \<leftarrow> run_acts run handle net as w; Some (out @ out', w) }"
| "run_acts run handle net (Handle_line l # as) w =
     do { w \<leftarrow> handle net l w; run_acts run handle net as w }"
| "run_acts run handle net (Print_aliases # as) w =
     do { (out, w) \<leftarrow> run_acts run handle net as w; Some (map Say print_aliases @ out, w) }"
| "run_acts run handle net (Shell_print t # as) w =
     do { (out, w) \<leftarrow> run_acts run handle net as w; Some (Say t # out, w) }"
| "run_acts run handle net (_ # as) w = run_acts run handle net as w"

text \<open>A line that is typed: the signal, the turn of the shell task, and what the task does in it.\<close>

definition type_line ::
  "shell_env \<Rightarrow> ('n \<Rightarrow> alias_fn \<Rightarrow> 'w \<Rightarrow> (shell_out list \<times> 'w) option) \<Rightarrow> ('n \<Rightarrow> string \<Rightarrow> 'w \<Rightarrow> 'w option) \<Rightarrow> string \<times> 'n \<Rightarrow> shell_st \<times> 'w \<Rightarrow>
   (shell_out list \<times> shell_st \<times> 'w) option" where
  "type_line senv run handle line s =
     do {
       st \<leftarrow> run_steps (shell_step senv) [Input (fst line), Poll] (fst s);
       (out, w) \<leftarrow> run_acts run handle (snd line) (drop (length (shell_log (fst s))) (shell_log st)) (snd s);
       Some (out, st, w)
     }"

fun session ::
  "shell_env \<Rightarrow> ('n \<Rightarrow> alias_fn \<Rightarrow> 'w \<Rightarrow> (shell_out list \<times> 'w) option) \<Rightarrow> ('n \<Rightarrow> string \<Rightarrow> 'w \<Rightarrow> 'w option) \<Rightarrow> (string \<times> 'n) list \<Rightarrow>
   shell_st \<times> 'w \<Rightarrow> (shell_out list \<times> shell_st \<times> 'w) option" where
  "session senv run handle [] s = Some ([], s)"
| "session senv run handle (line # ls) s =
     do { (out, s) \<leftarrow> type_line senv run handle line s; (out', s) \<leftarrow> session senv run handle ls s; Some (out @ out', s) }"

section \<open>Lemmas\<close>

definition shell_idle :: "shell_st \<Rightarrow> bool" where
  "shell_idle st \<longleftrightarrow> shell_sd st = [] \<and> shell_buf st = []"

definition line_fits :: "string \<Rightarrow> bool" where
  "line_fits cs \<longleftrightarrow> NUL \<notin> set cs \<and> utf8_len (visible cs) < SHELL_BUFSIZE \<and> \<not> list_all is_whitespace (visible cs)"

text \<open>The line that reaches the command interpreter.\<close>

definition command_of :: "string \<Rightarrow> string" where
  "command_of cs = encode_utf8 (snd (alias_spec (visible cs)))"

lemma line_runs:
  assumes "push_law senv" and "shell_idle st" and "line_fits cs"
  shows "\<exists>st' p. run_steps (shell_step senv) [Input cs, Poll] st = Some st' \<and> shell_idle st' \<and>
     drop (length (shell_log st)) (shell_log st') =
       Async_read_continue # fst (alias_spec (visible cs)) @ [Handle_line (command_of cs), Shell_print p]"
proof -
  let ?st = "shell_prompt (slog ([Async_read_continue] @ fst (alias_spec (visible cs)) @ [Handle_line (command_of cs)]) st)"
  have "run_steps (shell_step senv) [Input cs, Poll] st = Some ?st"
    unfolding command_of_def using assms by (intro shell_line_runs) (simp_all add: shell_idle_def line_fits_def)
  moreover have "shell_idle ?st" using assms(2) by (simp add: shell_idle_def shell_prompt_def slog_def)
  moreover have "drop (length (shell_log st)) (shell_log ?st) = Async_read_continue # fst (alias_spec (visible cs)) @
      [Handle_line (command_of cs), Shell_print (xbd_async_shell_prompt (Some ''(v0.0.1)'') True)]"
    by (simp add: shell_prompt_def slog_def)
  ultimately show ?thesis by blast
qed

lemma alias_acts:
  "fst (alias_spec s) = [] \<or> fst (alias_spec s) = [Print_aliases] \<or> (\<exists>f. fst (alias_spec s) = [Run_function f])"
  by (auto simp: alias_spec_def split: option.split)

section \<open>The interface\<close>

text \<open>
  What runs the aliases and the commands, with an invariant of the world that both keep: an alias with a
  network that is good enough for it, and a command line that is allowed, always return.
\<close>

locale command_line =
  fixes run :: "'n \<Rightarrow> alias_fn \<Rightarrow> 'w \<Rightarrow> (shell_out list \<times> 'w) option"
    and handle :: "'n \<Rightarrow> string \<Rightarrow> 'w \<Rightarrow> 'w option"
    and inv :: "'w \<Rightarrow> bool" and good :: "'n \<Rightarrow> bool" and allowed :: "string \<Rightarrow> bool"
  assumes run_returns: "inv w \<Longrightarrow> good net \<Longrightarrow> \<exists>out w'. run net f w = Some (out, w') \<and> inv w'"
    and handle_returns: "inv w \<Longrightarrow> good net \<Longrightarrow> allowed l \<Longrightarrow> \<exists>w'. handle net l w = Some w' \<and> inv w'"
begin

lemma line_returns:
  assumes "push_law senv" and "shell_idle st" and "inv w" and "line_fits cs" and "good net" and "allowed (command_of cs)"
  shows "\<exists>out st' w'. type_line senv run handle (cs, net) (st, w) = Some (out, st', w') \<and> shell_idle st' \<and> inv w'"
proof -
  from line_runs [OF assms(1,2,4)] obtain st' p where
      st': "run_steps (shell_step senv) [Input cs, Poll] st = Some st'" "shell_idle st'"
        "drop (length (shell_log st)) (shell_log st') =
          Async_read_continue # fst (alias_spec (visible cs)) @ [Handle_line (command_of cs), Shell_print p]" by blast
  note tail = handle_returns [OF _ assms(5,6)]
  have "\<exists>out w'. run_acts run handle net (fst (alias_spec (visible cs)) @ [Handle_line (command_of cs), Shell_print p]) w =
      Some (out, w') \<and> inv w'"
    using alias_acts [of "visible cs"]
  proof (elim disjE exE)
    fix f
    assume f: "fst (alias_spec (visible cs)) = [Run_function f]"
    from run_returns [OF assms(3,5)] obtain out v where "run net f w = Some (out, v)" "inv v" by blast
    with tail [OF this(2)] show ?thesis by (auto simp: f)
  qed (use tail [OF assms(3)] in auto)
  with st' show ?thesis by (auto simp: type_line_def simp del: run_steps.simps)
qed

lemma session_returns:
  assumes "push_law senv" and "shell_idle st" and "inv w"
    and "\<forall>(cs, net) \<in> set ls. line_fits cs \<and> good net \<and> allowed (command_of cs)"
  shows "\<exists>out st' w'. session senv run handle ls (st, w) = Some (out, st', w') \<and> shell_idle st' \<and> inv w'"
  using assms(2-4)
proof (induction ls arbitrary: st w)
  case Nil
  then show ?case by simp
next
  case (Cons line ls)
  obtain cs net where line: "line = (cs, net)" by fastforce
  with Cons.prems(3) have l: "line_fits cs" "good net" "allowed (command_of cs)"
    "\<forall>(cs, net) \<in> set ls. line_fits cs \<and> good net \<and> allowed (command_of cs)" by simp_all
  from line_returns [OF assms(1) Cons.prems(1,2) l(1-3)] obtain out st1 w1 where
      r: "type_line senv run handle (cs, net) (st, w) = Some (out, st1, w1)" "shell_idle st1" "inv w1" by blast
  from Cons.IH [OF r(2,3) l(4)] r(1) line show ?case by auto
qed

end

section \<open>The static variables of the CoAP client\<close>

text \<open>
  The invariant \<^const>\<open>client_ok\<close> of these variables is not touched by the asynchronous client, the node
  or the tests; \<open>cl s\<close> is the invariant at \<open>s\<close>.
\<close>

abbreviation cl :: "xbd_app \<Rightarrow> bool" where "cl s \<equiv> client_ok (xg s)"

named_theorems cl_frame \<open>an operation keeps the invariant of the client and its failure\<close>

lemma cl_req_send [cl_frame]:
  assumes "xbd_gcoap_req_send env a u m p bw i c s = Some s'"
  shows "cl s' = cl s"
proof -
  have "client_ok (xbd_req_log env a u l b j q n g) = client_ok g" for l b j q n g
    by (simp add: xbd_req_log_def Let_def)
  with assms show ?thesis
    by (auto simp: xbd_gcoap_req_send_def bind_eq_Some_conv Let_def split: if_splits
        dest!: client_ok_xbd_header client_ok_xbd_send client_ok_notify)
qed

lemma cl_gcoap_req [cl_frame]: "gcoap_req env a u m p bw i c s = Some s' \<Longrightarrow> cl s' = cl s"
  by (auto simp: gcoap_req_def split: if_splits dest: cl_req_send)

lemma cl_method [cl_frame]: "gcoap_method env m a u p c s = Some s' \<Longrightarrow> cl s' = cl s"
  by (auto simp: gcoap_method_def bind_eq_Some_conv split: if_splits dest: cl_gcoap_req)

lemma cl_poll_plain [cl_frame]: "poll_plain env m a u p k s = Some (r, s') \<Longrightarrow> cl s' = cl s"
  by (auto simp: poll_plain_def bind_eq_Some_conv split: if_splits fstate.splits dest!: cl_method)

lemma cl_poll_blockwise [cl_frame]: "poll_blockwise env req k s = Some (r, s') \<Longrightarrow> cl s' = cl s"
  by (auto simp: poll_blockwise_def Let_def bind_eq_Some_conv split: if_splits fstate.splits dest!: cl_gcoap_req)

lemma cl_poll_req [cl_frame]: "poll_req env req k s = Some (r, s') \<Longrightarrow> cl s' = cl s"
  by (cases req) (auto simp: poll_inner_def dest: cl_poll_plain cl_poll_blockwise)

lemma cl_async [cl_frame]:
  assumes "resp_handler_blockwise_async env pk b s = Some (buf, s')"
  shows "cl s' = cl s"
proof (cases "more_blocks b")
  case False
  with assms show ?thesis by (auto simp: resp_handler_blockwise_async_def bind_eq_Some_conv)
next
  case True
  with assms obtain idx ar ur where r: "xbd_blockwise_state_index (xb s) = Some idx"
      "xbd_blockwise_addr_ptr idx (xb s) = Some ar" "xbd_blockwise_uri_ptr idx (xb s) = Some ur"
    by (auto simp: resp_handler_blockwise_async_def bind_eq_Some_conv)
  obtain n pk1 where n: "next_block_packet env (cstr ur) pk b (g_log (xg s)) = (n, pk1)" by fastforce
  from True assms r n show ?thesis
    by (cases "blknum b = 0 \<and> cstr ur = []")
       (auto simp: resp_handler_blockwise_async_def bind_eq_Some_conv Let_def split: if_splits)
qed

lemma cl_resolve [cl_frame]: "fstat_resolve c m s = Some s' \<Longrightarrow> cl s' = cl s"
  by (cases c) (auto split: if_splits)

lemma cl_report [simp]: "cl (xprintf t s) = cl s" "cl (xbd_resp_report env memo pk s) = cl s"
  by (simp_all add: xbd_resp_report_def)

lemma cl_resp_handler [cl_frame]:
  assumes "xbd_resp_handler env memo pk s = Some (state, ptr, len, ctx, buf, s')"
  shows "cl s' = cl s"
  using assms
  by (auto simp: xbd_resp_handler_def Let_def bind_eq_Some_conv split: option.splits if_splits prod.splits dest!: cl_async)

lemma cl_response [cl_frame]: "gcoap_req_resp_handler env memo pk s = Some s' \<Longrightarrow> cl s' = cl s"
  by (auto simp: gcoap_req_resp_handler_def bind_eq_Some_conv dest!: cl_resolve cl_resp_handler)

lemma cl_fut_new [simp]: "cl (snd (fut_new s)) = cl s"
  by (simp add: fut_new_def)

lemma poll_case_Some:
  "(case r of Ready m \<Rightarrow> f m | Pending \<Rightarrow> x) = Some y \<longleftrightarrow> (\<exists>m. r = Ready m \<and> f m = Some y) \<or> r = Pending \<and> x = Some y"
  by (cases r) simp_all

lemma cl_await_req [cl_frame]: "await_req env req state pk s = Some (m, s') \<Longrightarrow> cl s' = cl s"
  by (auto simp: await_req_def fut_new_def bind_eq_Some_conv poll_case_Some dest!: cl_frame)

lemma cl_round [cl_frame]:
  assumes "blockwise_round env i pk s = Some (m, s')"
  shows "cl s' = cl s"
proof -
  obtain req st where n: "bs_poll_next i (xb s) = (Ready (Some req), st)"
    using assms by (auto simp: blockwise_round_def split: poll.splits option.splits prod.splits)
  let ?k = "length (xf s)" and ?s = "s\<lparr>xb := st, xf := xf s @ [FNew]\<rparr>"
  obtain u where u: "poll_blockwise env req ?k ?s = Some (Pending, u)"
    using assms n by (auto simp: blockwise_round_def fut_new_def split: option.splits poll.splits)
  with assms n show ?thesis
    by (auto simp: blockwise_round_def fut_new_def bind_eq_Some_conv poll_case_Some dest!: cl_frame)
qed

lemma cl_transfer [cl_frame]: "blockwise_transfer env i pks s = Some (ms, s') \<Longrightarrow> cl s' = cl s"
  by (induction pks arbitrary: s ms) (auto simp: bind_eq_Some_conv split: poll.split_asm option.split_asm prod.split_asm dest!: cl_frame)

text \<open>The handlers, and the turns of the server task.\<close>

lemma cl_call_handler [cl_frame]:
  assumes "call_handler env fs h pk g = Some (n, pk', g')"
  shows "client_ok g' = client_ok g"
  using assms
  by (cases h) (auto simp: xbd_riot_stats_handler_def xbd_riot_board_handler_def xbd_riot_fileserver_handler_def print_pdu_len_def
      split: prod.splits dest!: client_ok_stats client_ok_board)

abbreviation ncl :: "node \<Rightarrow> bool" where "ncl s \<equiv> cl (nd_app s)"

lemma cl_arrive [cl_frame]: "arrive d s = Some s' \<Longrightarrow> ncl s' = ncl s"
  by (auto simp: arrive_def bind_eq_Some_conv)

lemma cl_arrivals [cl_frame]: "run_steps arrive ds s = Some s' \<Longrightarrow> ncl s' = ncl s"
  by (induction ds arbitrary: s) (auto split: option.splits dest!: cl_frame)

lemma cl_poll_node [cl_frame]: "poll_node env w req k s = Some (r, s') \<Longrightarrow> ncl s' = ncl s"
  by (auto simp: poll_node_def bind_eq_Some_conv dest!: cl_frame)

lemma cl_send_back [cl_frame]: "send_back m ctx s = Some s' \<Longrightarrow> ncl s' = ncl s"
  by (auto simp: send_back_def split: option.splits dest!: cl_frame)

lemma cl_receive [cl_frame]: "receive env fs w d s = Some s' \<Longrightarrow> ncl s' = ncl s"
  by (cases d) (auto simp: bind_eq_Some_conv split: sum.splits prod.splits dest!: cl_frame)

lemma cl_turn [cl_frame]: "server_turn env fs w s = Some s' \<Longrightarrow> ncl s' = ncl s"
  by (auto simp: server_turn_def Let_def split: if_splits list.splits dest!: cl_frame)

lemma cl_turns [cl_frame]: "run_steps (\<lambda>_. server_turn env fs w) ts s = Some s' \<Longrightarrow> ncl s' = ncl s"
  by (induction ts arbitrary: s) (auto split: option.splits dest!: cl_frame)

lemma cl_await_node [cl_frame]: "await_node env fs w n req s = Some (m, s') \<Longrightarrow> ncl s' = ncl s"
  by (auto simp: await_node_def fut_new_def bind_eq_Some_conv poll_case_Some dest!: cl_frame)

lemma cl_call_node [cl_frame]: "call_node env fs w r s = Some (m, s') \<Longrightarrow> ncl s' = ncl s"
  by (auto simp: call_node_def bind_eq_Some_conv dest!: cl_frame)

text \<open>The parts of the blockwise test.\<close>

lemma cl_open [cl_frame]: "open_transfer a u s = Some (i, s') \<Longrightarrow> cl s' = cl s"
  by (auto simp: open_transfer_def gcoap_get_blockwise_def split: option.split_asm sum.split_asm)

lemma cl_assert [cl_frame]: "assert_slot i b s = Some s' \<Longrightarrow> cl s' = cl s"
  by (auto simp: assert_slot_def split: if_splits)

lemma cl_next [cl_frame]: "next_item i s = Some (r, s') \<Longrightarrow> cl s' = cl s"
  by (auto simp: next_item_def split: poll.split_asm prod.split_asm)

lemma cl_close [cl_frame]: "close_transfer i s = Some s' \<Longrightarrow> cl s' = cl s"
  by (auto simp: close_transfer_def)

lemma cl_test_get [cl_frame]: "test_get env a u pk s = Some s' \<Longrightarrow> cl s' = cl s"
  by (auto simp: test_get_def bind_eq_Some_conv dest!: cl_frame)

lemma cl_test_inner [cl_frame]: "test_inner env a u pks s = Some s' \<Longrightarrow> cl s' = cl s"
  by (auto simp: test_inner_def bind_eq_Some_conv dest!: cl_frame)

lemma cl_test_loop [cl_frame]: "test_loop env a u i inner n pks s = Some s' \<Longrightarrow> cl s' = cl s"
proof (induction pks arbitrary: n s)
  case Nil
  then show ?case by (auto split: option.split_asm prod.split_asm dest!: cl_frame)
next
  case (Cons pk pks)
  then obtain m t v where "blockwise_round env i pk s = Some (m, t)" "(if Suc n = 3 then test_inner env a u inner t else Some t) = Some v"
      "test_loop env a u i inner (Suc n) pks v = Some s'" by (auto simp: bind_eq_Some_conv)
  with Cons.IH [OF this(3)] show ?case by (auto split: if_splits dest!: cl_frame)
qed

lemma cl_test_nested [cl_frame]: "test_nested env a u outer inner s = Some s' \<Longrightarrow> cl s' = cl s"
  by (auto simp: test_nested_def bind_eq_Some_conv dest!: cl_frame)

lemma cl_test_again [cl_frame]: "test_again env a u pks s = Some s' \<Longrightarrow> cl s' = cl s"
  by (auto simp: test_again_def bind_eq_Some_conv dest!: cl_frame)

lemma cl_open_transfers [cl_frame]: "open_transfers n a u s = Some (is, s') \<Longrightarrow> cl s' = cl s"
  by (induction n arbitrary: s "is") (auto simp: bind_eq_Some_conv dest!: cl_frame)

lemma cl_close_transfers [cl_frame]: "close_transfers is s = Some s' \<Longrightarrow> cl s' = cl s"
  by (induction "is" arbitrary: s) (auto simp: bind_eq_Some_conv dest!: cl_frame)

lemma cl_full: "(case gcoap_get_blockwise a u s of Some (Inl StateNotAvailable, s) \<Rightarrow> Some s | _ \<Rightarrow> None) = Some s' \<Longrightarrow> cl s' = cl s"
  by (auto simp: gcoap_get_blockwise_def split: option.split_asm sum.split_asm bw_error.split_asm)

lemma cl_test_close [cl_frame]: "test_close env a u pk s = Some s' \<Longrightarrow> cl s' = cl s"
  by (auto simp: test_close_def bind_eq_Some_conv split: if_splits
      dest!: cl_full cl_frame)

lemma cl_close_on [cl_frame]: "close_on env m i rs s = Some s' \<Longrightarrow> cl s' = cl s"
proof (induction env m i rs s rule: close_on.induct)
  case (1 env m i s)
  then show ?case by (auto split: option.split_asm prod.split_asm dest!: cl_frame)
next
  case (2 env m i state pk rs s)
  then obtain req t m' v v' where "next_item i s = Some (Some req, t)" "await_req env (BlockwiseGet req) state pk t = Some (m', v)"
      "(if m' = m then close_transfer i v else None) = Some v'" "close_on env m i rs v' = Some s'"
    by (auto simp: bind_eq_Some_conv split: option.split_asm prod.split_asm)
  with 2(1) [OF this(1) refl refl this(2) refl this(3)] show ?case by (auto split: if_splits dest!: cl_frame)
qed

lemma cl_test_closed [cl_frame]: "test_closed env m a u r s = Some s' \<Longrightarrow> cl s' = cl s"
  by (auto simp: test_closed_def bind_eq_Some_conv dest!: cl_frame)

lemma cl_test_blockwise [cl_frame]: "test_blockwise env net a s = Some s' \<Longrightarrow> cl s' = cl s"
  by (auto simp: test_blockwise_def Let_def bind_eq_Some_conv
      dest!: cl_frame)

text \<open>The aliases.\<close>

lemma cl_heapless [cl_frame]: "test_heapless_req env fs w s = Some (out, s') \<Longrightarrow> ncl s' = ncl s"
  by (auto simp: test_heapless_req_def Let_def bind_eq_Some_conv dest!: cl_frame)

lemma cl_run_alias [cl_frame]:
  assumes "run_alias env fs w net f sw = Some (out, sw')"
  shows "ncl (sw_node sw') = ncl (sw_node sw) \<and> sw_lc sw' = sw_lc sw"
  using assms
  by (cases f) (auto simp: on_app_def test_blockwise_all_def test_async_blockwise_def bind_eq_Some_conv
      dest!: cl_frame)

end
