(* ===== verification/Mcu_Emu.thy ===== *)
theory Mcu_Emu
  imports Studio_Prelude
begin

text \<open>
  The emulator runner \<^verbatim>\<open>crates/mcu-emu\<close>, which \<^verbatim>\<open>examples/runner\<close> calls: the choice of the board, the image of
  the flash memory for the ESP32, the command line of QEMU and the time limits. The file system is a map
  from paths to contents; what the operating system answers (whether a path can be written, a program started, a
  process killed) is the environment. An operation ends in an I/O error or a panic, or with a value, and leaves
  a world in any case.
\<close>

section \<open>World\<close>

datatype emu_act =
    Spawn string "string list"
  | Run_status string "string list"
  | Sleep_ms nat
  | Stdin_write bytes
  | Kill
  | Emu_print string
  | Print_exit_hint

record emu_world =
  files :: "string \<rightharpoonup> bytes"
  emu_log :: "emu_act list"

record emu_env =
  writable :: "string \<Rightarrow> bool"
  spawnable :: "string \<Rightarrow> bool"
  stdin_open :: bool
  killable :: bool
  env_var :: "string \<rightharpoonup> string"

datatype emu_error = Io_error | Panicked

type_synonym 'a emu = "emu_world \<Rightarrow> (emu_error + 'a) \<times> emu_world"

definition emu_return :: "'a \<Rightarrow> 'a emu" where "emu_return x w = (Inr x, w)"
definition emu_fail :: "emu_error \<Rightarrow> 'a emu" where "emu_fail e w = (Inl e, w)"

definition emu_then :: "'a emu \<Rightarrow> ('a \<Rightarrow> 'b emu) \<Rightarrow> 'b emu" where
  "emu_then m f w = (case m w of (Inl e, w) \<Rightarrow> (Inl e, w) | (Inr x, w) \<Rightarrow> f x w)"

definition emu_do :: "emu_act list \<Rightarrow> unit emu" where
  "emu_do as w = (Inr (), w\<lparr>emu_log := emu_log w @ as\<rparr>)"

section \<open>The flash image\<close>

definition flash_new :: "nat \<Rightarrow> bytes" where
  "flash_new n = replicate n 0xff"

text \<open>A slice past the end of the image panics, before anything is read.\<close>

definition flash_merge :: "nat \<Rightarrow> string \<Rightarrow> bytes \<Rightarrow> bytes emu" where
  "flash_merge offset path flash w =
     (case files w path of
        None \<Rightarrow> emu_fail Io_error w
      | Some content \<Rightarrow>
          (case mem_write offset content flash of
             None \<Rightarrow> emu_fail Panicked w
           | Some flash \<Rightarrow> emu_return flash w))"

definition flash_write :: "emu_env \<Rightarrow> string \<Rightarrow> bytes \<Rightarrow> bytes emu" where
  "flash_write env path flash w =
     (if writable env path then (Inr flash, w\<lparr>files := (files w)(path \<mapsto> flash)\<rparr>) else emu_fail Io_error w)"

definition QEMU_RES_DIR :: string where "QEMU_RES_DIR = ''../../toolchain/xtensa/qemu''"
definition FLASH_BIN :: string where "FLASH_BIN = ''esp32flash.bin''"
definition FLASH_SIZE :: nat where "FLASH_SIZE = 4194304"

definition bootloader_bin :: string where
  "bootloader_bin = QEMU_RES_DIR @ ''/build-dio-riot/bootloader/bootloader.bin''"

definition partition_table_bin :: string where
  "partition_table_bin = QEMU_RES_DIR @ ''/build-dio-riot/partition_table/partition-table.bin''"

definition generate_esp32flash :: "emu_env \<Rightarrow> string \<Rightarrow> string \<Rightarrow> unit emu" where
  "generate_esp32flash env riot_bin flash_bin =
     emu_then (flash_merge 0x1000 bootloader_bin (flash_new FLASH_SIZE)) (\<lambda>flash.
     emu_then (flash_merge 0x8000 partition_table_bin flash) (\<lambda>flash.
     emu_then (flash_merge 0x10000 riot_bin flash) (\<lambda>flash.
     emu_then (flash_write env flash_bin flash) (\<lambda>_. emu_return ()))))"

section \<open>Running the emulators\<close>

datatype net_opt = Tap "string option" | Nic "string option"

definition qemu_program :: string where
  "qemu_program = QEMU_RES_DIR @ ''/qemu/bin/qemu-system-xtensa''"

text \<open>\<^verbatim>\<open>Qemu::new\<close> unwraps the name of the network device.\<close>

definition qemu_args :: "string option \<Rightarrow> string list option" where
  "qemu_args nic =
     map_option (\<lambda>nic. [''-nographic'', ''-machine'', ''esp32'',
       ''-drive'', ''file='' @ FLASH_BIN @ '',if=mtd,format=raw'', ''-nic'', nic,
       ''-global'', ''driver=timer.esp32.timg,property=wdt_disable,value=true'']) nic"

definition emu_start :: "emu_env \<Rightarrow> string \<Rightarrow> emu_act \<Rightarrow> unit emu" where
  "emu_start env program act = (if spawnable env program then emu_do [act] else emu_fail Io_error)"

definition qemu_run :: "emu_env \<Rightarrow> string list \<Rightarrow> unit emu" where
  "qemu_run env args =
     emu_then (emu_do [Print_exit_hint]) (\<lambda>_. emu_start env qemu_program (Run_status qemu_program args))"

definition qemu_run_with_timeout :: "emu_env \<Rightarrow> string list \<Rightarrow> nat \<Rightarrow> unit emu" where
  "qemu_run_with_timeout env args ms =
     emu_then (emu_do [Emu_print (''Running qemu... (timeout '' @ dec ms @ '' ms)'' @ nl)]) (\<lambda>_.
     emu_then (emu_start env qemu_program (Spawn qemu_program args)) (\<lambda>_.
     emu_then (emu_do [Sleep_ms ms, Emu_print (''Quiting qemu...'' @ nl)]) (\<lambda>_.
     if stdin_open env then emu_do [Stdin_write [0x01, 0x78, 0x0a]] else emu_fail Io_error)))"

definition run_esp32 :: "emu_env \<Rightarrow> string \<Rightarrow> nat option \<Rightarrow> net_opt \<Rightarrow> unit emu" where
  "run_esp32 env riot_bin timeout net =
     emu_then (generate_esp32flash env riot_bin FLASH_BIN) (\<lambda>_.
       case net of
         Tap _ \<Rightarrow> emu_fail Panicked
       | Nic nic \<Rightarrow>
           (case qemu_args nic of
              None \<Rightarrow> emu_fail Panicked
            | Some args \<Rightarrow>
                (case timeout of
                   Some ms \<Rightarrow> qemu_run_with_timeout env args ms
                 | None \<Rightarrow> qemu_run env args)))"

definition run_native :: "emu_env \<Rightarrow> string \<Rightarrow> nat option \<Rightarrow> net_opt \<Rightarrow> unit emu" where
  "run_native env riot_elf timeout net =
     (case net of
        Nic _ \<Rightarrow> emu_fail Panicked
      | Tap tap \<Rightarrow>
          (let args = (case tap of None \<Rightarrow> [] | Some t \<Rightarrow> [t]) in
           case timeout of
             None \<Rightarrow> emu_start env riot_elf (Run_status riot_elf args)
           | Some ms \<Rightarrow>
               emu_then (emu_do [Emu_print (''Running native... (timeout '' @ dec ms @ '' ms)'' @ nl)]) (\<lambda>_.
               emu_then (emu_start env riot_elf (Spawn riot_elf args)) (\<lambda>_.
               emu_then (emu_do [Sleep_ms ms, Emu_print (''Quiting native...'' @ nl)]) (\<lambda>_.
               if killable env then emu_do [Kill] else emu_fail Io_error)))))"

text \<open>Rust's \<^verbatim>\<open>parse::<u64>()\<close>: an optional plus sign, then one digit or more and no overflow.\<close>

definition parse_u64 :: "string \<Rightarrow> nat option" where
  "parse_u64 s =
     (let ds = (if s \<noteq> [] \<and> hd s = CHR ''+'' then tl s else s) in
      if ds \<noteq> [] \<and> list_all is_digit ds \<and> read_digits 0 ds < 2 ^ 64 then Some (read_digits 0 ds) else None)"

definition timeout_of :: "string \<Rightarrow> nat option" where
  "timeout_of s = (case parse_u64 s of Some n \<Rightarrow> (if 0 < n then Some n else None) | None \<Rightarrow> None)"

definition emu_run :: "emu_env \<Rightarrow> string list \<Rightarrow> unit emu" where
  "emu_run env args =
     (if length args \<le> 2 then emu_fail Panicked
      else
        (let board = args ! 1; timeout = timeout_of (args ! 2);
             net = (if 3 < length args then Some (args ! 3) else None);
             path = (\<lambda>var default. case env_var env var of Some p \<Rightarrow> p | None \<Rightarrow> default) in
         if board = ''native'' then
           run_native env (path ''RIOT_NATIVE_ELF'' ''./main/bin/native/main.elf'') timeout (Tap net)
         else if board = ''esp32'' then
           run_esp32 env (path ''RIOT_ESP32_BIN'' ''./main.esp32.bin'') timeout (Nic net)
         else emu_fail Panicked))"

section \<open>Lemmas\<close>

lemma emu_then_simps [simp]:
  "m w = (Inl e, w') \<Longrightarrow> emu_then m f w = (Inl e, w')" "m w = (Inr x, w') \<Longrightarrow> emu_then m f w = f x w'"
  by (simp_all add: emu_then_def)

lemma length_flash_new [simp]: "length (flash_new n) = n"
  by (simp add: flash_new_def)

text \<open>What a byte of the image is after a file has been merged over \<open>old\<close>.\<close>

definition overlay :: "nat \<Rightarrow> bytes \<Rightarrow> (nat \<Rightarrow> byte) \<Rightarrow> nat \<Rightarrow> byte" where
  "overlay offset content old i = (if offset \<le> i \<and> i < offset + length content then content ! (i - offset) else old i)"

definition image_of :: "bytes \<Rightarrow> nat \<Rightarrow> (nat \<Rightarrow> byte) \<Rightarrow> bool" where
  "image_of flash n f \<longleftrightarrow> length flash = n \<and> (\<forall>i < n. flash ! i = f i)"

lemma image_of_new: "image_of (flash_new n) n (\<lambda>_. 0xff)"
  by (simp add: image_of_def flash_new_def)

lemma flash_merge_image:
  assumes "image_of flash n f" and "files w path = Some content"
  shows "if offset + length content \<le> n
    then \<exists>flash'. flash_merge offset path flash w = (Inr flash', w) \<and> image_of flash' n (overlay offset content f)
    else flash_merge offset path flash w = (Inl Panicked, w)"
proof (cases "offset + length content \<le> n")
  case True
  let ?flash = "take offset flash @ content @ drop (offset + length content) flash"
  have "flash_merge offset path flash w = (Inr ?flash, w)"
    using assms True by (simp add: flash_merge_def mem_write_def emu_return_def image_of_def)
  moreover have "image_of ?flash n (overlay offset content f)"
    using assms(1) True by (auto simp: image_of_def overlay_def nth_append)
  ultimately show ?thesis using True by auto
next
  case False
  with assms show ?thesis by (simp add: flash_merge_def mem_write_def emu_fail_def image_of_def)
qed

lemma flash_merge_missing: "files w path = None \<Longrightarrow> flash_merge offset path flash w = (Inl Io_error, w)"
  by (simp add: flash_merge_def emu_fail_def)

text \<open>A boot loader that reaches to the partition table is overwritten by it; nothing checks that.\<close>

lemma bootloader_overwritten:
  assumes "0 < length pt"
  shows "overlay 0x8000 pt (overlay 0x1000 bl f) 0x8000 = pt ! 0"
  using assms by (simp add: overlay_def)

text \<open>Without the name of a network device the ESP32 emulator panics, after it has written the image.\<close>

lemma esp32_without_nic:
  assumes "generate_esp32flash env (case env_var env ''RIOT_ESP32_BIN'' of Some p \<Rightarrow> p | None \<Rightarrow> ''./main.esp32.bin'')
      FLASH_BIN w = (Inr (), w')"
  shows "emu_run env [prog, ''esp32'', ms] w = (Inl Panicked, w')"
  using assms by (simp add: emu_run_def run_esp32_def qemu_args_def emu_fail_def)

lemma emu_run_panics:
  "length args \<le> 2 \<or> args ! 1 \<notin> {''native'', ''esp32''} \<Longrightarrow> emu_run env args w = (Inl Panicked, w)"
  by (auto simp: emu_run_def emu_fail_def Let_def)

text \<open>With a time limit the native program is started, given its time and killed, in this order.\<close>

lemma native_with_timeout:
  assumes "timeout_of ms = Some n" and "\<And>p. spawnable env p" and "killable env" and "env_var env ''RIOT_NATIVE_ELF'' = Some elf"
  shows "emu_run env [prog, ''native'', ms, tap] w = (Inr (), w\<lparr>emu_log := emu_log w @
     [Emu_print (''Running native... (timeout '' @ dec n @ '' ms)'' @ nl), Spawn elf [tap], Sleep_ms n,
      Emu_print (''Quiting native...'' @ nl), Kill]\<rparr>)"
  using assms by (simp add: emu_run_def run_native_def emu_then_def emu_do_def emu_start_def)

section \<open>Properties\<close>

text \<open>
  The flash image. If its three parts can be read, \<^verbatim>\<open>generate_esp32flash\<close> writes a file of 4 MiB in which
  every byte is that of the last part laid over its place, the application at \<^verbatim>\<open>0x10000\<close> over the partition
  table at \<^verbatim>\<open>0x8000\<close> over the boot loader at \<^verbatim>\<open>0x1000\<close>, and all others are \<^verbatim>\<open>0xff\<close>; it panics and leaves the
  files as they are exactly if a part reaches past the end.
\<close>

lemma flash_image:
  assumes "files w bootloader_bin = Some bl" and "files w partition_table_bin = Some pt" and "files w riot = Some rb"
    and "writable env bin"
  shows "if 0x1000 + length bl \<le> FLASH_SIZE \<and> 0x8000 + length pt \<le> FLASH_SIZE \<and> 0x10000 + length rb \<le> FLASH_SIZE
    then \<exists>image. generate_esp32flash env riot bin w = (Inr (), w\<lparr>files := (files w)(bin \<mapsto> image)\<rparr>) \<and>
      length image = FLASH_SIZE \<and>
      (\<forall>i < FLASH_SIZE. image ! i = overlay 0x10000 rb (overlay 0x8000 pt (overlay 0x1000 bl (\<lambda>_. 0xff))) i)
    else generate_esp32flash env riot bin w = (Inl Panicked, w)"
proof -
  note m1 = flash_merge_image [OF image_of_new [of FLASH_SIZE] assms(1), of "0x1000"]
  show ?thesis
  proof (cases "0x1000 + length bl \<le> FLASH_SIZE")
    case True
    with m1 obtain f1 where f1: "flash_merge 0x1000 bootloader_bin (flash_new FLASH_SIZE) w = (Inr f1, w)"
      and i1: "image_of f1 FLASH_SIZE (overlay 0x1000 bl (\<lambda>_. 0xff))" by auto
    note m2 = flash_merge_image [OF i1 assms(2), of "0x8000"]
    show ?thesis
    proof (cases "0x8000 + length pt \<le> FLASH_SIZE")
      case True
      with m2 obtain f2 where f2: "flash_merge 0x8000 partition_table_bin f1 w = (Inr f2, w)"
        and i2: "image_of f2 FLASH_SIZE (overlay 0x8000 pt (overlay 0x1000 bl (\<lambda>_. 0xff)))" by auto
      note m3 = flash_merge_image [OF i2 assms(3), of "0x10000"]
      with f1 f2 assms(4) True \<open>0x1000 + length bl \<le> FLASH_SIZE\<close> show ?thesis
        by (cases "0x10000 + length rb \<le> FLASH_SIZE")
           (auto simp: generate_esp32flash_def flash_write_def emu_return_def image_of_def)
    next
      case False
      with f1 m2 show ?thesis by (simp add: generate_esp32flash_def)
    qed
  next
    case False
    with m1 show ?thesis by (simp add: generate_esp32flash_def)
  qed
qed

lemma flash_image_witness:
  "\<exists>image. generate_esp32flash
       \<lparr>writable = (\<lambda>_. True), spawnable = (\<lambda>_. True), stdin_open = True, killable = True, env_var = Map.empty\<rparr> ''riot'' ''out''
       \<lparr>files = [bootloader_bin \<mapsto> [1, 2], partition_table_bin \<mapsto> [3], ''riot'' \<mapsto> [4, 5]], emu_log = []\<rparr> =
     (Inr (), \<lparr>files = [bootloader_bin \<mapsto> [1, 2], partition_table_bin \<mapsto> [3], ''riot'' \<mapsto> [4, 5], ''out'' \<mapsto> image], emu_log = []\<rparr>) \<and>
     length image = 4194304 \<and> image ! 0 = 0xff \<and> image ! 0x1001 = 2 \<and> image ! 0x8000 = 3 \<and> image ! 0x10001 = 5"
proof -
  let ?w = "\<lparr>files = [bootloader_bin \<mapsto> [1, 2], partition_table_bin \<mapsto> [3], ''riot'' \<mapsto> [4, 5]], emu_log = []\<rparr>"
  let ?env = "\<lparr>writable = (\<lambda>_. True), spawnable = (\<lambda>_. True), stdin_open = True, killable = True, env_var = Map.empty\<rparr>"
  have f: "files ?w bootloader_bin = Some [1, 2]" "files ?w partition_table_bin = Some [3]" "files ?w ''riot'' = Some [4, 5]"
    by (simp_all add: bootloader_bin_def partition_table_bin_def QEMU_RES_DIR_def)
  have e: "writable ?env ''out''" by simp
  from flash_image [OF f e] obtain image where
    g: "generate_esp32flash ?env ''riot'' ''out'' ?w = (Inr (), ?w\<lparr>files := (files ?w)(''out'' \<mapsto> image)\<rparr>)"
    and l: "length image = FLASH_SIZE"
    and i: "\<And>i. i < FLASH_SIZE \<Longrightarrow> image ! i = overlay 0x10000 [4, 5] (overlay 0x8000 [3] (overlay 0x1000 [1, 2] (\<lambda>_. 0xff))) i"
    by (auto simp: FLASH_SIZE_def)
  from i [of 0] i [of "0x1001"] i [of "0x8000"] i [of "0x10001"] have
    "image ! 0 = 0xff \<and> image ! 0x1001 = 2 \<and> image ! 0x8000 = 3 \<and> image ! 0x10001 = 5"
    by (simp add: overlay_def FLASH_SIZE_def)
  with g l show ?thesis by (intro exI [of _ image]) (simp add: FLASH_SIZE_def)
qed

end
