(* ===== verification/Spec2Isabelle.thy ===== *)
theory Spec2Isabelle
  imports Main_Programs Libcoap_Minimal Firmware_Session Mcu_Emu
begin

text \<open>
  Verification of the firmware examples of the \<^verbatim>\<open>studio\<close> repository: applications for RIOT on the native
  board and the ESP32, written in C with an asynchronous part in Rust.

  \<^bold>\<open>The program and its parts.\<close> \<^verbatim>\<open>examples/native-lwip\<close> and \<^verbatim>\<open>examples/native-sockets\<close> are shell applications
  that send and receive packets. \<^verbatim>\<open>examples/xbd-net\<close> is the large one. Its \<^verbatim>\<open>main\<close> chooses the network
  interfaces and sets their addresses (\<^verbatim>\<open>modules/minerva_gnrc\<close>, or the minimal Ethernet application of
  \<^verbatim>\<open>modules/minerva_esp32_minimal\<close>), registers a file server and hands a table of C functions to Rust.
  Rust runs tasks that are fed by C callbacks through streams: characters of the terminal, expired
  timers, socket events and CoAP responses. The CoAP client and server are written twice, as a
  synchronous shell command with its server (\<^verbatim>\<open>modules/minerva_gcoap\<close>) and as futures with a store of
  blockwise transfers (\<^verbatim>\<open>modules/minerva_xbd/gcoap.c\<close>, \<^verbatim>\<open>src/xbd\<close>); a third client uses libcoap
  (\<^verbatim>\<open>modules/minerva_libcoap\<close>), and two small host programs talk to it (\<^verbatim>\<open>libcoap-minimal\<close>). The tasks run
  on one of two executors: a wrapper around a third-party crate, which the firmware starts (\<^verbatim>\<open>src/embassy\<close>), or one written
  in the repository (\<^verbatim>\<open>src/blogos12\<close>). On the host, \<^verbatim>\<open>crates/mcu-emu\<close> makes the flash image and runs the emulator.

  \<^bold>\<open>Theories and sources.\<close>
  \<^item> \<^verbatim>\<open>Studio_Prelude\<close>: machine types, C arrays and strings, the functions of the C library the sources use,
    runs of a step function, and the locales \<^verbatim>\<open>invariant_steps\<close> and \<^verbatim>\<open>total_steps\<close> of an invariant that every
    step keeps and under which every step returns, and \<^verbatim>\<open>simulation\<close> of a step relation that implements
    an abstract one. Further interfaces are \<^verbatim>\<open>bounded_fifo\<close> (the streams) and \<^verbatim>\<open>slot_table\<close> (the store).
  \<^item> \<^verbatim>\<open>Hex2ints\<close>, \<^verbatim>\<open>Lwip_App\<close>, \<^verbatim>\<open>Lwip_Udp\<close>, \<^verbatim>\<open>Lwip_Ip\<close>, \<^verbatim>\<open>Lwip_Tcp\<close>, \<^verbatim>\<open>Lwip_System\<close>: \<^verbatim>\<open>common.c\<close>, \<^verbatim>\<open>udp.c\<close>,
    \<^verbatim>\<open>ip.c\<close>, \<^verbatim>\<open>tcp.c\<close> and \<^verbatim>\<open>main.c\<close> of \<^verbatim>\<open>native-lwip/main\<close>; the state is the static variables of the three
    files. The last theory interleaves commands, server threads and received packets.
  \<^item> \<^verbatim>\<open>Posix_Udp\<close>: \<^verbatim>\<open>udp.c\<close> of \<^verbatim>\<open>native-sockets/main\<close>.
  \<^item> \<^verbatim>\<open>Gcoap_Api\<close>, \<^verbatim>\<open>Gcoap_Server\<close>, \<^verbatim>\<open>Gcoap_Client\<close>: the interface of gcoap as an environment record, and
    \<^verbatim>\<open>server.c\<close> and \<^verbatim>\<open>client.c\<close> of \<^verbatim>\<open>modules/minerva_gcoap\<close>.
  \<^item> \<^verbatim>\<open>Xstream\<close>, \<^verbatim>\<open>Blockwise_Store\<close>, \<^verbatim>\<open>Xbd_Gcoap\<close>: \<^verbatim>\<open>stream.rs\<close>, \<^verbatim>\<open>blockwise.rs\<close>, and \<^verbatim>\<open>gcoap.rs\<close> with
    \<^verbatim>\<open>modules/minerva_xbd/gcoap.c\<close>; the packet buffer that a response, its payload and the follow-up
    share is explicit.
  \<^item> \<^verbatim>\<open>Xbd_Requests\<close>, \<^verbatim>\<open>Self_Test\<close>: the request functions of \<^verbatim>\<open>gcoap.rs\<close> from the call to the response, and the
    test of plain and blockwise requests in \<^verbatim>\<open>src/lib.rs\<close> with each of its assertions.
  \<^item> \<^verbatim>\<open>Xbd_Server\<close>: the exported handlers of \<^verbatim>\<open>server.rs\<close>, the listener and the pre-shared key of \<^verbatim>\<open>server.c\<close>.
  \<^item> \<^verbatim>\<open>Xbd_Loopback\<close>: client, socket events, server task and handlers put together, as the node that asks itself;
    the library between the socket and the handlers is the record \<^verbatim>\<open>wire\<close>.
  \<^item> \<^verbatim>\<open>Shell_Tests\<close>, \<^verbatim>\<open>Firmware_Session\<close>: the tests behind the function aliases of \<^verbatim>\<open>shell.rs\<close>, and sessions of typed
    lines over the locale \<^verbatim>\<open>command_line\<close>, the interface to what runs aliases and commands.
  \<^item> \<^verbatim>\<open>Rust_Executor\<close>: \<^verbatim>\<open>src/blogos12\<close> and \<^verbatim>\<open>src/embassy\<close>. A future is a parameter, a function from the waker, its
    state and the world to the result of a poll and the tasks it wakes; an executor is a record of its tables.
  \<^item> \<^verbatim>\<open>Async_Shell\<close>, \<^verbatim>\<open>Xbd_Events\<close>: \<^verbatim>\<open>shell.c\<close>, \<^verbatim>\<open>xbd.c\<close> and \<^verbatim>\<open>shell.rs\<close>; timers with the heaps of C and Rust
    (\<^verbatim>\<open>xbd.c\<close>, \<^verbatim>\<open>mod.rs\<close>, \<^verbatim>\<open>callback.rs\<close>, \<^verbatim>\<open>timeout.rs\<close>) and socket events (\<^verbatim>\<open>server.rs\<close>).
  \<^item> \<^verbatim>\<open>Libcoap_Client\<close>, \<^verbatim>\<open>Libcoap_Minimal\<close>: \<^verbatim>\<open>client-coap.c\<close>, \<^verbatim>\<open>client-coap.h\<close>; \<^verbatim>\<open>client.cc\<close>, \<^verbatim>\<open>server.cc\<close> and
    \<^verbatim>\<open>common.cc\<close>.
  \<^item> \<^verbatim>\<open>Border_Router\<close>, \<^verbatim>\<open>Eth_Minimal\<close>: \<^verbatim>\<open>border_router.c\<close> and \<^verbatim>\<open>esp_eth_init.c\<close>; \<^verbatim>\<open>netdev_eth_minimal.c\<close> and
    \<^verbatim>\<open>shell_commands.c\<close>.
  \<^item> \<^verbatim>\<open>Xbd_Main\<close>: \<^verbatim>\<open>main.c\<close> of \<^verbatim>\<open>xbd-net\<close>, the table of functions, and the \<^verbatim>\<open>main.c\<close> of the small examples.
  \<^item> \<^verbatim>\<open>Main_Programs\<close>: the blocks of \<^verbatim>\<open>main\<close> under constant conditions, \<^verbatim>\<open>rustmod_start\<close>, and the \<^verbatim>\<open>main.c\<close> of the
    native examples. \<^verbatim>\<open>Mcu_Emu\<close>: \<^verbatim>\<open>crates/mcu-emu\<close>.
  \<^item> This theory joins the shell with both commands, and interprets the interface of the sessions on them.

  \<^bold>\<open>How the code is modelled.\<close> The static variables of a component are a record, a function of the source
  is a function on it that returns the new record, and what goes to the terminal, the network or a
  library is appended to a log in the record. A panic, a failed assertion, a null pointer that is
  followed or a read or write outside of an array is \<^const>\<open>None\<close>. RIOT, lwIP, gcoap, libcoap and the crate
  \<^verbatim>\<open>heapless\<close> are not part of the repository: they are fields of environment records, and what the
  code relies on of them is a named hypothesis (\<^verbatim>\<open>finish_law\<close>, \<^verbatim>\<open>init_law\<close>, \<^verbatim>\<open>sends_law\<close>, \<^verbatim>\<open>wire_law\<close>, \<^verbatim>\<open>push_law\<close>,
  \<^verbatim>\<open>post_law\<close>, \<^verbatim>\<open>driver_law\<close>, \<^verbatim>\<open>aiid_law\<close>, \<^verbatim>\<open>io_int\<close>), met by the instance of the concrete runs. Variables the code
  reads before it writes them are parameters. Integers have the width of the 32-bit targets.

  \<^bold>\<open>What is shown.\<close>
  \<^item> Whole program: \<^verbatim>\<open>main\<close> reaches the executor with everything registered; a line typed at the terminal
    ends as one request on the network; a plain request is answered; a blockwise transfer delivers every
    block in order and frees its slot; the self-test passes; any session of typed lines, with commands
    of both clients and the tests behind the aliases, is run to its end.
  \<^item> The node as its own client: whatever requests it makes to its server, from the future through the event
    stream and the handlers back to the future, client and server together refine operations on one number.
  \<^item> Executors: the tables stay well-formed; what callbacks add to the streams is handled in order at the
    next pass, which ends, or as soon as what the handling awaits is resolved; the simple executor returns exactly if its tasks do.
  \<^item> Streams: no wake-up is lost however producer and consumer interleave, and the stream refines an
    atomic queue. Timers: what C and Rust allocate for one another is freed once and every closure is
    called once. Socket events: each is handled once, messages in order.
  \<^item> Commands: every command line returns; what the commands send is exactly what was asked for; a
    failing command sends nothing; the libcoap client keeps to the life cycle of its library, prints
    its answer and always ends.
  \<^item> Invariants of all reachable states of the lwIP application, the CoAP client and server, the
    blockwise store, the asynchronous shell and the Ethernet registry.
  \<^item> Equivalence with a reference for the hexadecimal reader and the scan for interfaces; round trips
    for the reader, the stored headers and the counter of the server, in any history of requests; bounds for
    buffers and counters; the layout of the flash image.
  \<^item> The places where the code does not do what it means to are theorems as well: a payload that its
    follow-up overwrites, a response taken for another transfer, a plain request answered in blocks, a line lost after one that is too
    long, a registry written past its end, a frame shorter than its header.

  \<^bold>\<open>Loops.\<close> A loop that ends by structure is a recursive function. The loops that wait for the
  environment (the TCP read loop, the terminal read loop, the wait loops of the two libcoap clients, the
  passes of the executors)
  are partial functions whose value is \<^const>\<open>None\<close> if they do not end, and theorems say exactly when they
  end; no fuel is used. The bound of 65536000 milliseconds of the libcoap client is the longest time
  to wait: the leisure of a session is a 16-bit number of seconds, and the code adds one.

  \<^bold>\<open>Not modelled.\<close> The parts of \<^verbatim>\<open>set_ips\<close> for options the build does not set, which do not compile; debug
  output of the blockwise store; the crate behind \<^verbatim>\<open>src/embassy\<close> and its critical sections, which do nothing; the
  demonstrations of \<^verbatim>\<open>src/lib.rs\<close> under conditions that are false, which only call what is modelled; the
  cryptographic test of \<^verbatim>\<open>xbd-psa\<close>, which runs a third-party library on fixed vectors; the Python and Cython code of
  \<^verbatim>\<open>examples/xbd-py\<close>, a vendored binding. Header files declare what the sources define, and have no entry beyond
  their constants. In a session, the responses to the synchronous command do not arrive, and RIOT's own commands
  do nothing. Printed texts are modelled where a property or a buffer depends on them.
\<close>

section \<open>From the terminal to the network\<close>

text \<open>
  What the command interpreter does with a line and the table of \<^verbatim>\<open>xbd.c\<close>: \<open>words\<close>, a parameter, splits
  the line into its arguments; the entry of the table with the first of them is called with all of
  them. Commands that are not in the table are RIOT's own and leave both clients alone.
\<close>

definition shell_command ::
  "(string \<Rightarrow> string list) \<Rightarrow> gcoap_env \<Rightarrow> lc_env \<Rightarrow> string \<Rightarrow> gcoap_app \<times> lc_state \<Rightarrow> (gcoap_app \<times> lc_state) option" where
  "shell_command words genv lenv line s =
     (case words line of
        [] \<Rightarrow> Some s
      | cmd # args \<Rightarrow>
          (case find (\<lambda>(name, _, _). name = cmd) xbd_shell_get_commands of
             Some (_, _, Gcoap_cli_cmd) \<Rightarrow> map_option (\<lambda>r. (snd r, snd s)) (gcoap_cli_cmd genv (cmd # args) (fst s))
           | Some (_, _, Libcoap_cli_cmd) \<Rightarrow> map_option (\<lambda>r. (fst s, snd r)) (libcoap_cli_cmd lenv (cmd # args) (snd s))
           | None \<Rightarrow> Some s))"

text \<open>The lines the shell has handed over.\<close>

definition handled_lines :: "shell_act list \<Rightarrow> string list" where
  "handled_lines as = concat (map (\<lambda>a. case a of Handle_line l \<Rightarrow> [l] | _ \<Rightarrow> []) as)"

lemma handled_lines_append [simp]: "handled_lines (xs @ ys) = handled_lines xs @ handled_lines ys"
  by (simp add: handled_lines_def)

lemma handled_lines_simps [simp]:
  "handled_lines [] = []" "handled_lines (Handle_line l # as) = l # handled_lines as"
  "handled_lines (Async_read_continue # as) = handled_lines as" "handled_lines (Shell_print t # as) = handled_lines as"
  by (simp_all add: handled_lines_def)

lemma handled_lines_alias: "handled_lines (fst (alias_spec s)) = []"
  by (auto simp: alias_spec_def handled_lines_def split: option.split)

lemma handled_lines_prompt: "handled_lines (shell_log (shell_prompt st)) = handled_lines (shell_log st)"
  by (simp add: shell_prompt_def)


text \<open>The words of a line without quotation marks.\<close>

fun split_words :: "string \<Rightarrow> string \<Rightarrow> string list" where
  "split_words acc [] = (if acc = [] then [] else [acc])"
| "split_words acc (c # cs) =
     (if c = CHR '' '' then (if acc = [] then split_words [] cs else acc # split_words [] cs) else split_words (acc @ [c]) cs)"


section \<open>Sessions\<close>

text \<open>A command line on the world of the shell task.\<close>

definition handle_command ::
  "(string \<Rightarrow> string list) \<Rightarrow> gcoap_env \<Rightarrow> alias_net \<Rightarrow> string \<Rightarrow> shell_world \<Rightarrow> shell_world option" where
  "handle_command words env net line sw =
     map_option (\<lambda>(g, c). sw\<lparr>sw_node := (sw_node sw)\<lparr>nd_app := (nd_app (sw_node sw))\<lparr>xg := g\<rparr>\<rparr>, sw_lc := c\<rparr>)
       (shell_command words env (an_lc net) line (xg (nd_app (sw_node sw)), sw_lc sw))"

text \<open>
  The firmware between two lines: the library is as documented, and each component of the world has its
  invariant. While a line runs, the blocks arrive in order, and the calls of \<^verbatim>\<open>coap_io_process\<close> take time.
  A command is allowed unless it is a \<^verbatim>\<open>ping\<close>, whose missing path \<^verbatim>\<open>client.c\<close> prints when there is a proxy.
\<close>

definition firmware_ok :: "gcoap_env \<Rightarrow> wire \<Rightarrow> coap_pkt \<Rightarrow> shell_world \<Rightarrow> bool" where
  "firmware_ok env w core sw \<longleftrightarrow>
     alias_env env w core \<and> world_ok sw \<and> client_ok (xg (nd_app (sw_node sw))) \<and> lc_ok (sw_lc sw)"

definition net_good :: "gcoap_env \<Rightarrow> alias_net \<Rightarrow> bool" where
  "net_good env net \<longleftrightarrow> alias_net_ok env net \<and> io_int (an_lc net) \<and> (\<exists>m. 65536000 \<le> elapsed (an_lc net) 0 m)"

definition command_ok :: "(string \<Rightarrow> string list) \<Rightarrow> string \<Rightarrow> bool" where
  "command_ok words line \<longleftrightarrow> take 2 (words line) \<noteq> [''gcoap'', ''ping'']"

lemma find_command:
  "find (\<lambda>(name, _, _). name = cmd) xbd_shell_get_commands =
     (if cmd = ''gcoap'' then Some (''gcoap'', ''@@ CoAP example'', Gcoap_cli_cmd)
      else if cmd = ''libcoap'' then Some (''libcoap'', ''@@ Start a libcoap client'', Libcoap_cli_cmd) else None)"
  by (simp add: xbd_shell_get_commands_def xbd_shell_commands_def)

lemma libcoap_cmd_returns:
  assumes "io_int env" and "lc_ok st" and "65536000 \<le> elapsed env 0 m" and "argv \<noteq> []"
  shows "\<exists>r st'. libcoap_cli_cmd env argv st = Some (r, st') \<and> lc_ok st'"
proof (cases "length argv < 2")
  case True
  with assms(2,4) show ?thesis by (simp add: libcoap_cli_cmd_def lc_ok_def)
next
  case False
  from client_init_terminates [OF assms(1-3)] obtain st' where st': "client_coap_init env argv st = Some st'" by blast
  with init_protocol [OF st' assms(2)] False assms(4) show ?thesis by (auto simp: libcoap_cli_cmd_def)
qed

lemma shell_command_returns:
  assumes "client_env env" and "client_ok g" and "io_int lenv" and "lc_ok c" and "65536000 \<le> elapsed lenv 0 m"
    and "command_ok words line"
  shows "\<exists>g' c'. shell_command words env lenv line (g, c) = Some (g', c') \<and> client_ok g' \<and> lc_ok c'"
proof (cases "words line")
  case Nil
  with assms(2,4) show ?thesis by (simp add: shell_command_def)
next
  case (Cons cmd args)
  show ?thesis
  proof (cases "cmd = ''gcoap''")
    case True
    have "\<not> (proxied g \<and> 1 < length (cmd # args) \<and> (cmd # args) ! 1 = ''ping'')"
      using assms(6) Cons True by (cases args) (auto simp: command_ok_def)
    from cli_cmd_defined [OF assms(1,2) _ this] obtain r g' where g': "gcoap_cli_cmd env (cmd # args) g = Some (r, g')" by blast
    with client_ok_cmd [OF g' assms(2)] assms(4) Cons True show ?thesis by (simp add: shell_command_def find_command)
  next
    case False
    from libcoap_cmd_returns [OF assms(3-5), of "cmd # args"] False assms(2,4) Cons show ?thesis
      by (auto simp: shell_command_def find_command)
  qed
qed

interpretation shell_task: command_line "run_alias env fs w" "handle_command words env" "firmware_ok env w core" "net_good env" "command_ok words"
  for env fs w words core
proof unfold_locales
  fix sw net f
  assume sw: "firmware_ok env w core sw" and net: "net_good env net"
  then have a: "alias_env env w core" "alias_net_ok env net" "world_ok sw" by (simp_all add: firmware_ok_def net_good_def)
  from run_alias_returns [OF a] obtain out sw' where r: "run_alias env fs w net f sw = Some (out, sw')" "world_ok sw'" by blast
  with cl_run_alias [OF r(1)] sw show "\<exists>out sw'. run_alias env fs w net f sw = Some (out, sw') \<and> firmware_ok env w core sw'"
    by (simp add: firmware_ok_def)
next
  fix sw net line
  assume sw: "firmware_ok env w core sw" and net: "net_good env net" and c: "command_ok words line"
  from sw have s: "client_env env" "client_ok (xg (nd_app (sw_node sw)))" "lc_ok (sw_lc sw)"
    by (auto simp: firmware_ok_def alias_env_def node_env_def)
  from net obtain m where l: "io_int (an_lc net)" "65536000 \<le> elapsed (an_lc net) 0 m" by (auto simp: net_good_def)
  from shell_command_returns [OF s(1,2) l(1) s(3) l(2) c] obtain g c' where
      "shell_command words env (an_lc net) line (xg (nd_app (sw_node sw)), sw_lc sw) = Some (g, c')" "client_ok g" "lc_ok c'" by blast
  with sw show "\<exists>sw'. handle_command words env net line sw = Some sw' \<and> firmware_ok env w core sw'"
    by (auto simp: handle_command_def firmware_ok_def world_ok_def idle_def used_upto_def)
qed


definition typed_demo :: "string list" where
  "typed_demo = [''b'' @ nl, ''f1'' @ nl, ''gcoap put ::1 /cli/stats 7'' @ nl, ''libcoap coap://[::1]/x'' @ nl, ''f'' @ nl, ''3'' @ nl]"

lemma typed_demo_fits: "list_all line_fits typed_demo"
  by (simp add: typed_demo_def line_fits_def visible_def SHELL_BUFSIZE_def utf8_ascii is_whitespace_def)

lemma typed_demo_ok: "list_all (\<lambda>cs. command_ok (split_words []) (command_of cs)) typed_demo"
  by (simp add: typed_demo_def command_of_def alias_spec_def visible_def ARRAY_ALIAS_FUNCTION_def ARRAY_ALIAS_ENUMERATED_def
      parse_usize_def is_digit_def utf8_ascii command_ok_def)


text \<open>
  C4: The function alias \<^verbatim>\<open>f\<close>, from the terminal through the network and back. When its characters are read in
  one signal, the shell task awaits the six requests of \<^verbatim>\<open>test_heapless_req\<close>, each of which goes out as a
  message, comes back as an event, is served by the server task and answered: it prints the response
  of the list of resources, the number of requests sent so far, its own included, and after the POST of
  3000 and the PUT of 1000 the payloads 3001 and 1001, since every GET counts itself before it is served.
\<close>

theorem typed_alias_queries_node:
  assumes "push_law senv" and "shell_sd st = []" and "shell_buf st = []" and "NUL \<notin> set cs" and "visible cs = ''f''"
    and "node_env env w ''[::1]''" and "node_env env w ''[::1]:5683''" and "core_ok env w core" and "idle (sw_node sw)"
    and "req_count (xg (nd_app (sw_node sw))) = c" and "words '''' = []"
  shows "\<exists>out st' sw'. type_line senv (run_alias env fs w) (handle_command words env) (cs, net) (st, sw) = Some (out, st', sw') \<and>
     results out = [memo_result GCOAP_MEMO_RESP core, MResp (Some (bytes_of (dec (unat (c + 2))))),
       MResp (Some (bytes_of ''3001'')), MResp (Some (bytes_of ''1001''))] \<and>
     req_count (xg (nd_app (sw_node sw'))) = 1001 \<and> idle (sw_node sw') \<and> shell_sd st' = []"
proof -
  have "line_fits cs" using assms(4,5) by (simp add: line_fits_def SHELL_BUFSIZE_def utf8_ascii is_whitespace_def)
  moreover have "shell_idle st" using assms(2,3) by (simp add: shell_idle_def)
  moreover have a: "alias_spec (visible cs) = ([Run_function Test_heapless_req], '''')"
    by (simp add: alias_spec_def ARRAY_ALIAS_FUNCTION_def run_function_alias_def assms(5))
  ultimately obtain st' p where st': "run_steps (shell_step senv) [Input cs, Poll] st = Some st'" "shell_idle st'"
      "drop (length (shell_log st)) (shell_log st') = [Async_read_continue, Run_function Test_heapless_req, Handle_line '''', Shell_print p]"
    using line_runs [OF assms(1), of st cs] by (auto simp: command_of_def)
  from test_heapless_req_results [OF assms(6-9)] obtain out s' where s':
      "test_heapless_req env fs w (sw_node sw) = Some (out, s')" "idle s'" "results out = heapless_results core c"
      "req_count (xg (nd_app s')) = 1001" using assms(10) by blast
  have "handle_command words env net '''' v = Some v" for v
    by (simp add: handle_command_def shell_command_def assms(11))
  with st' s' show ?thesis by (simp add: type_line_def heapless_results_def shell_idle_def del: run_steps.simps)
qed

text \<open>A new node: the first count is 2, since the request before was counted as well.\<close>

theorem typed_alias_queries_node_witness:
  "\<exists>out st' sw'. type_line demo_shell (run_alias loop_demo (\<lambda>_. None) wire_demo) (handle_command (split_words []) loop_demo)
       (''f'' @ nl, anet_demo) (shell_init, world_demo) = Some (out, st', sw') \<and>
     results out = [MResp (Some (bytes_of ''</cli/stats>'')), MResp (Some (bytes_of (dec 2))), MResp (Some (bytes_of ''3001'')),
       MResp (Some (bytes_of ''1001''))]"
proof -
  have s: "shell_sd shell_init = []" "shell_buf shell_init = []" "NUL \<notin> set (''f'' @ nl)" "visible (''f'' @ nl) = ''f''"
    by (simp_all add: shell_init_def visible_def)
  have w: "idle (sw_node world_demo)" "req_count (xg (nd_app (sw_node world_demo))) = 0"
    using demo_world by (simp_all add: world_ok_def) (simp add: world_demo_def node_start_def xbd_start_def gcoap_start_def)
  have e: "node_env loop_demo wire_demo ''[::1]''" "node_env loop_demo wire_demo ''[::1]:5683''" "core_ok loop_demo wire_demo core_demo"
    using demo_alias_env by (simp_all add: alias_env_def)
  have m: "memo_result GCOAP_MEMO_RESP core_demo = MResp (Some (bytes_of ''</cli/stats>''))"
    by (simp add: memo_result_def delivered_def core_demo_def demo_parse_def)
  have sp: "split_words [] '''' = []" by simp
  from typed_alias_queries_node [where words = "split_words []", OF demo_shell_law s e w sp, of "\<lambda>_. None" anet_demo] m show ?thesis by auto
qed

end
